(* ===== verification/Prelude.thy ===== *)
theory Prelude
  imports Main "HOL-Library.Word"
begin

text \<open>
  Shared vocabulary of the development: the machine types, the outcome of a C++ call
  (a value, a C++ exception, an R error or undefined behaviour) and the sequencing of calls
  over a state, decimal printing of integers, and lists of bytes as memory (slices, blits and
  little-endian units).
\<close>

named_theorems exec_simps \<open>equations that run a call on a state\<close>
named_theorems post_simps \<open>equations that push a postcondition through a call\<close>

section \<open>Machine types\<close>

type_synonym byte = "8 word"
type_synonym u64 = "64 word"
type_synonym i32 = "32 word"

section \<open>Outcomes of calls\<close>

text \<open>
  \<open>CppError what\<close> is a \<open>std::exception\<close>, which a \<open>catch (const std::exception &)\<close> sees;
  \<open>RError msg\<close> is R's \<open>Rf_error\<close>, a long jump that no C++ handler sees;
  \<open>Undefined why\<close> is undefined behaviour (a null or out-of-range access, a signed overflow);
  \<open>OutOfFuel\<close> is a loop cut off by the model.
\<close>

datatype so_error = CppError string | RError string | Undefined string | OutOfFuel

type_synonym ('s, 'a) exec = "'s \<Rightarrow> (so_error + 'a) \<times> 's"

definition ok :: "'a \<Rightarrow> ('s, 'a) exec" where
  "ok x = (\<lambda>s. (Inr x, s))"

definition fail :: "so_error \<Rightarrow> ('s, 'a) exec" where
  "fail e = (\<lambda>s. (Inl e, s))"

definition andThen :: "('s, 'a) exec \<Rightarrow> ('a \<Rightarrow> ('s, 'b) exec) \<Rightarrow> ('s, 'b) exec" where
  "andThen m f = (\<lambda>s. case m s of (Inl e, s') \<Rightarrow> (Inl e, s') | (Inr x, s') \<Rightarrow> f x s')"

definition catchCpp :: "('s, 'a) exec \<Rightarrow> (string \<Rightarrow> ('s, 'a) exec) \<Rightarrow> ('s, 'a) exec" where
  "catchCpp m h = (\<lambda>s. case m s of (Inl (CppError what), s') \<Rightarrow> h what s' | r \<Rightarrow> r)"

text \<open>A call that always returns.\<close>

definition returns :: "('s \<Rightarrow> 'a \<times> 's) \<Rightarrow> ('s, 'a) exec" where
  "returns f = (\<lambda>s. case f s of (x, s') \<Rightarrow> (Inr x, s'))"

primrec forEach :: "'i list \<Rightarrow> ('i \<Rightarrow> ('s, unit) exec) \<Rightarrow> ('s, unit) exec" where
  "forEach [] body = ok ()"
| "forEach (i # is) body = andThen (body i) (\<lambda>_. forEach is body)"

lemma ok_run [exec_simps]: "ok x s = (Inr x, s)"
  by (simp add: ok_def)

lemma fail_run [exec_simps]: "fail e s = (Inl e, s)"
  by (simp add: fail_def)

lemma andThen_run [exec_simps]:
  "andThen m f s = (case m s of (Inl e, s') \<Rightarrow> (Inl e, s') | (Inr x, s') \<Rightarrow> f x s')"
  by (simp add: andThen_def)

lemma catchCpp_run [exec_simps]:
  "catchCpp m h s = (case m s of (Inl (CppError what), s') \<Rightarrow> h what s' | r \<Rightarrow> r)"
  by (simp add: catchCpp_def)

lemma returns_run [exec_simps]: "returns f s = (Inr (fst (f s)), snd (f s))"
  by (simp add: returns_def split: prod.split)

lemma andThen_Inr [simp]: "m s = (Inr x, s') \<Longrightarrow> andThen m f s = f x s'"
  by (simp add: andThen_def)

lemma andThen_Inl [simp]: "m s = (Inl e, s') \<Longrightarrow> andThen m f s = (Inl e, s')"
  by (simp add: andThen_def)

lemma andThen_InrE:
  assumes "andThen m f s = (Inr y, t)"
  obtains x s' where "m s = (Inr x, s')" and "f x s' = (Inr y, t)"
  using assms by (auto simp: andThen_def split: prod.splits sum.splits)

lemma andThen_assoc: "andThen (andThen m f) g = andThen m (\<lambda>x. andThen (f x) g)"
  by (rule ext) (simp add: andThen_def split: prod.split sum.split)

lemma forEach_append: "forEach (is @ js) body = andThen (forEach is body) (\<lambda>_. forEach js body)"
  by (induction "is") (auto simp: andThen_def ok_def fun_eq_iff split: prod.splits sum.splits)

subsection \<open>Postconditions\<close>

text \<open>
  \<open>post m s Q E\<close>: run from \<open>s\<close>, the call \<open>m\<close> returns a value and state satisfying \<open>Q\<close> or an
  error and state satisfying \<open>E\<close>.
\<close>

definition post :: "('s, 'a) exec \<Rightarrow> 's \<Rightarrow> ('a \<Rightarrow> 's \<Rightarrow> bool) \<Rightarrow> (so_error \<Rightarrow> 's \<Rightarrow> bool) \<Rightarrow> bool" where
  "post m s Q E = (case m s of (Inl e, s') \<Rightarrow> E e s' | (Inr x, s') \<Rightarrow> Q x s')"

lemma post_ok [post_simps]: "post (ok x) s Q E = Q x s"
  by (simp add: post_def ok_def)

lemma post_fail [post_simps]: "post (fail e) s Q E = E e s"
  by (simp add: post_def fail_def)

lemma post_andThen [post_simps]:
  "post (andThen m f) s Q E = post m s (\<lambda>x s'. post (f x) s' Q E) E"
  by (simp add: post_def andThen_def split: prod.splits sum.splits)

lemma post_if [post_simps]:
  "post (if b then m else m') s Q E = (if b then post m s Q E else post m' s Q E)"
  by simp

lemma post_cong:
  assumes "post m s Q E" and "\<And>x s'. Q x s' \<Longrightarrow> Q' x s'" and "\<And>e s'. E e s' \<Longrightarrow> E' e s'"
  shows "post m s Q' E'"
  using assms by (auto simp: post_def split: prod.splits sum.splits)

lemma post_InrD: "post m s Q E \<Longrightarrow> m s = (Inr x, s') \<Longrightarrow> Q x s'"
  by (simp add: post_def)

lemma post_InlD: "post m s Q E \<Longrightarrow> m s = (Inl e, s') \<Longrightarrow> E e s'"
  by (simp add: post_def)

lemma post_forEach:
  assumes "\<And>i s. i \<in> set is \<Longrightarrow> I s \<Longrightarrow> post (body i) s (\<lambda>_ s'. I s') (\<lambda>_ s'. I s')"
    and "I s"
  shows "post (forEach is body) s (\<lambda>_ s'. I s') (\<lambda>_ s'. I s')"
  using assms
proof (induction "is" arbitrary: s)
  case Nil
  then show ?case by (simp add: post_simps)
next
  case (Cons i "is")
  have "post (body i) s (\<lambda>_ s'. I s') (\<lambda>_ s'. I s')"
    using Cons.prems by simp
  moreover have "post (forEach is body) s' (\<lambda>_ s'. I s') (\<lambda>_ s'. I s')" if "I s'" for s'
    using Cons that by simp
  ultimately show ?case by (auto simp: post_simps elim: post_cong)
qed

section \<open>Decimal printing: \<open>std::to_string\<close> and \<open>%llu\<close>\<close>

definition digit_char :: "nat \<Rightarrow> char" where
  "digit_char d = char_of (48 + d)"

fun to_string :: "nat \<Rightarrow> string" where
  "to_string n = (if n < 10 then [digit_char n] else to_string (n div 10) @ [digit_char (n mod 10)])"

declare to_string.simps [simp del]

definition of_digits :: "string \<Rightarrow> nat" where
  "of_digits cs = foldl (\<lambda>acc c. 10 * acc + (of_char c - 48)) 0 cs"

lemma of_char_digit: "d < 10 \<Longrightarrow> (of_char (digit_char d) :: nat) = 48 + d"
  by (simp add: digit_char_def)

lemma of_digits_snoc: "of_digits (cs @ [c]) = 10 * of_digits cs + (of_char c - 48)"
  by (simp add: of_digits_def)

lemma of_digits_to_string: "of_digits (to_string n) = n"
proof (induction n rule: to_string.induct)
  case (1 n)
  show ?case
  proof (cases "n < 10")
    case True
    then show ?thesis
      by (subst to_string.simps) (simp add: of_digits_def of_char_digit)
  next
    case False
    then have "to_string n = to_string (n div 10) @ [digit_char (n mod 10)]"
      by (subst to_string.simps) simp
    then show ?thesis
      using "1.IH" False by (simp add: of_digits_snoc of_char_digit)
  qed
qed

lemma to_string_inject [simp]: "to_string m = to_string n \<longleftrightarrow> m = n"
  by (metis of_digits_to_string)

lemma to_string_not_Nil [simp]: "to_string n \<noteq> []"
  by (subst to_string.simps) simp

section \<open>Bytes and memory blocks\<close>

text \<open>
  A block of memory is its list of bytes. \<open>slice off n bs\<close> reads \<open>n\<close> bytes at offset \<open>off\<close>;
  \<open>blit off xs bs\<close> is \<open>memcpy(bs + off, xs, length xs)\<close> for a copy that fits.
\<close>

definition slice :: "nat \<Rightarrow> nat \<Rightarrow> 'a list \<Rightarrow> 'a list" where
  "slice off n bs = take n (drop off bs)"

definition blit :: "nat \<Rightarrow> 'a list \<Rightarrow> 'a list \<Rightarrow> 'a list" where
  "blit off xs bs = take off bs @ xs @ drop (off + length xs) bs"

lemma length_slice [simp]: "off + n \<le> length bs \<Longrightarrow> length (slice off n bs) = n"
  by (simp add: slice_def)

lemma length_blit [simp]: "off + length xs \<le> length bs \<Longrightarrow> length (blit off xs bs) = length bs"
  by (simp add: blit_def)

lemma slice_blit_same:
  "off + length xs \<le> length bs \<Longrightarrow> slice off (length xs) (blit off xs bs) = xs"
  by (simp add: slice_def blit_def)

lemma nth_blit:
  assumes "off + length xs \<le> length bs" and "k < length bs"
  shows "blit off xs bs ! k = (if off \<le> k \<and> k < off + length xs then xs ! (k - off) else bs ! k)"
  using assms by (auto simp: blit_def nth_append)

lemma nth_slice: "off + n \<le> length bs \<Longrightarrow> k < n \<Longrightarrow> slice off n bs ! k = bs ! (off + k)"
  by (simp add: slice_def)

lemma take_blit:
  assumes "off + length xs \<le> n" and "n \<le> length bs"
  shows "take n (blit off xs bs) = blit off xs (take n bs)"
proof (rule nth_equalityI)
  show "length (take n (blit off xs bs)) = length (blit off xs (take n bs))"
    using assms by simp
  fix i assume "i < length (take n (blit off xs bs))"
  then show "take n (blit off xs bs) ! i = blit off xs (take n bs) ! i"
    using assms by (simp add: nth_blit)
qed

lemma slice_blit_other:
  assumes "off + length xs \<le> length bs" and "off' + n \<le> length bs"
    and "off' + n \<le> off \<or> off + length xs \<le> off'"
  shows "slice off' n (blit off xs bs) = slice off' n bs"
  using assms by (intro nth_equalityI) (auto simp: nth_slice nth_blit)

lemma slice_take: "off + n \<le> m \<Longrightarrow> slice off n (take m bs) = slice off n bs"
  by (simp add: slice_def drop_take min_def)

lemma blit_0_all: "length xs = length bs \<Longrightarrow> blit 0 xs bs = xs"
  by (simp add: blit_def)

lemma slice_all: "slice 0 (length bs) bs = bs"
  by (simp add: slice_def)

lemma slice_append_left: "off + n \<le> length xs \<Longrightarrow> slice off n (xs @ ys) = slice off n xs"
  by (simp add: slice_def)

lemma slice_slice: "a + n \<le> m \<Longrightarrow> slice a n (slice off m bs) = slice (off + a) n bs"
  by (simp add: slice_def drop_take min_def add.commute)

lemma blit_append:
  "length xs = k \<Longrightarrow> length ys \<le> length bs \<Longrightarrow> blit k ys (xs @ bs) = xs @ ys @ drop (length ys) bs"
  by (simp add: blit_def)

subsection \<open>Writing equal units one after another\<close>

text \<open>The buffer after a loop that stores unit \<open>i\<close> at byte offset \<open>i * u\<close>, for \<open>i < n\<close>.\<close>

fun write_units :: "nat \<Rightarrow> (nat \<Rightarrow> 'a list) \<Rightarrow> nat \<Rightarrow> 'a list \<Rightarrow> 'a list" where
  "write_units u f 0 bs = bs"
| "write_units u f (Suc n) bs = blit (n * u) (f n) (write_units u f n bs)"

lemma length_concat_units:
  "(\<And>i. i < n \<Longrightarrow> length (f i) = u) \<Longrightarrow> length (concat (map f [0..<n])) = n * u"
  by (induction n) simp_all

lemma write_units_eq:
  assumes "\<And>i. i < n \<Longrightarrow> length (f i) = u" and "n * u \<le> length bs"
  shows "write_units u f n bs = concat (map f [0..<n]) @ drop (n * u) bs"
  using assms
proof (induction n)
  case 0
  then show ?case by simp
next
  case (Suc n)
  have IH: "write_units u f n bs = concat (map f [0..<n]) @ drop (n * u) bs"
    using Suc by simp
  have "length (concat (map f [0..<n])) = n * u"
    using Suc.prems(1) by (intro length_concat_units) simp
  moreover have "length (f n) \<le> length (drop (n * u) bs)"
    using Suc.prems by simp
  ultimately show ?case
    using Suc.prems(1) by (simp add: IH blit_append add.commute)
qed

lemma length_write_units:
  assumes "\<And>i. i < n \<Longrightarrow> length (f i) = u" and "n * u \<le> length bs"
  shows "length (write_units u f n bs) = length bs"
  using assms by (simp add: write_units_eq length_concat_units)

lemma slice_concat_units:
  assumes "\<And>i. i < n \<Longrightarrow> length (f i) = u" and "i < n"
  shows "slice (i * u) u (concat (map f [0..<n]) @ rest) = f i"
proof -
  have "[0..<n] = [0..<i] @ i # [Suc i..<n]"
    using assms(2) by (metis upt_conv_Cons upt_add_eq_append le_add_diff_inverse less_imp_le zero_le)
  then have "concat (map f [0..<n]) = concat (map f [0..<i]) @ f i @ concat (map f [Suc i..<n])"
    by simp
  moreover have "length (concat (map f [0..<i])) = i * u"
    using assms by (intro length_concat_units) simp
  ultimately show ?thesis
    using assms by (simp add: slice_def)
qed

subsection \<open>Little-endian units\<close>

text \<open>The bytes of a \<open>uint8_t\<close>, \<open>uint16_t\<close>, \<open>uint32_t\<close> or \<open>uint64_t\<close> of width \<open>w\<close> in memory.\<close>

fun le_bytes :: "nat \<Rightarrow> nat \<Rightarrow> byte list" where
  "le_bytes 0 v = []"
| "le_bytes (Suc w) v = of_nat (v mod 256) # le_bytes w (v div 256)"

fun from_le :: "byte list \<Rightarrow> nat" where
  "from_le [] = 0"
| "from_le (b # bs) = unat b + 256 * from_le bs"

lemma length_le_bytes [simp]: "length (le_bytes w v) = w"
  by (induction w arbitrary: v) simp_all

lemma unat_byte_mod [simp]: "unat (of_nat (v mod 256) :: byte) = v mod 256"
  by (simp add: unat_of_nat take_bit_eq_mod)

lemma from_le_bytes: "from_le (le_bytes w v) = v mod 256 ^ w"
proof (induction w arbitrary: v)
  case 0
  then show ?case by simp
next
  case (Suc w)
  then show ?case
    by (simp add: mod_mult2_eq)
qed

lemma from_le_bytes_id: "v < 256 ^ w \<Longrightarrow> from_le (le_bytes w v) = v"
  by (simp add: from_le_bytes)

lemma from_le_bound: "from_le bs < 256 ^ length bs"
proof (induction bs)
  case Nil
  then show ?case by simp
next
  case (Cons b bs)
  have "unat b < 256"
    using unsigned_less [of b] by simp
  moreover have "256 * from_le bs + 256 \<le> 256 * 256 ^ length bs"
    using Cons by simp
  ultimately show ?case
    by simp
qed

end
