(* ===== verification/BoostShm.thy ===== *)
theory BoostShm
  imports Prelude
begin

text \<open>
  The interface of the code the repository calls but does not contain: Boost.Interprocess
  (\<open>shared_memory_object\<close>, \<open>mapped_region\<close>, \<open>named_semaphore\<close>) and the system calls behind it
  (\<open>statvfs\<close>, \<open>signal\<close>, loads and stores through a mapping). It is a parameter: a record of
  operations over an unknown state \<open>'os\<close>, which every definition that uses it takes as argument.
  What the code relies on is stated as the assumptions of the locales \<open>shm_os\<close> (what a call
  that succeeds has done, that a call that fails has done nothing) and \<open>shm_os_live\<close> (calls do
  succeed when nothing is exhausted).
\<close>

section \<open>Pointers\<close>

text \<open>A C pointer is a mapping and a byte offset in it.\<close>

datatype ptr = Ptr (ptr_block: nat) (ptr_off: int)

definition ptr_add :: "ptr \<Rightarrow> int \<Rightarrow> ptr" where
  "ptr_add p d = Ptr (ptr_block p) (ptr_off p + d)"

lemma ptr_add_Ptr [simp]: "ptr_add (Ptr r off) d = Ptr r (off + d)"
  by (simp add: ptr_add_def)

text \<open>\<open>mapped_region::get_address\<close>: the first byte of the mapping.\<close>

definition region_address :: "nat \<Rightarrow> ptr" where
  "region_address r = Ptr r 0"

section \<open>The operations\<close>

text \<open>A failing operation returns the \<open>what()\<close> of the exception Boost throws.\<close>

record 'os boost =
  shm_open_only :: "string \<Rightarrow> 'os \<Rightarrow> (string + nat) \<times> 'os"
  shm_create_only :: "string \<Rightarrow> 'os \<Rightarrow> (string + nat) \<times> 'os"
  shm_truncate :: "nat \<Rightarrow> u64 \<Rightarrow> 'os \<Rightarrow> (string + unit) \<times> 'os"
  shm_get_size :: "nat \<Rightarrow> 'os \<Rightarrow> u64"
  shm_delete :: "nat \<Rightarrow> 'os \<Rightarrow> 'os"
  shm_remove :: "string \<Rightarrow> 'os \<Rightarrow> 'os"
  region_new :: "nat \<Rightarrow> 'os \<Rightarrow> (string + nat) \<times> 'os"
  region_delete :: "nat \<Rightarrow> 'os \<Rightarrow> 'os"
  region_flush :: "nat \<Rightarrow> 'os \<Rightarrow> 'os"
  mem_load :: "ptr \<Rightarrow> nat \<Rightarrow> 'os \<Rightarrow> byte list option"
  mem_store :: "ptr \<Rightarrow> byte list \<Rightarrow> 'os \<Rightarrow> 'os option"
  shm_directory :: "string option"
  path_exists :: "string \<Rightarrow> 'os \<Rightarrow> bool"
  stat_vfs :: "string \<Rightarrow> 'os \<Rightarrow> (u64 \<times> u64) option"
  signal_ok :: "'os \<Rightarrow> bool"
  sigbus_on_touch :: "ptr \<Rightarrow> u64 \<Rightarrow> 'os \<Rightarrow> bool"
  sem_open_or_create :: "string \<Rightarrow> nat \<Rightarrow> 'os \<Rightarrow> (string + nat) \<times> 'os"
  sem_timed_wait :: "nat \<Rightarrow> 'os \<Rightarrow> bool \<times> 'os"
  sem_post :: "nat \<Rightarrow> 'os \<Rightarrow> 'os"
  sem_delete :: "nat \<Rightarrow> 'os \<Rightarrow> 'os"
  sem_remove :: "string \<Rightarrow> 'os \<Rightarrow> 'os"

section \<open>What can be observed\<close>

text \<open>
  The shared memory of the machine as POSIX documents it: a name refers to an object (an inode),
  which lives on while handles or mappings refer to it, whatever happens to the name. Handles
  and mappings are those of all processes together.
\<close>

record shm_view =
  vnames :: "string \<Rightarrow> nat option"
  vobjs :: "nat \<Rightarrow> byte list"
  vhandles :: "nat \<Rightarrow> nat option"
  vregions :: "nat \<Rightarrow> nat option"

lemma view_undo:
  "vnames v k = x \<Longrightarrow> v\<lparr>vnames := (vnames v)(k := x)\<rparr> = v"
  "vhandles v h = y \<Longrightarrow> v\<lparr>vhandles := (vhandles v)(h := y)\<rparr> = v"
  "vregions v r = z \<Longrightarrow> v\<lparr>vregions := (vregions v)(r := z)\<rparr> = v"
  by (auto intro!: shm_view.equality)

text \<open>Nothing refers to object \<open>j\<close>.\<close>

definition unreferenced :: "nat \<Rightarrow> shm_view \<Rightarrow> bool" where
  "unreferenced j v \<longleftrightarrow> j \<notin> ran (vnames v) \<and> j \<notin> ran (vhandles v) \<and> j \<notin> ran (vregions v)"

text \<open>The largest object: sizes are signed 64-bit offsets.\<close>

definition max_object :: nat where
  "max_object = 2 ^ 63"

definition in_bounds :: "shm_view \<Rightarrow> ptr \<Rightarrow> nat \<Rightarrow> bool" where
  "in_bounds v p n \<longleftrightarrow>
     (\<exists>j. vregions v (ptr_block p) = Some j \<and> 0 \<le> ptr_off p \<and> nat (ptr_off p) + n \<le> length (vobjs v j))"

lemma in_bounds_Ptr:
  "vregions v r = Some j \<Longrightarrow>
   in_bounds v (Ptr r off) n \<longleftrightarrow> 0 \<le> off \<and> nat off + n \<le> length (vobjs v j)"
  by (simp add: in_bounds_def)

locale shm_os =
  fixes B :: "'os boost" and view :: "'os \<Rightarrow> shm_view"
  assumes finite_names: "finite (dom (vnames (view os)))"
    and open_ok: "shm_open_only B k os = (Inr h, os') \<Longrightarrow>
      \<exists>j. vnames (view os) k = Some j \<and> vhandles (view os) h = None \<and>
          view os' = (view os)\<lparr>vhandles := (vhandles (view os))(h \<mapsto> j)\<rparr>"
    and open_err: "shm_open_only B k os = (Inl e, os') \<Longrightarrow> view os' = view os"
    and create_ok: "shm_create_only B k os = (Inr h, os') \<Longrightarrow>
      vnames (view os) k = None \<and> vhandles (view os) h = None \<and>
      (\<exists>j. unreferenced j (view os) \<and>
           view os' = (view os)\<lparr>vnames := (vnames (view os))(k \<mapsto> j),
                                vobjs := (vobjs (view os))(j := []),
                                vhandles := (vhandles (view os))(h \<mapsto> j)\<rparr>)"
    and create_err: "shm_create_only B k os = (Inl e, os') \<Longrightarrow> view os' = view os"
    and truncate_ok: "shm_truncate B h sz os = (Inr u, os') \<Longrightarrow>
      \<exists>j bs. vhandles (view os) h = Some j \<and> unat sz \<le> length bs \<and> length bs < max_object \<and>
             view os' = (view os)\<lparr>vobjs := (vobjs (view os))(j := bs)\<rparr>"
    and truncate_err: "shm_truncate B h sz os = (Inl e, os') \<Longrightarrow> view os' = view os"
    and get_size: "vhandles (view os) h = Some j \<Longrightarrow> length (vobjs (view os) j) < max_object \<Longrightarrow>
      shm_get_size B h os = of_nat (length (vobjs (view os) j))"
    and delete_handle: "view (shm_delete B h os) = (view os)\<lparr>vhandles := (vhandles (view os))(h := None)\<rparr>"
    and remove_name: "view (shm_remove B k os) = (view os)\<lparr>vnames := (vnames (view os))(k := None)\<rparr>"
    and region_ok: "region_new B h os = (Inr r, os') \<Longrightarrow>
      \<exists>j. vhandles (view os) h = Some j \<and> vregions (view os) r = None \<and>
          view os' = (view os)\<lparr>vregions := (vregions (view os))(r \<mapsto> j)\<rparr>"
    and region_err: "region_new B h os = (Inl e, os') \<Longrightarrow> view os' = view os"
    and delete_region: "view (region_delete B r os) = (view os)\<lparr>vregions := (vregions (view os))(r := None)\<rparr>"
    and flush_region: "view (region_flush B r os) = view os"
    and load_ok: "vregions (view os) r = Some j \<Longrightarrow> in_bounds (view os) (Ptr r off) n \<Longrightarrow>
      mem_load B (Ptr r off) n os = Some (slice (nat off) n (vobjs (view os) j))"
    and load_outside: "\<not> in_bounds (view os) p n \<Longrightarrow> mem_load B p n os = None"
    and store_ok: "vregions (view os) r = Some j \<Longrightarrow> in_bounds (view os) (Ptr r off) (length bs) \<Longrightarrow>
      \<exists>os'. mem_store B (Ptr r off) bs os = Some os' \<and>
        view os' = (view os)\<lparr>vobjs := (vobjs (view os))(j := blit (nat off) bs (vobjs (view os) j))\<rparr>"
    and store_outside: "\<not> in_bounds (view os) p (length bs) \<Longrightarrow> mem_store B p bs os = None"
    and sem_open_view: "view (snd (sem_open_or_create B k n os)) = view os"
    and sem_wait_view: "view (snd (sem_timed_wait B s os)) = view os"
    and sem_post_view: "view (sem_post B s os) = view os"
    and sem_delete_view: "view (sem_delete B s os) = view os"
    and sem_remove_view: "view (sem_remove B k os) = view os"
begin

lemma store_Some:
  assumes "mem_store B (Ptr r off) bs os = Some os'"
  shows "\<exists>j. vregions (view os) r = Some j \<and> 0 \<le> off \<and> nat off + length bs \<le> length (vobjs (view os) j) \<and>
    view os' = (view os)\<lparr>vobjs := (vobjs (view os))(j := blit (nat off) bs (vobjs (view os) j))\<rparr>"
proof -
  have inb: "in_bounds (view os) (Ptr r off) (length bs)"
    using store_outside assms by fastforce
  then obtain j where j: "vregions (view os) r = Some j"
    by (auto simp: in_bounds_def)
  from store_ok [OF this inb] assms inb j show ?thesis
    by (auto simp: in_bounds_def)
qed

lemma load_Some:
  assumes "mem_load B (Ptr r off) n os = Some bs"
  shows "\<exists>j. vregions (view os) r = Some j \<and> 0 \<le> off \<and> nat off + n \<le> length (vobjs (view os) j) \<and>
    bs = slice (nat off) n (vobjs (view os) j)"
proof -
  have inb: "in_bounds (view os) (Ptr r off) n"
    using load_outside assms by fastforce
  then obtain j where j: "vregions (view os) r = Some j"
    by (auto simp: in_bounds_def)
  from load_ok [OF this inb] assms inb j show ?thesis
    by (auto simp: in_bounds_def)
qed

lemmas quiet_views = open_err create_err truncate_err region_err flush_region
  sem_open_view sem_wait_view sem_post_view sem_delete_view sem_remove_view

end

locale shm_os_live = shm_os +
  assumes open_live: "vnames (view os) k = Some j \<Longrightarrow> \<exists>h os'. shm_open_only B k os = (Inr h, os')"
    and create_live: "vnames (view os) k = None \<Longrightarrow> \<exists>h os'. shm_create_only B k os = (Inr h, os')"
    and truncate_live: "vhandles (view os) h = Some j \<Longrightarrow> unat sz < max_object \<Longrightarrow>
      \<exists>os'. shm_truncate B h sz os = (Inr (), os')"
    and region_live: "vhandles (view os) h = Some j \<Longrightarrow> vobjs (view os) j \<noteq> [] \<Longrightarrow>
      \<exists>r os'. region_new B h os = (Inr r, os')"
begin

lemma open_iff: "(\<exists>h os'. shm_open_only B k os = (Inr h, os')) \<longleftrightarrow> vnames (view os) k \<noteq> None"
  using open_live open_ok by fastforce

end

end
