(* ===== verification/Utils.thy ===== *)
theory Utils
  imports BoostShm
begin

text \<open>
  The helpers of \<open>src/utils.cpp\<close> that the other components call: throwing errors, the sizes of
  R's atomic types, the directory of the shared memory files, the platform constants, and R's
  protection stack as \<open>PROTECT_GUARD\<close> uses it. Also \<open>C_getDataTypeId\<close> of \<open>src/C_interface.cpp\<close>.
  The model is the Linux branch of the conditional code, on a 64-bit platform.
\<close>

section \<open>Errors\<close>

definition nl :: string where
  "nl = [CHR 0x0A]"

definition BUFFER_SIZE :: nat where
  "BUFFER_SIZE = 16 * 1024"

text \<open>\<open>vsnprintf\<close> keeps at most \<open>BUFFER_SIZE - 1\<close> characters of the formatted message.\<close>

definition throwError :: "string \<Rightarrow> ('s, 'a) exec" where
  "throwError msg = fail (CppError (take (BUFFER_SIZE - 1) msg))"

lemma throwError_run [exec_simps]: "throwError msg s = (Inl (CppError (take (BUFFER_SIZE - 1) msg)), s)"
  by (simp add: throwError_def fail_def)

lemma post_throwError [post_simps]:
  "post (throwError msg) s Q E = E (CppError (take (BUFFER_SIZE - 1) msg)) s"
  by (simp add: throwError_def post_fail)

section \<open>Platform\<close>

definition sizeof_void_ptr :: nat where
  "sizeof_void_ptr = 8"

definition OS_ADDRESS_SIZE :: string where
  "OS_ADDRESS_SIZE = ''X'' @ to_string (sizeof_void_ptr * 8)"

definition SIZE_MAX :: u64 where
  "SIZE_MAX = - 1"

definition getSharedMemoryPath :: "'os boost \<Rightarrow> 'os \<Rightarrow> string" where
  "getSharedMemoryPath B os =
     (case shm_directory B of
        Some path \<Rightarrow> path
      | None \<Rightarrow> (let path = ''/dev/shm'' in if path_exists B path os then path else ''''))"

section \<open>R's vector types\<close>

text \<open>The \<open>SEXPTYPE\<close> codes of R's headers.\<close>

definition LGLSXP :: int where "LGLSXP = 10"
definition INTSXP :: int where "INTSXP = 13"
definition REALSXP :: int where "REALSXP = 14"
definition CPLXSXP :: int where "CPLXSXP = 15"
definition STRSXP :: int where "STRSXP = 16"
definition VECSXP :: int where "VECSXP = 19"
definition RAWSXP :: int where "RAWSXP = 24"

lemmas sexp_types = LGLSXP_def INTSXP_def REALSXP_def CPLXSXP_def STRSXP_def VECSXP_def RAWSXP_def

definition show_int :: "int \<Rightarrow> string" where
  "show_int i = (if i < 0 then ''-'' @ to_string (nat (- i)) else to_string (nat i))"

definition getTypeSize :: "int \<Rightarrow> so_error + u64" where
  "getTypeSize type =
     (if type = INTSXP then Inr 4
      else if type = LGLSXP then Inr 4
      else if type = REALSXP then Inr 8
      else if type = RAWSXP then Inr 1
      else if type = CPLXSXP then Inr 16
      else Inl (RError (''Unknown type: '' @ show_int type @ nl)))"

text \<open>\<open>elt_size * XLENGTH(x)\<close> in \<open>uint64_t\<close>: the product wraps.\<close>

definition getObjectSize :: "int \<Rightarrow> u64 \<Rightarrow> so_error + u64" where
  "getObjectSize type xlength =
     (case getTypeSize type of Inl e \<Rightarrow> Inl e | Inr elt_size \<Rightarrow> Inr (elt_size * xlength))"

definition C_getDataTypeId :: "string \<Rightarrow> so_error + int" where
  "C_getDataTypeId type =
     (if type = ''raw'' then Inr RAWSXP
      else if type = ''logical'' then Inr LGLSXP
      else if type = ''integer'' then Inr INTSXP
      else if type = ''real'' \<or> type = ''numeric'' then Inr REALSXP
      else if type = ''complex'' then Inr CPLXSXP
      else if type = ''character'' then Inr STRSXP
      else Inl (RError (''Cannot find the type id for the type <'' @ type @ ''>'' @ nl)))"

text \<open>The types a numeric shared object can have.\<close>

definition numeric_types :: "int list" where
  "numeric_types = [INTSXP, LGLSXP, REALSXP, RAWSXP, CPLXSXP]"

lemma getTypeSize_Inr_iff: "(\<exists>n. getTypeSize t = Inr n) \<longleftrightarrow> t \<in> set numeric_types"
  by (simp add: getTypeSize_def numeric_types_def)

lemma getTypeSize_cases:
  assumes "getTypeSize t = Inr n"
  shows "n \<in> {1, 4, 8, 16}"
  using assms by (auto simp: getTypeSize_def split: if_splits)

lemma unat_getTypeSize:
  assumes "getTypeSize t = Inr n"
  shows "unat n \<in> {1, 4, 8, 16}"
  using getTypeSize_cases [OF assms] by auto

lemma getObjectSize_exact:
  assumes "getTypeSize t = Inr n" and "unat n * unat len < 2 ^ 64"
  shows "\<exists>sz. getObjectSize t len = Inr sz \<and> unat sz = unat n * unat len"
  using assms by (simp add: getObjectSize_def unat_mult_lem [THEN iffD1])

text \<open>
  Lengths and sizes go through R's doubles, in the data information and in \<open>getSharedMemorySize\<close>. A double
  holds them exactly: the longest vector of R has \<open>2 ^ 52\<close> elements, and the size of an element is a power of 2.
\<close>

definition exact_double :: "nat \<Rightarrow> bool" where
  "exact_double n \<longleftrightarrow> (\<exists>m k. n = m * 2 ^ k \<and> m < 2 ^ 53)"

lemma exact_double_scaled: "m < 2 ^ 53 \<Longrightarrow> exact_double (m * 2 ^ k)"
  by (auto simp: exact_double_def)

lemma getTypeSize_power:
  assumes "getTypeSize t = Inr n"
  obtains k where "unat n = 2 ^ k" and "k \<le> 4"
proof -
  have "unat n \<in> {2 ^ 0, 2 ^ 2, 2 ^ 3, 2 ^ 4}"
    using unat_getTypeSize [OF assms] by simp
  then show thesis
    using that [of 0] that [of 2] that [of 3] that [of 4] by auto
qed

lemma getObjectSize_double:
  assumes "getObjectSize t len = Inr sz" and "unat len \<le> 2 ^ 52"
  shows "exact_double (unat len) \<and> exact_double (unat sz)"
proof -
  obtain n where n: "getTypeSize t = Inr n"
    using assms(1) by (auto simp: getObjectSize_def split: sum.splits)
  obtain k where k: "unat n = 2 ^ k" "k \<le> 4"
    by (rule getTypeSize_power [OF n])
  have "unat n * unat len \<le> 2 ^ 4 * 2 ^ 52"
    using assms(2) k(1) power_increasing [OF k(2), of "2::nat"] by (intro mult_mono) simp_all
  then have "unat n * unat len < 2 ^ 64"
    by (rule le_less_trans) simp
  then have "unat sz = unat len * 2 ^ k"
    using getObjectSize_exact [OF n, of len] assms(1) k(1) by (auto simp: mult.commute)
  moreover have "unat len < 2 ^ 53"
    using assms(2) by simp
  ultimately show ?thesis
    using exact_double_scaled [of "unat len" 0] exact_double_scaled [of "unat len" k] by simp
qed

section \<open>Loading the package\<close>

text \<open>
  The call of a function of R on a string, and its evaluation, a parameter: \<open>R_tryEval\<close> returns nothing when the
  call is an error.
\<close>

datatype r_lang = Rf_lang2 string string

definition PACKAGE_NAME :: string where
  "PACKAGE_NAME = ''SharedObject''"

definition loadLibrary :: "(r_lang \<Rightarrow> 'r \<Rightarrow> 'e option \<times> 'r) \<Rightarrow> 'r \<Rightarrow> 'r" where
  "loadLibrary R_tryEval h = snd (R_tryEval (Rf_lang2 ''library'' PACKAGE_NAME) h)"

section \<open>The protection stack\<close>

text \<open>
  \<open>protect_num\<close> of the guard beside the height of R's stack. The destructor pops what the guard
  has pushed.
\<close>

record protect_state =
  protect_num :: nat
  stack_height :: nat

definition PROTECT_GUARD_new :: "nat \<Rightarrow> protect_state" where
  "PROTECT_GUARD_new height = \<lparr>protect_num = 0, stack_height = height\<rparr>"

definition PROTECT_GUARD_protect :: "protect_state \<Rightarrow> protect_state" where
  "PROTECT_GUARD_protect g =
     g\<lparr>protect_num := Suc (protect_num g), stack_height := Suc (stack_height g)\<rparr>"

definition PROTECT_GUARD_delete :: "protect_state \<Rightarrow> nat" where
  "PROTECT_GUARD_delete g =
     (if protect_num g \<noteq> 0 then stack_height g - protect_num g else stack_height g)"

lemma protect_guard_count:
  "(PROTECT_GUARD_protect ^^ n) (PROTECT_GUARD_new height) = \<lparr>protect_num = n, stack_height = height + n\<rparr>"
  by (induction n) (simp_all add: PROTECT_GUARD_new_def PROTECT_GUARD_protect_def)

end
