(* ===== verification/SharedObjectClass.thy ===== *)
theory SharedObjectClass
  imports Utils
begin

text \<open>
  \<open>src/sharedObjectClass.h\<close> and \<open>src/sharedObjectClass.cpp\<close>: one shared memory segment as seen by
  one process, with its optional handle, mapping and pointer, its size and its ownership flag.
  A method is a call over the pair of the object and the state of the machine.
\<close>

section \<open>The object\<close>

record shared_object =
  sharedMemoryHandle :: "nat option"
  mappedRegionHandle :: "nat option"
  shared_ptr :: "ptr option"
  so_key :: string
  so_size :: u64
  ownData :: bool

type_synonym 'os so_state = "shared_object \<times> 'os"

definition SharedObjectClass_new :: "string \<Rightarrow> u64 \<Rightarrow> shared_object" where
  "SharedObjectClass_new key size_in_byte =
     \<lparr>sharedMemoryHandle = None, mappedRegionHandle = None, shared_ptr = None,
      so_key = key, so_size = size_in_byte, ownData = False\<rparr>"

definition hasSharedMemoryHandle :: "shared_object \<Rightarrow> bool" where
  "hasSharedMemoryHandle so \<longleftrightarrow> sharedMemoryHandle so \<noteq> None"

definition hasMappedRegionHandle :: "shared_object \<Rightarrow> bool" where
  "hasMappedRegionHandle so \<longleftrightarrow> mappedRegionHandle so \<noteq> None"

definition hasPointer :: "shared_object \<Rightarrow> bool" where
  "hasPointer so \<longleftrightarrow> shared_ptr so \<noteq> None"

definition SO_getOwnership :: "shared_object \<Rightarrow> bool" where
  "SO_getOwnership so = ownData so"

definition SO_setOwnership :: "bool \<Rightarrow> shared_object \<Rightarrow> shared_object" where
  "SO_setOwnership own so = so\<lparr>ownData := own\<rparr>"

definition SO_getSize :: "shared_object \<Rightarrow> u64" where
  "SO_getSize so = so_size so"

lemmas so_has_defs = hasSharedMemoryHandle_def hasMappedRegionHandle_def hasPointer_def

text \<open>\<open>get_size\<close> of a handle: the signed offset of the system call as \<open>uint64_t\<close>.\<close>

definition get_size :: "'os boost \<Rightarrow> nat \<Rightarrow> 'os \<Rightarrow> u64" where
  "get_size B obj os = shm_get_size B obj os"

declare get_size_def [simp]

section \<open>Free memory and validation\<close>

definition getFreeMemorySize :: "'os boost \<Rightarrow> 'os \<Rightarrow> u64" where
  "getFreeMemorySize B os =
     (let path = getSharedMemoryPath B os in
      if path \<noteq> ''''
      then (case stat_vfs B path os of
              Some (f_bsize, f_bfree) \<Rightarrow> f_bsize * f_bfree
            | None \<Rightarrow> SIZE_MAX)
      else SIZE_MAX)"

text \<open>
  \<open>Rf_error\<close> jumps out without running destructors, so after a \<open>SIGBUS\<close> the mapping stays.
\<close>

definition validate_shared_memory :: "'os boost \<Rightarrow> string \<Rightarrow> nat \<Rightarrow> ('os, unit) exec" where
  "validate_shared_memory B key h = (\<lambda>os.
     let size = shm_get_size B h os; free_size = getFreeMemorySize B os in
     if free_size < size
     then throwError (''Insufficient memory size(request: '' @ to_string (unat size) @
                      ''B, available: '' @ to_string (unat free_size) @ ''B)'') os
     else (case region_new B h os of
        (Inl what, os1) \<Rightarrow> (Inl (CppError what), os1)
      | (Inr r, os1) \<Rightarrow>
          if signal_ok B os1
          then if sigbus_on_touch B (region_address r) size os1
               then fail (RError (''Testing shared memory failed, key: '' @ key @ '', size: '' @
                       to_string (unat size) @ ''B.'' @ nl @
                       ''This is a fatal error, please consider saving your data '' @
                       ''and restarting R to avoid the possible data loss.'')) os1
               else (case mem_store B (region_address r) (replicate (unat size) 0) os1 of
                       None \<Rightarrow> fail (Undefined ''memset'') os1
                     | Some os2 \<Rightarrow> (Inr (), region_delete B r os2))
          else (Inr (), region_delete B r os1)))"

section \<open>Private methods\<close>

definition freeSharedMemoryHandle :: "'os boost \<Rightarrow> 'os so_state \<Rightarrow> 'os so_state" where
  "freeSharedMemoryHandle B = (\<lambda>(so, os).
     (so\<lparr>sharedMemoryHandle := None\<rparr>,
      case sharedMemoryHandle so of None \<Rightarrow> os | Some h \<Rightarrow> shm_delete B h os))"

definition freeMappedRegionHandle :: "'os boost \<Rightarrow> 'os so_state \<Rightarrow> 'os so_state" where
  "freeMappedRegionHandle B = (\<lambda>(so, os).
     (so\<lparr>mappedRegionHandle := None, shared_ptr := None\<rparr>,
      case mappedRegionHandle so of None \<Rightarrow> os | Some r \<Rightarrow> region_delete B r os))"

definition openSharedMemoryHandle :: "'os boost \<Rightarrow> ('os so_state, unit) exec" where
  "openSharedMemoryHandle B = (\<lambda>(so, os).
     if hasSharedMemoryHandle so
     then throwError ''The shared memory has been opened, this should not happen.'' (so, os)
     else (case shm_open_only B (so_key so) os of
        (Inl what, os1) \<Rightarrow>
          throwError (''An error has occurred in opening shared memory:'' @ nl @ '' '' @ what)
            (freeSharedMemoryHandle B (so, os1))
      | (Inr h, os1) \<Rightarrow>
          (Inr (), so\<lparr>sharedMemoryHandle := Some h, so_size := get_size B h os1\<rparr>, os1)))"

definition SO_getSharedMemorySize :: "'os boost \<Rightarrow> ('os so_state, u64) exec" where
  "SO_getSharedMemorySize B = (\<lambda>(so, os).
     case sharedMemoryHandle so of
       Some h \<Rightarrow> (Inr (get_size B h os), so, os)
     | None \<Rightarrow> (case shm_open_only B (so_key so) os of
          (Inr h, os1) \<Rightarrow> (Inr (get_size B h os1), so, shm_delete B h os1)
        | (Inl what, os1) \<Rightarrow>
            throwError (''Failed to get the size of the shared memory:'' @ nl @ '' '' @ what) (so, os1)))"

section \<open>Static methods\<close>

definition SO_hasSharedMemory :: "'os boost \<Rightarrow> string \<Rightarrow> 'os \<Rightarrow> bool \<times> 'os" where
  "SO_hasSharedMemory B key os =
     (case shm_open_only B key os of
        (Inr h, os1) \<Rightarrow> (True, shm_delete B h os1)
      | (Inl what, os1) \<Rightarrow> (False, os1))"

definition SO_static_freeSharedMemory :: "'os boost \<Rightarrow> string \<Rightarrow> 'os \<Rightarrow> 'os" where
  "SO_static_freeSharedMemory B key os = shm_remove B key os"

section \<open>Public methods\<close>

text \<open>The body of the \<open>try\<close> block of \<open>allocateSharedMemory\<close>.\<close>

definition SO_allocate_try :: "'os boost \<Rightarrow> ('os so_state, unit) exec" where
  "SO_allocate_try B = (\<lambda>(so, os).
     case shm_create_only B (so_key so) os of
       (Inl what, os1) \<Rightarrow> (Inl (CppError what), so, os1)
     | (Inr h, os1) \<Rightarrow>
         (let so1 = so\<lparr>sharedMemoryHandle := Some h\<rparr> in
          case shm_truncate B h (if 0 < so_size so then so_size so else 1) os1 of
            (Inl what, os2) \<Rightarrow> (Inl (CppError what), so1, os2)
          | (Inr _, os2) \<Rightarrow>
              (case validate_shared_memory B (so_key so) h os2 of (r, os3) \<Rightarrow> (r, so1, os3))))"

definition SO_allocate_catch :: "'os boost \<Rightarrow> string \<Rightarrow> ('os so_state, unit) exec" where
  "SO_allocate_catch B what = (\<lambda>(so, os).
     throwError (''An error has occurred in allocating shared memory:'' @ nl @ '' '' @ what)
       (if hasSharedMemoryHandle so
        then freeSharedMemoryHandle B (so, SO_static_freeSharedMemory B (so_key so) os)
        else (so, os)))"

text \<open>\<open>size = get_size(sharedMemoryHandle)\<close>.\<close>

definition SO_refresh_size :: "'os boost \<Rightarrow> ('os so_state, unit) exec" where
  "SO_refresh_size B = (\<lambda>(so, os).
     case sharedMemoryHandle so of
       None \<Rightarrow> fail (Undefined ''null handle'') (so, os)
     | Some h \<Rightarrow> (Inr (), so\<lparr>so_size := get_size B h os\<rparr>, os))"

definition SO_allocateSharedMemory :: "'os boost \<Rightarrow> ('os so_state, unit) exec" where
  "SO_allocateSharedMemory B = (\<lambda>(so, os).
     if hasSharedMemoryHandle so then (Inr (), so, os)
     else andThen (catchCpp (SO_allocate_try B) (SO_allocate_catch B)) (\<lambda>_. SO_refresh_size B) (so, os))"

definition SO_map_try :: "'os boost \<Rightarrow> ('os so_state, ptr) exec" where
  "SO_map_try B =
     andThen (\<lambda>(so, os). if hasSharedMemoryHandle so then (Inr (), so, os)
                          else openSharedMemoryHandle B (so, os))
       (\<lambda>_ (so, os).
          case sharedMemoryHandle so of
            None \<Rightarrow> fail (Undefined ''null handle'') (so, os)
          | Some h \<Rightarrow>
              (case region_new B h os of
                 (Inl what, os1) \<Rightarrow> (Inl (CppError what), so, os1)
               | (Inr r, os1) \<Rightarrow>
                   (Inr (region_address r),
                    so\<lparr>mappedRegionHandle := Some r, shared_ptr := Some (region_address r)\<rparr>, os1)))"

definition SO_mapSharedMemory :: "'os boost \<Rightarrow> ('os so_state, ptr) exec" where
  "SO_mapSharedMemory B = (\<lambda>(so, os).
     case shared_ptr so of
       Some p \<Rightarrow> (Inr p, so, os)
     | None \<Rightarrow>
        (case mappedRegionHandle so of
           Some r \<Rightarrow> (Inr (region_address r), so\<lparr>shared_ptr := Some (region_address r)\<rparr>, os)
         | None \<Rightarrow>
             catchCpp (SO_map_try B)
               (\<lambda>what st. throwError (''An error has occurred in mapping shared memory:'' @ nl @ '' '' @ what)
                           (freeMappedRegionHandle B st)) (so, os)))"

definition SO_unmapSharedMemory :: "'os boost \<Rightarrow> 'os so_state \<Rightarrow> 'os so_state" where
  "SO_unmapSharedMemory B = freeMappedRegionHandle B"

definition SO_freeSharedMemory :: "'os boost \<Rightarrow> 'os so_state \<Rightarrow> 'os so_state" where
  "SO_freeSharedMemory B = (\<lambda>(so, os).
     let (so1, os1) = (if hasMappedRegionHandle so then freeMappedRegionHandle B (so, os) else (so, os));
         (so2, os2) = freeSharedMemoryHandle B (so1, os1)
     in (so2, if ownData so2 then SO_static_freeSharedMemory B (so_key so2) os2 else os2))"

text \<open>The destructor: what is left of the object is the machine it acted on.\<close>

definition SharedObjectClass_delete :: "'os boost \<Rightarrow> 'os so_state \<Rightarrow> 'os" where
  "SharedObjectClass_delete B st = snd (SO_freeSharedMemory B st)"

definition SO_flush :: "'os boost \<Rightarrow> 'os so_state \<Rightarrow> 'os so_state" where
  "SO_flush B = (\<lambda>(so, os).
     (so, case mappedRegionHandle so of None \<Rightarrow> os | Some r \<Rightarrow> region_flush B r os))"

section \<open>Facts that hold for any machine\<close>

text \<open>
  The pointer is the address of the mapping, and a mapped object has a handle. The branch of
  \<open>mapSharedMemory\<close> for a mapping without a pointer is never taken.
\<close>

definition so_inv :: "shared_object \<Rightarrow> bool" where
  "so_inv so \<longleftrightarrow> shared_ptr so = map_option region_address (mappedRegionHandle so) \<and>
     (mappedRegionHandle so \<noteq> None \<longrightarrow> sharedMemoryHandle so \<noteq> None)"

lemma so_inv_new [simp]: "so_inv (SharedObjectClass_new key sz)"
  by (simp add: so_inv_def SharedObjectClass_new_def)

lemma so_new_simps [simp]:
  "sharedMemoryHandle (SharedObjectClass_new key sz) = None"
  "mappedRegionHandle (SharedObjectClass_new key sz) = None"
  "shared_ptr (SharedObjectClass_new key sz) = None"
  "so_key (SharedObjectClass_new key sz) = key"
  "so_size (SharedObjectClass_new key sz) = sz"
  "ownData (SharedObjectClass_new key sz) = False"
  by (simp_all add: SharedObjectClass_new_def)

text \<open>What a failed call leaves of the object.\<close>

lemma SO_allocate_try_handle:
  "SO_allocate_try B (so, os) = (r, so', os') \<Longrightarrow>
   so' = so \<or> (\<exists>h. so' = so\<lparr>sharedMemoryHandle := Some h\<rparr>)"
  by (auto simp: SO_allocate_try_def Let_def split: prod.splits sum.splits)

lemma SO_allocate_run:
  assumes "sharedMemoryHandle so = None" and "SO_allocate_try B (so, os) = (r, so1, os1)"
  shows "SO_allocateSharedMemory B (so, os) =
    (case r of Inr _ \<Rightarrow> SO_refresh_size B (so1, os1)
     | Inl e \<Rightarrow> (case e of CppError what \<Rightarrow> SO_allocate_catch B what (so1, os1) | _ \<Rightarrow> (Inl e, so1, os1)))"
  using assms
  by (simp add: SO_allocateSharedMemory_def hasSharedMemoryHandle_def andThen_def catchCpp_def SO_allocate_catch_def
      throwError_run split: sum.split so_error.split)

lemma SO_allocate_catch_run:
  "SO_allocate_catch B what (so, os) =
    (Inl (CppError (take (BUFFER_SIZE - 1) (''An error has occurred in allocating shared memory:'' @ nl @ '' '' @ what))),
     case sharedMemoryHandle so of None \<Rightarrow> (so, os)
     | Some h \<Rightarrow> (so\<lparr>sharedMemoryHandle := None\<rparr>, shm_delete B h (shm_remove B (so_key so) os)))"
  by (simp add: SO_allocate_catch_def throwError_run hasSharedMemoryHandle_def freeSharedMemoryHandle_def
      SO_static_freeSharedMemory_def split: option.split)

lemma SO_allocate_has: "sharedMemoryHandle so \<noteq> None \<Longrightarrow> SO_allocateSharedMemory B (so, os) = (Inr (), so, os)"
  by (simp add: SO_allocateSharedMemory_def hasSharedMemoryHandle_def)

lemma handle_restored: "sharedMemoryHandle so = None \<Longrightarrow> so\<lparr>sharedMemoryHandle := None\<rparr> = so"
  by (cases so) simp

lemma SO_allocate_err:
  assumes "SO_allocateSharedMemory B (so, os) = (Inl e, so', os')"
  shows "so' = so \<or> (\<exists>h. so' = so\<lparr>sharedMemoryHandle := Some h\<rparr> \<and> (\<forall>what. e \<noteq> CppError what))"
proof -
  have none: "sharedMemoryHandle so = None"
    using assms by (cases "sharedMemoryHandle so") (simp_all add: SO_allocate_has)
  obtain r so1 os1 where t: "SO_allocate_try B (so, os) = (r, so1, os1)"
    by (metis prod_cases3)
  from SO_allocate_try_handle [OF t] have "so1 = so \<or> (\<exists>h. so1 = so\<lparr>sharedMemoryHandle := Some h\<rparr>)" .
  then show ?thesis
    using assms none unfolding SO_allocate_run [OF none t]
    by (auto simp: SO_allocate_catch_run SO_refresh_size_def exec_simps handle_restored
        split: sum.splits so_error.splits option.splits)
qed

lemma SO_allocate_Inr:
  assumes "SO_allocateSharedMemory B (so, os) = (Inr u, so', os')"
  shows "(sharedMemoryHandle so \<noteq> None \<and> so' = so \<and> os' = os) \<or>
    (\<exists>h. sharedMemoryHandle so = None \<and> so' = so\<lparr>sharedMemoryHandle := Some h, so_size := shm_get_size B h os'\<rparr> \<and>
         SO_allocate_try B (so, os) = (Inr (), so\<lparr>sharedMemoryHandle := Some h\<rparr>, os'))"
proof (cases "sharedMemoryHandle so")
  case None
  obtain r so1 os1 where t: "SO_allocate_try B (so, os) = (r, so1, os1)"
    by (metis prod_cases3)
  obtain u where r: "r = Inr u" and ref: "SO_refresh_size B (so1, os1) = (Inr (), so', os')"
    using assms None unfolding SO_allocate_run [OF None t]
    by (auto simp: SO_allocate_catch_run split: sum.splits so_error.splits)
  from ref None obtain h where "so1 = so\<lparr>sharedMemoryHandle := Some h\<rparr>"
    using SO_allocate_try_handle [OF t] by (auto simp: SO_refresh_size_def exec_simps)
  then show ?thesis
    using None t r ref by (auto simp: SO_refresh_size_def)
next
  case (Some h)
  then show ?thesis
    using assms by (simp add: SO_allocate_has)
qed

lemma SO_map_Inr:
  assumes "SO_mapSharedMemory B (so, os) = (Inr p, so', os')" and "so_inv so"
  shows "so_inv so' \<and> shared_ptr so' = Some p \<and> mappedRegionHandle so' \<noteq> None \<and>
    so_key so' = so_key so \<and> ownData so' = ownData so \<and>
    (shared_ptr so \<noteq> None \<longrightarrow> so' = so \<and> os' = os)"
  using assms
  by (auto simp: SO_mapSharedMemory_def SO_map_try_def openSharedMemoryHandle_def so_inv_def so_has_defs
      freeSharedMemoryHandle_def freeMappedRegionHandle_def exec_simps
      split: prod.splits sum.splits so_error.splits option.splits if_splits)

lemma SO_map_Inl:
  assumes "SO_mapSharedMemory B (so, os) = (Inl e, so', os')" and "so_inv so"
  shows "so_inv so' \<and> shared_ptr so = None \<and> shared_ptr so' = None \<and> mappedRegionHandle so' = None \<and>
    so_key so' = so_key so \<and> ownData so' = ownData so \<and> (\<exists>what. e = CppError what)"
  using assms
  by (auto simp: SO_mapSharedMemory_def SO_map_try_def openSharedMemoryHandle_def so_inv_def so_has_defs
      freeSharedMemoryHandle_def freeMappedRegionHandle_def exec_simps
      split: prod.splits sum.splits so_error.splits option.splits if_splits)

lemma SO_free_object:
  "fst (SO_freeSharedMemory B (so, os)) =
     so\<lparr>sharedMemoryHandle := None, mappedRegionHandle := None,
        shared_ptr := (if mappedRegionHandle so = None then shared_ptr so else None)\<rparr>"
  by (simp add: SO_freeSharedMemory_def freeMappedRegionHandle_def freeSharedMemoryHandle_def so_has_defs
      split: prod.split)

section \<open>What the calls do to the shared memory\<close>

context shm_os
begin

lemma SO_has_view: "view (snd (SO_hasSharedMemory B key os)) = view os"
  by (auto simp: SO_hasSharedMemory_def delete_handle view_undo dest!: open_ok open_err
      split: prod.splits sum.splits)

lemma SO_has_True: "fst (SO_hasSharedMemory B key os) \<Longrightarrow> vnames (view os) key \<noteq> None"
  by (auto simp: SO_hasSharedMemory_def dest!: open_ok split: prod.splits sum.splits)

lemma validate_Inr:
  assumes "validate_shared_memory B key h os = (Inr u, os')" and "vhandles (view os) h = Some j"
    and "length (vobjs (view os) j) < max_object"
  shows "\<exists>bs. length bs = length (vobjs (view os) j) \<and>
    ((\<forall>os. signal_ok B os) \<longrightarrow> bs = replicate (length bs) 0) \<and>
    view os' = (view os)\<lparr>vobjs := (vobjs (view os))(j := bs)\<rparr>"
proof -
  let ?n = "length (vobjs (view os) j)"
  have size: "unat (shm_get_size B h os) = ?n"
    using assms(2,3) by (simp add: get_size max_object_def unat_of_nat take_bit_eq_mod)
  obtain r os1 where map: "region_new B h os = (Inr r, os1)"
    using assms(1) by (auto simp: validate_shared_memory_def Let_def exec_simps split: prod.splits sum.splits if_splits)
  then have v1: "view os1 = (view os)\<lparr>vregions := (vregions (view os))(r \<mapsto> j)\<rparr>"
    and fresh: "vregions (view os) r = None"
    using region_ok assms(2) by fastforce+
  show ?thesis
  proof (cases "signal_ok B os1")
    case True
    then obtain os2 where st: "mem_store B (Ptr r 0) (replicate ?n 0) os1 = Some os2" and os': "os' = region_delete B r os2"
      using assms(1) map size
      by (auto simp: validate_shared_memory_def Let_def exec_simps region_address_def
          split: prod.splits sum.splits if_splits option.splits)
    have "view os' = (view os)\<lparr>vobjs := (vobjs (view os))(j := replicate ?n 0)\<rparr>"
      using store_Some [OF st] v1 fresh by (auto simp: os' delete_region blit_0_all intro!: shm_view.equality)
    then show ?thesis
      by (intro exI [of _ "replicate ?n 0"]) simp
  next
    case False
    then have "os' = region_delete B r os1"
      using assms(1) map
      by (auto simp: validate_shared_memory_def Let_def exec_simps split: if_splits)
    then have "view os' = view os"
      using v1 fresh by (simp add: delete_region view_undo)
    then show ?thesis
      using False by (intro exI [of _ "vobjs (view os) j"]) auto
  qed
qed

lemma validate_Cpp:
  assumes "validate_shared_memory B key h os = (Inl (CppError what), os')"
  shows "view os' = view os"
  using assms
  by (auto simp: validate_shared_memory_def Let_def exec_simps dest: region_err
      split: prod.splits sum.splits if_splits option.splits)

lemma SO_allocate_try_Inr:
  assumes "SO_allocate_try B (so, os) = (Inr u, so', os')"
  shows "\<exists>h j bs. vnames (view os) (so_key so) = None \<and> vhandles (view os) h = None \<and>
    unreferenced j (view os) \<and> unat (so_size so) \<le> length bs \<and> 0 < length bs \<and> length bs < max_object \<and>
    ((\<forall>os. signal_ok B os) \<longrightarrow> bs = replicate (length bs) 0) \<and>
    so' = so\<lparr>sharedMemoryHandle := Some h\<rparr> \<and>
    view os' = (view os)\<lparr>vnames := (vnames (view os))(so_key so \<mapsto> j), vobjs := (vobjs (view os))(j := bs),
      vhandles := (vhandles (view os))(h \<mapsto> j)\<rparr>"
proof -
  let ?sz = "if 0 < so_size so then so_size so else 1"
  obtain h os1 os2 where c: "shm_create_only B (so_key so) os = (Inr h, os1)"
    and t: "shm_truncate B h ?sz os1 = (Inr (), os2)"
    and val: "validate_shared_memory B (so_key so) h os2 = (Inr (), os')"
    and so': "so' = so\<lparr>sharedMemoryHandle := Some h\<rparr>"
    using assms by (auto simp: SO_allocate_try_def Let_def split: prod.splits sum.splits)
  obtain j where j: "unreferenced j (view os)" and k: "vnames (view os) (so_key so) = None"
    and h: "vhandles (view os) h = None"
    and v1: "view os1 = (view os)\<lparr>vnames := (vnames (view os))(so_key so \<mapsto> j),
      vobjs := (vobjs (view os))(j := []), vhandles := (vhandles (view os))(h \<mapsto> j)\<rparr>"
    using create_ok [OF c] by blast
  obtain bs0 where bs0: "unat ?sz \<le> length bs0" "length bs0 < max_object"
    and v2: "view os2 = (view os1)\<lparr>vobjs := (vobjs (view os1))(j := bs0)\<rparr>"
    using truncate_ok [OF t] by (auto simp: v1)
  have "vhandles (view os2) h = Some j" "vobjs (view os2) j = bs0"
    by (simp_all add: v1 v2)
  from validate_Inr [OF val this(1)] this(2) bs0 obtain bs where "length bs = length bs0"
    "(\<forall>os. signal_ok B os) \<longrightarrow> bs = replicate (length bs) 0"
    "view os' = (view os2)\<lparr>vobjs := (vobjs (view os2))(j := bs)\<rparr>"
    by metis
  moreover have "unat (so_size so) \<le> unat ?sz" "0 < unat ?sz"
    by (cases "so_size so = 0"; simp add: word_neq_0_conv unat_gt_0)+
  ultimately show ?thesis
    using j k h so' bs0
    by (intro exI [of _ h] exI [of _ j] exI [of _ bs]) (auto simp: v1 v2)
qed

lemma SO_allocate_fresh:
  assumes "SO_allocateSharedMemory B (so, os) = (Inr u, so', os')" and "sharedMemoryHandle so = None"
  shows "\<exists>h j bs. vnames (view os) (so_key so) = None \<and> vhandles (view os) h = None \<and>
    unreferenced j (view os) \<and> unat (so_size so) \<le> length bs \<and> 0 < length bs \<and> length bs < max_object \<and>
    ((\<forall>os. signal_ok B os) \<longrightarrow> bs = replicate (length bs) 0) \<and>
    so' = so\<lparr>sharedMemoryHandle := Some h, so_size := of_nat (length bs)\<rparr> \<and>
    view os' = (view os)\<lparr>vnames := (vnames (view os))(so_key so \<mapsto> j), vobjs := (vobjs (view os))(j := bs),
      vhandles := (vhandles (view os))(h \<mapsto> j)\<rparr>"
proof -
  obtain h where so': "so' = so\<lparr>sharedMemoryHandle := Some h, so_size := shm_get_size B h os'\<rparr>"
    and t: "SO_allocate_try B (so, os) = (Inr (), so\<lparr>sharedMemoryHandle := Some h\<rparr>, os')"
    using SO_allocate_Inr [OF assms(1)] assms(2) by auto
  have heq: "h' = h" if "so\<lparr>sharedMemoryHandle := Some h\<rparr> = so\<lparr>sharedMemoryHandle := Some h'\<rparr>" for h'
    using arg_cong [OF that, of sharedMemoryHandle] by simp
  show ?thesis
    using SO_allocate_try_Inr [OF t] heq unfolding so'
    by (fastforce simp: get_size)
qed

text \<open>
  An allocation that throws leaves names, handles and mappings as they were; the only trace can be
  in an object nothing refers to.
\<close>

lemma SO_allocate_Cpp:
  assumes "SO_allocateSharedMemory B (so, os) = (Inl (CppError what), so', os')"
  shows "so' = so \<and> (view os' = view os \<or>
    (\<exists>j bs. unreferenced j (view os) \<and> view os' = (view os)\<lparr>vobjs := (vobjs (view os))(j := bs)\<rparr>))"
proof -
  have none: "sharedMemoryHandle so = None"
    using assms by (cases "sharedMemoryHandle so") (simp_all add: SO_allocate_has)
  have so': "so' = so"
    using SO_allocate_err [OF assms] by auto
  obtain c os1 where c: "shm_create_only B (so_key so) os = (c, os1)"
    by fastforce
  show ?thesis
  proof (cases c)
    case (Inl w)
    then have "SO_allocate_try B (so, os) = (Inl (CppError w), so, os1)"
      using c by (simp add: SO_allocate_try_def)
    then have "os' = os1"
      using assms none by (simp add: SO_allocate_run SO_allocate_catch_run)
    then show ?thesis
      using create_err c Inl so' by simp
  next
    case (Inr h)
    let ?so = "so\<lparr>sharedMemoryHandle := Some h\<rparr>"
    obtain r so1 os3 where T1: "SO_allocate_try B (so, os) = (r, so1, os3)"
      by (metis prod_cases3)
    then have "so1 = ?so"
      using c Inr by (auto simp: SO_allocate_try_def Let_def split: prod.splits sum.splits)
    with T1 have T: "SO_allocate_try B (so, os) = (r, ?so, os3)"
      by simp
    then obtain w where r: "r = Inl (CppError w)" and os': "os' = shm_delete B h (shm_remove B (so_key so) os3)"
      using assms none
      by (auto simp: SO_allocate_run SO_allocate_catch_run SO_refresh_size_def split: sum.splits so_error.splits)
    obtain j where j: "unreferenced j (view os)" "vnames (view os) (so_key so) = None" "vhandles (view os) h = None"
      and v1: "view os1 = (view os)\<lparr>vnames := (vnames (view os))(so_key so \<mapsto> j),
        vobjs := (vobjs (view os))(j := []), vhandles := (vhandles (view os))(h \<mapsto> j)\<rparr>"
      using create_ok c Inr by blast
    have "\<exists>bs. view os3 = (view os1)\<lparr>vobjs := (vobjs (view os1))(j := bs)\<rparr>"
    proof (cases "shm_truncate B h (if 0 < so_size so then so_size so else 1) os1")
      case (Pair t os2)
      show ?thesis
      proof (cases t)
        case (Inl w')
        then have "view os3 = view os1"
          using T r c Inr Pair truncate_err by (simp add: SO_allocate_try_def Let_def)
        then show ?thesis
          by (intro exI [of _ "vobjs (view os1) j"]) simp
      next
        case t: (Inr u)
        then have "view os3 = view os2"
          using T r c Inr Pair by (auto simp: SO_allocate_try_def Let_def validate_Cpp split: prod.splits)
        then show ?thesis
          using truncate_ok [of h _ os1 u os2] Pair t v1 by auto
      qed
    qed
    then obtain bs where "view os3 = (view os1)\<lparr>vobjs := (vobjs (view os1))(j := bs)\<rparr>"
      by blast
    then have "view os' = (view os)\<lparr>vobjs := (vobjs (view os))(j := bs)\<rparr>"
      using j v1 by (auto simp: os' remove_name delete_handle intro!: shm_view.equality)
    then show ?thesis
      using so' j by blast
  qed
qed

lemma SO_open_Inr:
  assumes "openSharedMemoryHandle B (so, os) = (Inr u, so', os')"
  shows "\<exists>h j. sharedMemoryHandle so = None \<and> vnames (view os) (so_key so) = Some j \<and> vhandles (view os) h = None \<and>
    so' = so\<lparr>sharedMemoryHandle := Some h, so_size := shm_get_size B h os'\<rparr> \<and>
    view os' = (view os)\<lparr>vhandles := (vhandles (view os))(h \<mapsto> j)\<rparr>"
proof -
  obtain h where "sharedMemoryHandle so = None" "shm_open_only B (so_key so) os = (Inr h, os')"
    "so' = so\<lparr>sharedMemoryHandle := Some h, so_size := shm_get_size B h os'\<rparr>"
    using assms
    by (auto simp: openSharedMemoryHandle_def hasSharedMemoryHandle_def exec_simps
        split: prod.splits sum.splits if_splits)
  then show ?thesis
    using open_ok by blast
qed

lemma SO_map_open:
  assumes "SO_mapSharedMemory B (so, os) = (Inr p, so', os')" and "so_inv so"
    and "sharedMemoryHandle so = Some h"  "mappedRegionHandle so = None"
  shows "\<exists>j r. vhandles (view os) h = Some j \<and> vregions (view os) r = None \<and> p = region_address r \<and>
    so' = so\<lparr>mappedRegionHandle := Some r, shared_ptr := Some p\<rparr> \<and>
    view os' = (view os)\<lparr>vregions := (vregions (view os))(r \<mapsto> j)\<rparr>"
proof -
  have none: "shared_ptr so = None"
    using assms(2,4) by (simp add: so_inv_def)
  obtain r where "region_new B h os = (Inr r, os')" and "p = region_address r"
    and "so' = so\<lparr>mappedRegionHandle := Some r, shared_ptr := Some p\<rparr>"
    using assms(1,3,4) none
    by (auto simp: SO_mapSharedMemory_def SO_map_try_def so_has_defs exec_simps
        split: prod.splits sum.splits)
  then show ?thesis
    using region_ok by blast
qed

lemma SO_map_closed:
  assumes "SO_mapSharedMemory B (so, os) = (Inr p, so', os')" and "so_inv so"
    and "sharedMemoryHandle so = None"
  shows "\<exists>h j r sz. vnames (view os) (so_key so) = Some j \<and> vhandles (view os) h = None \<and> vregions (view os) r = None \<and>
    p = region_address r \<and> (length (vobjs (view os) j) < max_object \<longrightarrow> sz = of_nat (length (vobjs (view os) j))) \<and>
    so' = so\<lparr>sharedMemoryHandle := Some h, mappedRegionHandle := Some r, shared_ptr := Some p, so_size := sz\<rparr> \<and>
    view os' = (view os)\<lparr>vhandles := (vhandles (view os))(h \<mapsto> j), vregions := (vregions (view os))(r \<mapsto> j)\<rparr>"
proof -
  have none: "shared_ptr so = None" "mappedRegionHandle so = None"
    using assms(2,3) by (auto simp: so_inv_def)
  have run: "catchCpp (SO_map_try B)
      (\<lambda>what st. throwError (''An error has occurred in mapping shared memory:'' @ nl @ '' '' @ what)
        (freeMappedRegionHandle B st)) (so, os) = (Inr p, so', os')"
    using assms(1) none by (simp add: SO_mapSharedMemory_def)
  then have "SO_map_try B (so, os) = (Inr p, so', os')"
    by (auto simp: exec_simps split: prod.splits sum.splits so_error.splits)
  then obtain so1 os1 where o: "openSharedMemoryHandle B (so, os) = (Inr (), so1, os1)"
    and m: "(case sharedMemoryHandle so1 of None \<Rightarrow> fail (Undefined ''null handle'') (so1, os1)
      | Some h \<Rightarrow> (case region_new B h os1 of (Inl what, os1) \<Rightarrow> (Inl (CppError what), so1, os1)
        | (Inr r, os1) \<Rightarrow> (Inr (region_address r),
            so1\<lparr>mappedRegionHandle := Some r, shared_ptr := Some (region_address r)\<rparr>, os1)))
      = (Inr p, so', os')"
    using assms(3)
    by (auto simp: SO_map_try_def so_has_defs elim!: andThen_InrE)
  obtain h j where hj: "vnames (view os) (so_key so) = Some j" "vhandles (view os) h = None"
    and so1: "so1 = so\<lparr>sharedMemoryHandle := Some h, so_size := shm_get_size B h os1\<rparr>"
    and v1: "view os1 = (view os)\<lparr>vhandles := (vhandles (view os))(h \<mapsto> j)\<rparr>"
    using SO_open_Inr [OF o] by blast
  obtain r where r: "region_new B h os1 = (Inr r, os')" and p: "p = region_address r"
    and so': "so' = so1\<lparr>mappedRegionHandle := Some r, shared_ptr := Some p\<rparr>"
    using m so1 by (auto split: prod.splits sum.splits)
  have "vregions (view os) r = None"
    "view os' = (view os)\<lparr>vhandles := (vhandles (view os))(h \<mapsto> j), vregions := (vregions (view os))(r \<mapsto> j)\<rparr>"
    using region_ok [OF r] by (auto simp: v1)
  moreover have "length (vobjs (view os) j) < max_object \<longrightarrow> shm_get_size B h os1 = of_nat (length (vobjs (view os) j))"
    using get_size [of os1 h j] by (simp add: v1)
  ultimately show ?thesis
    using hj p
    by (intro exI [of _ h] exI [of _ j] exI [of _ r] exI [of _ "shm_get_size B h os1"]) (simp add: so' so1)
qed

text \<open>The destructor closes what the object holds and unlinks the name if the object owns the data.\<close>

lemma SO_delete_view:
  "view (SharedObjectClass_delete B (so, os)) = (view os)\<lparr>
     vnames := (if ownData so then (vnames (view os))(so_key so := None) else vnames (view os)),
     vhandles := (case sharedMemoryHandle so of None \<Rightarrow> vhandles (view os) | Some h \<Rightarrow> (vhandles (view os))(h := None)),
     vregions := (case mappedRegionHandle so of None \<Rightarrow> vregions (view os) | Some r \<Rightarrow> (vregions (view os))(r := None))\<rparr>"
  by (auto simp: SharedObjectClass_delete_def SO_freeSharedMemory_def freeMappedRegionHandle_def freeSharedMemoryHandle_def
      SO_static_freeSharedMemory_def so_has_defs delete_handle delete_region remove_name
      intro!: shm_view.equality split: option.split prod.split)

lemma SO_unmap_view:
  "view (snd (SO_unmapSharedMemory B (so, os))) = (view os)\<lparr>
     vregions := (case mappedRegionHandle so of None \<Rightarrow> vregions (view os) | Some r \<Rightarrow> (vregions (view os))(r := None))\<rparr>"
  by (auto simp: SO_unmapSharedMemory_def freeMappedRegionHandle_def delete_region
      intro!: shm_view.equality split: option.split)

end

context shm_os_live
begin

lemma SO_has_iff: "fst (SO_hasSharedMemory B key os) \<longleftrightarrow> vnames (view os) key \<noteq> None"
proof
  assume "vnames (view os) key \<noteq> None"
  then obtain h os' where "shm_open_only B key os = (Inr h, os')"
    using open_live by blast
  then show "fst (SO_hasSharedMemory B key os)"
    by (simp add: SO_hasSharedMemory_def)
qed (rule SO_has_True)

end

end
