(* ===== verification/MappingStore.thy ===== *)
theory MappingStore
  imports BoostShm
begin

text \<open>
  The contract between the registry of shared memory and its clients: a client acquires the
  address of a segment and later releases it; the provider counts, keeps the address valid while
  the count is positive and withdraws it when the count reaches zero. The clients are R's external
  pointers, whose finalizers release.
\<close>

locale mapping_store =
  fixes acquire :: "string \<Rightarrow> ('w, ptr) exec"
    and release :: "string \<Rightarrow> 'w \<Rightarrow> 'w"
    and addr :: "'w \<Rightarrow> string \<Rightarrow> ptr option"
    and refs :: "'w \<Rightarrow> string \<Rightarrow> int"
    and inv :: "'w \<Rightarrow> bool"
  assumes refs_nonneg: "inv w \<Longrightarrow> 0 \<le> refs w k"
    and addr_iff: "inv w \<Longrightarrow> addr w k \<noteq> None \<longleftrightarrow> 0 < refs w k"
    and acquire_ok: "inv w \<Longrightarrow> acquire k w = (Inr p, w') \<Longrightarrow>
      inv w' \<and> addr w' = (addr w)(k \<mapsto> p) \<and> refs w' = (refs w)(k := refs w k + 1) \<and>
      (addr w k \<noteq> None \<longrightarrow> addr w k = Some p)"
    and acquire_err: "inv w \<Longrightarrow> acquire k w = (Inl e, w') \<Longrightarrow>
      inv w' \<and> addr w' = addr w \<and> refs w' = refs w \<and> addr w k = None"
    and release_ok: "inv w \<Longrightarrow> 0 < refs w k \<Longrightarrow>
      inv (release k w) \<and> refs (release k w) = (refs w)(k := refs w k - 1) \<and>
      addr (release k w) = (if refs w k = 1 then (addr w)(k := None) else addr w)"
begin

text \<open>\<open>pins\<close> lists the addresses the clients hold, each with the key it was acquired under.\<close>

definition pinned :: "'w \<Rightarrow> (ptr \<times> string) list \<Rightarrow> bool" where
  "pinned w pins \<longleftrightarrow> inv w \<and> (\<forall>k. refs w k = int (count_list (map snd pins) k)) \<and>
     (\<forall>(p, k) \<in> set pins. addr w k = Some p)"

lemma pinnedI:
  assumes "inv w" and "\<And>k. refs w k = int (count_list (map snd pins) k)"
    and "\<And>q l. (q, l) \<in> set pins \<Longrightarrow> addr w l = Some q"
  shows "pinned w pins"
  using assms by (auto simp: pinned_def)

lemma pinned_Nil: "inv w \<Longrightarrow> (\<And>k. refs w k = 0) \<Longrightarrow> pinned w []"
  by (simp add: pinned_def)

lemma pin_acquire:
  assumes "pinned w pins" and "acquire k w = (Inr p, w')"
  shows "pinned w' ((p, k) # pins)"
proof -
  have old: "inv w" "\<And>l. refs w l = int (count_list (map snd pins) l)" "\<And>q l. (q, l) \<in> set pins \<Longrightarrow> addr w l = Some q"
    using assms(1) by (auto simp: pinned_def)
  note new = acquire_ok [OF old(1) assms(2)]
  have "addr w' l = Some q" if "(q, l) \<in> set ((p, k) # pins)" for q l
    using that new old(3) [of q l] by (cases "l = k") auto
  then show ?thesis
    using new old(2) by (intro pinnedI) auto
qed

lemma pin_acquire_err:
  assumes "pinned w pins" and "acquire k w = (Inl e, w')"
  shows "pinned w' pins"
  using assms acquire_err [OF _ assms(2)] by (simp add: pinned_def)

lemma pin_count_pos:
  assumes "pinned w pins" and "(p, k) \<in> set pins"
  shows "0 < refs w k"
proof -
  have "k \<in> set (map snd pins)"
    using assms(2) by force
  then have "count_list (map snd pins) k \<noteq> 0"
    by (simp add: count_list_0_iff)
  then show ?thesis
    using assms(1) by (simp add: pinned_def)
qed

lemma count_remove1_snd:
  "(p, k) \<in> set pins \<Longrightarrow>
   int (count_list (map snd (remove1 (p, k) pins)) l) = int (count_list (map snd pins) l) - (if l = k then 1 else 0)"
  by (induction pins) auto

lemma pin_drop:
  assumes "pinned w pins" and "(p, k) \<in> set pins"
  shows "pinned (release k w) (remove1 (p, k) pins)"
proof -
  have pos: "0 < refs w k"
    using assms by (rule pin_count_pos)
  note rel = release_ok [OF _ pos]
  have inv: "inv w"
    using assms(1) by (simp add: pinned_def)
  have refs: "refs (release k w) l = int (count_list (map snd (remove1 (p, k) pins)) l)" for l
    using rel [OF inv] assms by (simp add: pinned_def count_remove1_snd)
  have "addr (release k w) l = Some q" if "(q, l) \<in> set (remove1 (p, k) pins)" for q l
  proof -
    have old: "addr w l = Some q"
      using assms(1) that notin_set_remove1 by (fastforce simp: pinned_def)
    have "l \<in> set (map snd (remove1 (p, k) pins))"
      using that by force
    then have "count_list (map snd (remove1 (p, k) pins)) l \<noteq> 0"
      by (simp add: count_list_0_iff)
    then have "0 < refs (release k w) l"
      by (simp add: refs)
    then show ?thesis
      using rel [OF inv] old by (auto split: if_splits)
  qed
  then show ?thesis
    using rel [OF inv] refs by (intro pinnedI) auto
qed

lemma pin_addr: "pinned w pins \<Longrightarrow> (p, k) \<in> set pins \<Longrightarrow> addr w k = Some p"
  by (auto simp: pinned_def)

lemma pin_none:
  assumes "pinned w pins" and "k \<notin> snd ` set pins"
  shows "addr w k = None"
proof -
  have "k \<notin> set (map snd pins)"
    using assms(2) by simp
  then have "count_list (map snd pins) k = 0"
    by (simp add: count_list_0_iff)
  then have "\<not> 0 < refs w k"
    using assms(1) by (simp add: pinned_def)
  then show ?thesis
    using addr_iff [of w k] assms(1) by (cases "addr w k") (simp_all add: pinned_def)
qed

lemma pin_count: "pinned w pins \<Longrightarrow> refs w k = int (count_list (map snd pins) k)"
  by (simp add: pinned_def)

lemma pinned_inv: "pinned w pins \<Longrightarrow> inv w"
  by (simp add: pinned_def)

end

end
