(* ===== verification/SharedMemory.thy ===== *)
theory SharedMemory
  imports SharedObjectClass MappingStore "HOL-Library.List_Lexorder" "HOL-Library.Char_ord"
begin

text \<open>
  The registry of \<open>src/sharedMemory.cpp\<close>: the segments a process knows
  (\<open>sharedObjectList\<close>), how often each is mapped (\<open>mapCounter\<close>), and the functions over them up to
  the automatic ids, which are in \<open>PkgData\<close>. Invariants of the registry, the contract of
  reference-counted mappings it fulfils, and what each function does to the machine.
\<close>

section \<open>The state of a process\<close>

text \<open>
  \<open>machine\<close> is the state of the library below, shared by all processes; the rest are the static
  variables of the file and the warnings given to R. \<open>lastId\<close> is the pointer to the shared counter.
\<close>

record 'os world =
  machine :: 'os
  sharedObjectList :: "string \<Rightarrow> shared_object option"
  mapCounter :: "string \<Rightarrow> int option"
  lastId :: "ptr option"
  warnings :: "string list"

definition world_init :: "'os \<Rightarrow> 'os world" where
  "world_init m = \<lparr>machine = m, sharedObjectList = Map.empty, mapCounter = Map.empty, lastId = None, warnings = []\<rparr>"

definition keyInMap :: "('k \<Rightarrow> 'v option) \<Rightarrow> 'k \<Rightarrow> bool" where
  "keyInMap m k \<longleftrightarrow> m k \<noteq> None"

text \<open>\<open>mapCounter[key]\<close>: the map's default for a new key is 0.\<close>

definition counter_at :: "('os, 'z) world_scheme \<Rightarrow> string \<Rightarrow> int" where
  "counter_at w key = (case mapCounter w key of None \<Rightarrow> 0 | Some n \<Rightarrow> n)"

text \<open>\<open>sharedObjectList.at(key)->method()\<close>; \<open>std::map::at\<close> throws when there is no such key.\<close>

definition on_object ::
  "string \<Rightarrow> ('os so_state, 'a) exec \<Rightarrow> (('os, 'z) world_scheme, 'a) exec" where
  "on_object key method = (\<lambda>w.
     case sharedObjectList w key of
       None \<Rightarrow> fail (CppError ''map::at'') w
     | Some so \<Rightarrow>
         (case method (so, machine w) of
            (r, so', m') \<Rightarrow> (r, w\<lparr>machine := m', sharedObjectList := (sharedObjectList w)(key \<mapsto> so')\<rparr>)))"

text \<open>\<open>sharedObjectList.erase(key)\<close> runs the destructor of the object.\<close>

definition erase_object :: "'os boost \<Rightarrow> string \<Rightarrow> ('os, 'z) world_scheme \<Rightarrow> ('os, 'z) world_scheme" where
  "erase_object B key w =
     (case sharedObjectList w key of
        None \<Rightarrow> w
      | Some so \<Rightarrow> w\<lparr>machine := SharedObjectClass_delete B (so, machine w),
                     sharedObjectList := (sharedObjectList w)(key := None)\<rparr>)"

definition emplace_object :: "string \<Rightarrow> shared_object \<Rightarrow> ('os, 'z) world_scheme \<Rightarrow> ('os, 'z) world_scheme" where
  "emplace_object key so w = w\<lparr>sharedObjectList := (sharedObjectList w)(key \<mapsto> so)\<rparr>"

section \<open>Keys\<close>

definition OS_SHARED_OBJECT_PKG_SPACE :: string where
  "OS_SHARED_OBJECT_PKG_SPACE = ''SO_'' @ OS_ADDRESS_SIZE"

definition SHARED_OBJECT_COUNTER :: string where
  "SHARED_OBJECT_COUNTER = ''sharedObjectCounter''"

definition getKey :: "string \<Rightarrow> string" where
  "getKey ident = (OS_SHARED_OBJECT_PKG_SPACE @ ''_'') @ ident"

lemma getKey_inject [simp]: "getKey a = getKey b \<longleftrightarrow> a = b"
  by (simp add: getKey_def)

lemma getKey_not_counter [simp]: "getKey a \<noteq> SHARED_OBJECT_COUNTER" "SHARED_OBJECT_COUNTER \<noteq> getKey a"
  by (simp_all add: getKey_def OS_SHARED_OBJECT_PKG_SPACE_def SHARED_OBJECT_COUNTER_def)

section \<open>Functions that take the key as it is\<close>

definition allocateSharedMemoryInternal ::
  "'os boost \<Rightarrow> string \<Rightarrow> u64 \<Rightarrow> (('os, 'z) world_scheme, unit) exec" where
  "allocateSharedMemoryInternal B key size_in_byte =
     andThen
       (\<lambda>w. case sharedObjectList w key of
          None \<Rightarrow> (Inr (), emplace_object key (SharedObjectClass_new key size_in_byte) w)
        | Some so \<Rightarrow>
            if SO_getSize so < size_in_byte
            then throwError (''The shared memory exists and its size is smaller than your request'' @
                   ''(reqeust: '' @ to_string (unat size_in_byte) @ '', actual:'' @
                   to_string (unat (SO_getSize so)) @ '')'') w
            else (Inr (), w))
       (\<lambda>_. on_object key (SO_allocateSharedMemory B))"

definition mapSharedMemoryInternal ::
  "'os boost \<Rightarrow> string \<Rightarrow> (('os, 'z) world_scheme, ptr) exec" where
  "mapSharedMemoryInternal B key =
     andThen
       (\<lambda>w. if \<not> keyInMap (sharedObjectList w) key
            then (let w1 = emplace_object key (SharedObjectClass_new key 0) w
                  in (Inr (), w1\<lparr>mapCounter := (mapCounter w1)(key \<mapsto> 0)\<rparr>))
            else (Inr (), w))
       (\<lambda>_. andThen (on_object key (SO_mapSharedMemory B))
         (\<lambda>ptr w. (Inr ptr, w\<lparr>mapCounter := (mapCounter w)(key \<mapsto> counter_at w key + 1)\<rparr>)))"

definition unmapSharedMemoryInternal ::
  "'os boost \<Rightarrow> string \<Rightarrow> ('os, 'z) world_scheme \<Rightarrow> ('os, 'z) world_scheme" where
  "unmapSharedMemoryInternal B key w =
     (case sharedObjectList w key of
        None \<Rightarrow> w
      | Some so \<Rightarrow>
          (let w1 = w\<lparr>mapCounter := (mapCounter w)(key \<mapsto> counter_at w key - 1)\<rparr> in
           if counter_at w1 key \<le> 0
           then (case SO_unmapSharedMemory B (so, machine w1) of
                   (so', m') \<Rightarrow> erase_object B key
                     (w1\<lparr>machine := m', sharedObjectList := (sharedObjectList w1)(key \<mapsto> so')\<rparr>))
           else w1))"

definition freeSharedMemoryInternal ::
  "'os boost \<Rightarrow> string \<Rightarrow> ('os, 'z) world_scheme \<Rightarrow> ('os, 'z) world_scheme" where
  "freeSharedMemoryInternal B key w =
     (let w1 = (if keyInMap (sharedObjectList w) key
                then (let w0 = erase_object B key w in w0\<lparr>mapCounter := (mapCounter w0)(key := None)\<rparr>)
                else w)
      in w1\<lparr>machine := SO_static_freeSharedMemory B key (machine w1)\<rparr>)"

text \<open>
  The result is a \<open>double\<close>, which is exact for the sizes that come from R, as doubles or as vectors
  (\<open>getObjectSize_double\<close>). The temporary object is destroyed on the way out, with or without an exception.
\<close>

definition getSharedMemorySizeInternal ::
  "'os boost \<Rightarrow> string \<Rightarrow> (('os, 'z) world_scheme, u64) exec" where
  "getSharedMemorySizeInternal B key = (\<lambda>w.
     case sharedObjectList w key of
       Some so \<Rightarrow> (Inr (SO_getSize so), w)
     | None \<Rightarrow>
         (case SO_mapSharedMemory B (SharedObjectClass_new key 0, machine w) of
            (r, so, m) \<Rightarrow>
              (case r of Inl e \<Rightarrow> Inl e | Inr ptr \<Rightarrow> Inr (SO_getSize so),
               w\<lparr>machine := SharedObjectClass_delete B (so, m)\<rparr>)))"

section \<open>Functions that take an id\<close>

definition hasSharedMemory :: "'os boost \<Rightarrow> string \<Rightarrow> (('os, 'z) world_scheme, bool) exec" where
  "hasSharedMemory B ident = (\<lambda>w.
     case SO_hasSharedMemory B (getKey ident) (machine w) of (b, m) \<Rightarrow> (Inr b, w\<lparr>machine := m\<rparr>))"

definition isSharedMemoryMapped :: "string \<Rightarrow> ('os, 'z) world_scheme \<Rightarrow> bool" where
  "isSharedMemoryMapped ident w =
     (case sharedObjectList w (getKey ident) of None \<Rightarrow> False | Some so \<Rightarrow> hasMappedRegionHandle so)"

definition mapSharedMemory :: "'os boost \<Rightarrow> string \<Rightarrow> (('os, 'z) world_scheme, ptr) exec" where
  "mapSharedMemory B ident = mapSharedMemoryInternal B (getKey ident)"

definition unmapSharedMemory :: "'os boost \<Rightarrow> string \<Rightarrow> ('os, 'z) world_scheme \<Rightarrow> ('os, 'z) world_scheme" where
  "unmapSharedMemory B ident = unmapSharedMemoryInternal B (getKey ident)"

definition freeSharedMemory :: "'os boost \<Rightarrow> string \<Rightarrow> ('os, 'z) world_scheme \<Rightarrow> ('os, 'z) world_scheme" where
  "freeSharedMemory B ident = freeSharedMemoryInternal B (getKey ident)"

definition getSharedMemorySize :: "'os boost \<Rightarrow> string \<Rightarrow> (('os, 'z) world_scheme, u64) exec" where
  "getSharedMemorySize B ident = getSharedMemorySizeInternal B (getKey ident)"

text \<open>
  One row per object, in the order of the keys; reading \<open>mapCounter[i.first]\<close> enters a missing key.
\<close>

record object_row =
  row_name :: string
  row_sharedMemoryHandle :: bool
  row_mappedRegionHandle :: bool
  row_sharedMemoryCounter :: int

definition list_object ::
  "string \<Rightarrow> object_row list \<times> ('os, 'z) world_scheme \<Rightarrow> object_row list \<times> ('os, 'z) world_scheme" where
  "list_object key = (\<lambda>(rows, w).
     case sharedObjectList w key of
       None \<Rightarrow> (rows, w)
     | Some so \<Rightarrow>
         (rows @ [\<lparr>row_name = key, row_sharedMemoryHandle = hasSharedMemoryHandle so,
                   row_mappedRegionHandle = hasMappedRegionHandle so,
                   row_sharedMemoryCounter = counter_at w key\<rparr>],
          w\<lparr>mapCounter := (mapCounter w)(key \<mapsto> counter_at w key)\<rparr>))"

definition getSharedObjectList :: "('os, 'z) world_scheme \<Rightarrow> object_row list \<times> ('os, 'z) world_scheme" where
  "getSharedObjectList w = fold list_object (sorted_list_of_set (dom (sharedObjectList w))) ([], w)"

definition not_mapped_message :: "string \<Rightarrow> string" where
  "not_mapped_message key = ''Error in <autoReleaseAfterUse>: '' @
     ''The shared object have not been mapped to the current process(key: '' @ key @ '')''"

definition autoReleaseAfterUse_get :: "string \<Rightarrow> (('os, 'z) world_scheme, bool) exec" where
  "autoReleaseAfterUse_get ident = (\<lambda>w. let key = getKey ident in
     case sharedObjectList w key of
       None \<Rightarrow> throwError (not_mapped_message key) w
     | Some so \<Rightarrow> (Inr (SO_getOwnership so), w))"

definition autoReleaseAfterUse_set :: "string \<Rightarrow> bool \<Rightarrow> (('os, 'z) world_scheme, unit) exec" where
  "autoReleaseAfterUse_set ident releaseAfterUse = (\<lambda>w. let key = getKey ident in
     case sharedObjectList w key of
       None \<Rightarrow> throwError (not_mapped_message key) w
     | Some so \<Rightarrow> (Inr (), emplace_object key (SO_setOwnership releaseAfterUse so) w))"

section \<open>The registry's invariant\<close>

definition mapped_at :: "('os, 'z) world_scheme \<Rightarrow> string \<Rightarrow> ptr option" where
  "mapped_at w key = (case sharedObjectList w key of None \<Rightarrow> None | Some so \<Rightarrow> shared_ptr so)"

definition registry_ok :: "('os, 'z) world_scheme \<Rightarrow> bool" where
  "registry_ok w \<longleftrightarrow> finite (dom (sharedObjectList w)) \<and>
     (\<forall>key so. sharedObjectList w key = Some so \<longrightarrow> so_key so = key \<and> so_inv so)"

text \<open>A segment is mapped exactly when its counter is positive; no counter is negative.\<close>

definition counted :: "('os, 'z) world_scheme \<Rightarrow> bool" where
  "counted w \<longleftrightarrow> registry_ok w \<and>
     (\<forall>key. 0 \<le> counter_at w key \<and> (mapped_at w key \<noteq> None \<longleftrightarrow> 0 < counter_at w key))"

lemma registry_okD:
  "registry_ok w \<Longrightarrow> sharedObjectList w key = Some so \<Longrightarrow> so_key so = key"
  "registry_ok w \<Longrightarrow> sharedObjectList w key = Some so \<Longrightarrow> so_inv so"
  by (auto simp: registry_ok_def)

lemma counted_registry_ok: "counted w \<Longrightarrow> registry_ok w"
  by (simp add: counted_def)

lemma world_init_ok [simp]: "counted (world_init m)" "registry_ok (world_init m)"
  by (simp_all add: counted_def registry_ok_def world_init_def counter_at_def mapped_at_def)

text \<open>The invariant reads three fields only.\<close>

lemma counted_cong:
  assumes "sharedObjectList w' = sharedObjectList w" and "\<And>key. counter_at w' key = counter_at w key"
  shows "counted w' = counted w"
  using assms by (simp add: counted_def registry_ok_def mapped_at_def)

lemma counter_at_simps [simp]:
  "counter_at (w\<lparr>machine := m\<rparr>) = counter_at w"
  "counter_at (w\<lparr>sharedObjectList := l\<rparr>) = counter_at w"
  "counter_at (w\<lparr>lastId := p\<rparr>) = counter_at w"
  "counter_at (w\<lparr>warnings := ws\<rparr>) = counter_at w"
  "counter_at (w\<lparr>mapCounter := (mapCounter w)(key \<mapsto> n)\<rparr>) = (counter_at w)(key := n)"
  "counter_at (w\<lparr>mapCounter := (mapCounter w)(key := None)\<rparr>) = (counter_at w)(key := 0)"
  by (auto simp: counter_at_def)

lemma mapped_at_simps [simp]:
  "mapped_at (w\<lparr>machine := m\<rparr>) = mapped_at w"
  "mapped_at (w\<lparr>mapCounter := c\<rparr>) = mapped_at w"
  "mapped_at (w\<lparr>lastId := p\<rparr>) = mapped_at w"
  "mapped_at (w\<lparr>warnings := ws\<rparr>) = mapped_at w"
  "mapped_at (w\<lparr>sharedObjectList := (sharedObjectList w)(key \<mapsto> so)\<rparr>) = (mapped_at w)(key := shared_ptr so)"
  "mapped_at (w\<lparr>sharedObjectList := (sharedObjectList w)(key := None)\<rparr>) = (mapped_at w)(key := None)"
  by (auto simp: mapped_at_def)

text \<open>\<open>mapSharedMemoryInternal\<close>, run: the object it maps is the known one or a new one.\<close>

definition object_at :: "('os, 'z) world_scheme \<Rightarrow> string \<Rightarrow> shared_object" where
  "object_at w key = (case sharedObjectList w key of None \<Rightarrow> SharedObjectClass_new key 0 | Some so \<Rightarrow> so)"

definition counter_before :: "('os, 'z) world_scheme \<Rightarrow> string \<Rightarrow> int" where
  "counter_before w key = (if keyInMap (sharedObjectList w) key then counter_at w key else 0)"

lemma object_at_ok: "registry_ok w \<Longrightarrow> so_inv (object_at w key) \<and> so_key (object_at w key) = key"
  by (auto simp: object_at_def registry_ok_def split: option.split)

lemma map_internal_Inr:
  assumes "mapSharedMemoryInternal B key w = (Inr p, w')"
  shows "\<exists>so' m'. SO_mapSharedMemory B (object_at w key, machine w) = (Inr p, so', m') \<and>
    w' = w\<lparr>machine := m', sharedObjectList := (sharedObjectList w)(key \<mapsto> so'),
           mapCounter := (mapCounter w)(key \<mapsto> counter_before w key + 1)\<rparr>"
  using assms
  by (auto simp: mapSharedMemoryInternal_def on_object_def emplace_object_def exec_simps Let_def keyInMap_def
      object_at_def counter_before_def counter_at_def fun_upd_idem split: prod.splits sum.splits option.splits if_splits)

lemma map_internal_Inl:
  assumes "mapSharedMemoryInternal B key w = (Inl e, w')"
  shows "\<exists>so' m' c. SO_mapSharedMemory B (object_at w key, machine w) = (Inl e, so', m') \<and>
    w' = w\<lparr>machine := m', sharedObjectList := (sharedObjectList w)(key \<mapsto> so'), mapCounter := c\<rparr> \<and>
    (c = mapCounter w \<and> keyInMap (sharedObjectList w) key \<or>
     c = (mapCounter w)(key \<mapsto> 0) \<and> \<not> keyInMap (sharedObjectList w) key)"
  using assms
  by (auto simp: mapSharedMemoryInternal_def on_object_def emplace_object_def exec_simps Let_def keyInMap_def
      object_at_def fail_def split: prod.splits sum.splits option.splits if_splits)

lemma unmap_internal_run:
  assumes "sharedObjectList w key = Some so"
  shows "unmapSharedMemoryInternal B key w =
    (if counter_at w key - 1 \<le> 0
     then (case SO_unmapSharedMemory B (so, machine w) of (so', m') \<Rightarrow>
       w\<lparr>machine := SharedObjectClass_delete B (so', m'), sharedObjectList := (sharedObjectList w)(key := None),
         mapCounter := (mapCounter w)(key \<mapsto> counter_at w key - 1)\<rparr>)
     else w\<lparr>mapCounter := (mapCounter w)(key \<mapsto> counter_at w key - 1)\<rparr>)"
  using assms by (simp add: unmapSharedMemoryInternal_def erase_object_def Let_def split: prod.split)

lemma unmap_internal_absent: "sharedObjectList w key = None \<Longrightarrow> unmapSharedMemoryInternal B key w = w"
  by (simp add: unmapSharedMemoryInternal_def)

interpretation store: mapping_store "mapSharedMemoryInternal B" "unmapSharedMemoryInternal B" mapped_at counter_at counted
  for B :: "'os boost"
proof (unfold_locales, goal_cases)
  case (1 w k)
  then show ?case by (simp add: counted_def)
next
  case (2 w k)
  then show ?case by (simp add: counted_def)
next
  case (3 w k p w')
  obtain so' m' where map: "SO_mapSharedMemory B (object_at w k, machine w) = (Inr p, so', m')"
    and w': "w' = w\<lparr>machine := m', sharedObjectList := (sharedObjectList w)(k \<mapsto> so'),
      mapCounter := (mapCounter w)(k \<mapsto> counter_before w k + 1)\<rparr>"
    using map_internal_Inr [OF 3(2)] by blast
  note ok = object_at_ok [OF counted_registry_ok [OF 3(1)], of k]
  note so' = SO_map_Inr [OF map conjunct1 [OF ok]]
  have cb: "counter_before w k = counter_at w k"
    using 3(1) by (auto simp: counter_before_def keyInMap_def counted_def mapped_at_def dest!: spec [of _ k])
  have "mapped_at w k = shared_ptr (object_at w k)"
    by (simp add: mapped_at_def object_at_def split: option.split)
  then have old: "mapped_at w k \<noteq> None \<longrightarrow> mapped_at w k = Some p"
    using so' by auto
  have "registry_ok w'"
    using counted_registry_ok [OF 3(1)] so' ok by (auto simp: registry_ok_def w')
  moreover have "counter_at w' = (counter_at w)(k := counter_at w k + 1)" "mapped_at w' = (mapped_at w)(k \<mapsto> p)"
    using so' by (auto simp: w' cb counter_at_def mapped_at_def)
  ultimately show ?case
    using 3(1) old by (auto simp: counted_def)
next
  case (4 w k e w')
  obtain so' m' c where map: "SO_mapSharedMemory B (object_at w k, machine w) = (Inl e, so', m')"
    and w': "w' = w\<lparr>machine := m', sharedObjectList := (sharedObjectList w)(k \<mapsto> so'), mapCounter := c\<rparr>"
    and c: "c = mapCounter w \<and> keyInMap (sharedObjectList w) k \<or>
      c = (mapCounter w)(k \<mapsto> 0) \<and> \<not> keyInMap (sharedObjectList w) k"
    using map_internal_Inl [OF 4(2)] by blast
  note ok = object_at_ok [OF counted_registry_ok [OF 4(1)], of k]
  note so' = SO_map_Inl [OF map conjunct1 [OF ok]]
  have none: "mapped_at w k = None"
    using so' by (auto simp: mapped_at_def object_at_def split: option.splits)
  then have zero: "counter_at w k = 0"
    using 4(1) by (auto simp: counted_def dest!: spec [of _ k])
  have "registry_ok w'"
    using counted_registry_ok [OF 4(1)] so' ok by (auto simp: registry_ok_def w')
  moreover have "counter_at w' = counter_at w" "mapped_at w' = mapped_at w"
    using c zero none so' by (auto simp: w' counter_at_def mapped_at_def fun_eq_iff)
  ultimately show ?case
    using 4(1) none by (auto simp: counted_def)
next
  case (5 w k)
  then obtain so where so: "sharedObjectList w k = Some so"
    by (auto simp: counted_def mapped_at_def split: option.splits dest!: spec [of _ k])
  let ?w = "unmapSharedMemoryInternal B k w"
  have reg: "registry_ok ?w"
    using counted_registry_ok [OF 5(1)] by (auto simp: unmap_internal_run [OF so] registry_ok_def split: prod.split if_splits)
  have cnt: "counter_at ?w = (counter_at w)(k := counter_at w k - 1)"
    by (auto simp: unmap_internal_run [OF so] counter_at_def split: prod.split)
  have adr: "mapped_at ?w = (if counter_at w k = 1 then (mapped_at w)(k := None) else mapped_at w)"
    using 5(2) by (auto simp: unmap_internal_run [OF so] mapped_at_def split: prod.split)
  have "counted ?w"
    using 5 reg by (auto simp: counted_def cnt adr)
  with cnt adr show ?case
    by simp
qed

section \<open>Listing the objects\<close>

definition row_at :: "('os, 'z) world_scheme \<Rightarrow> string \<Rightarrow> object_row" where
  "row_at w key = (let so = object_at w key in
     \<lparr>row_name = key, row_sharedMemoryHandle = hasSharedMemoryHandle so,
      row_mappedRegionHandle = hasMappedRegionHandle so, row_sharedMemoryCounter = counter_at w key\<rparr>)"

definition enter_counters :: "string set \<Rightarrow> ('os, 'z) world_scheme \<Rightarrow> ('os, 'z) world_scheme" where
  "enter_counters keys w = w\<lparr>mapCounter := \<lambda>k. if k \<in> keys then Some (counter_at w k) else mapCounter w k\<rparr>"

lemma enter_counters_fields [simp]:
  "sharedObjectList (enter_counters keys w) = sharedObjectList w" "machine (enter_counters keys w) = machine w"
  "lastId (enter_counters keys w) = lastId w" "warnings (enter_counters keys w) = warnings w"
  by (simp_all add: enter_counters_def)

lemma counter_at_enter [simp]: "counter_at (enter_counters keys w) = counter_at w"
  by (auto simp: enter_counters_def counter_at_def fun_eq_iff)

lemma mapped_at_enter [simp]: "mapped_at (enter_counters keys w) = mapped_at w"
  by (simp add: mapped_at_def fun_eq_iff)

lemma counted_enter [simp]: "counted (enter_counters keys w) = counted w"
  by (rule counted_cong) simp_all

lemma row_at_enter [simp]: "row_at (enter_counters keys w) = row_at w"
  by (simp add: row_at_def object_at_def fun_eq_iff)

lemma enter_counters_insert: "enter_counters keys (enter_counters {key} w) = enter_counters (insert key keys) w"
  using counter_at_enter [of "{key}" w]
  by (auto simp: enter_counters_def [of keys] enter_counters_def [of "insert key keys"] enter_counters_def [of "{key}"]
      counter_at_def fun_eq_iff intro!: world.fold_congs)

lemma list_object_run:
  assumes "key \<in> dom (sharedObjectList w)"
  shows "list_object key (rows, w) = (rows @ [row_at w key], enter_counters {key} w)"
proof -
  have "(mapCounter w)(key \<mapsto> counter_at w key) = (\<lambda>k. if k \<in> {key} then Some (counter_at w k) else mapCounter w k)"
    by (simp add: fun_eq_iff)
  then show ?thesis
    using assms by (auto simp: list_object_def row_at_def object_at_def enter_counters_def Let_def)
qed

lemma list_objects_run:
  assumes "set keys \<subseteq> dom (sharedObjectList w)"
  shows "fold list_object keys (rows, w) = (rows @ map (row_at w) keys, enter_counters (set keys) w)"
  using assms
proof (induction keys arbitrary: rows w)
  case Nil
  then show ?case by (simp add: enter_counters_def)
next
  case (Cons key keys)
  then show ?case
    by (simp add: list_object_run enter_counters_insert)
qed

lemma getSharedObjectList_run:
  "getSharedObjectList w =
     (let keys = sorted_list_of_set (dom (sharedObjectList w)) in (map (row_at w) keys, enter_counters (set keys) w))"
proof (cases "finite (dom (sharedObjectList w))")
  case True
  then show ?thesis
    using list_objects_run [of "sorted_list_of_set (dom (sharedObjectList w))" w "[]"]
    by (simp add: getSharedObjectList_def Let_def)
next
  case False
  then show ?thesis
    by (simp add: getSharedObjectList_def enter_counters_def)
qed

lemma row_at_simps [simp]:
  "row_name (row_at w key) = key" "row_sharedMemoryCounter (row_at w key) = counter_at w key"
  by (simp_all add: row_at_def Let_def)

lemma row_at_mapped:
  assumes "registry_ok w"
  shows "row_mappedRegionHandle (row_at w key) \<longleftrightarrow> mapped_at w key \<noteq> None"
proof (cases "sharedObjectList w key")
  case None
  then show ?thesis
    by (simp add: row_at_def object_at_def mapped_at_def hasMappedRegionHandle_def SharedObjectClass_new_def)
next
  case (Some so)
  then show ?thesis
    using registry_okD(2) [OF assms Some]
    by (simp add: row_at_def object_at_def mapped_at_def hasMappedRegionHandle_def so_inv_def)
qed

end
