(* ===== verification/PkgData.thy ===== *)
theory PkgData
  imports SharedMemory
begin

text \<open>
  The part of \<open>src/sharedMemory.cpp\<close> about automatic ids: the counter in shared memory
  (\<open>lastId\<close>), the search for the next free id, allocation, the process lock \<open>auto_semophore\<close>
  and the set-up and release of the package data. The search loop has fuel \<open>2 ^ 64\<close>, the number
  of values of the counter; \<open>getNextId_spec\<close> shows that it is never used up.
\<close>

section \<open>The counter in shared memory\<close>

definition sizeof_atomic_uint64 :: nat where
  "sizeof_atomic_uint64 = 8"

text \<open>\<open>*lastId\<close>; the pointer is null until \<open>initialPkgData\<close> has run.\<close>

definition read_lastId :: "'os boost \<Rightarrow> (('os, 'z) world_scheme, u64) exec" where
  "read_lastId B = (\<lambda>w.
     case lastId w of
       None \<Rightarrow> fail (Undefined ''null lastId'') w
     | Some p \<Rightarrow> (case mem_load B p sizeof_atomic_uint64 (machine w) of
          None \<Rightarrow> fail (Undefined ''lastId'') w
        | Some bs \<Rightarrow> (Inr (of_nat (from_le bs)), w)))"

definition store_counter :: "'os boost \<Rightarrow> ptr \<Rightarrow> u64 \<Rightarrow> (('os, 'z) world_scheme, unit) exec" where
  "store_counter B p x = (\<lambda>w.
     case mem_store B p (le_bytes sizeof_atomic_uint64 (unat x)) (machine w) of
       None \<Rightarrow> fail (Undefined ''lastId'') w
     | Some m \<Rightarrow> (Inr (), w\<lparr>machine := m\<rparr>))"

text \<open>\<open>++(*lastId)\<close>: the new value, modulo \<open>2 ^ 64\<close>.\<close>

definition increment_lastId :: "'os boost \<Rightarrow> (('os, 'z) world_scheme, u64) exec" where
  "increment_lastId B =
     andThen (read_lastId B) (\<lambda>x w.
       case lastId w of
         None \<Rightarrow> fail (Undefined ''null lastId'') w
       | Some p \<Rightarrow> andThen (store_counter B p (x + 1)) (\<lambda>_. ok (x + 1)) w)"

section \<open>The next id\<close>

definition no_key_message :: string where
  "no_key_message = ''Unable to find an available key for creating a shared memory, all keys are in used.''"

fun getNextId_loop :: "'os boost \<Rightarrow> u64 \<Rightarrow> nat \<Rightarrow> (('os, 'z) world_scheme, string) exec" where
  "getNextId_loop B initialId 0 = fail OutOfFuel"
| "getNextId_loop B initialId (Suc fuel) =
     andThen (increment_lastId B) (\<lambda>ident.
       andThen (hasSharedMemory B (to_string (unat ident))) (\<lambda>has.
         if \<not> has then ok (to_string (unat ident))
         else if ident \<noteq> initialId then getNextId_loop B initialId fuel
         else throwError no_key_message))"

definition getNextId :: "'os boost \<Rightarrow> (('os, 'z) world_scheme, string) exec" where
  "getNextId B = andThen (read_lastId B) (\<lambda>initialId. getNextId_loop B initialId (2 ^ 64))"

definition allocateSharedMemory :: "'os boost \<Rightarrow> u64 \<Rightarrow> string \<Rightarrow> (('os, 'z) world_scheme, string) exec" where
  "allocateSharedMemory B size_in_byte ident =
     andThen (if ident = '''' then getNextId B else ok ident)
       (\<lambda>ident'. andThen (allocateSharedMemoryInternal B (getKey ident') size_in_byte)
          (\<lambda>_. ok ident'))"

section \<open>The process lock\<close>

definition SEMAPHORE_NAME :: string where
  "SEMAPHORE_NAME = ''sharedObjectSemaphore''"

record auto_semophore =
  semaphore :: nat
  locked :: bool

definition auto_semophore_new :: "'os boost \<Rightarrow> (('os, 'z) world_scheme, auto_semophore) exec" where
  "auto_semophore_new B = (\<lambda>w.
     case sem_open_or_create B SEMAPHORE_NAME 1 (machine w) of
       (Inl what, m) \<Rightarrow> (Inl (CppError what), w\<lparr>machine := m\<rparr>)
     | (Inr s, m) \<Rightarrow> (Inr \<lparr>semaphore = s, locked = False\<rparr>, w\<lparr>machine := m\<rparr>))"

text \<open>\<open>locked\<close> is not set here, or anywhere.\<close>

definition auto_semophore_lock ::
  "'os boost \<Rightarrow> auto_semophore \<Rightarrow> (('os, 'z) world_scheme, auto_semophore) exec" where
  "auto_semophore_lock B g = (\<lambda>w.
     case sem_timed_wait B (semaphore g) (machine w) of
       (lock_status, m) \<Rightarrow>
         (Inr g, w\<lparr>machine := m, warnings := warnings w @
            (if \<not> lock_status
             then [''Something is wrong with the process lock, the package will proceed without lock'' @ nl]
             else [])\<rparr>))"

definition auto_semophore_delete ::
  "'os boost \<Rightarrow> auto_semophore \<Rightarrow> ('os, 'z) world_scheme \<Rightarrow> ('os, 'z) world_scheme" where
  "auto_semophore_delete B g w =
     (let m1 = (if locked g then sem_post B (semaphore g) (machine w) else machine w)
      in w\<lparr>machine := sem_remove B SEMAPHORE_NAME (sem_delete B (semaphore g) m1)\<rparr>)"

section \<open>Setting up and releasing the package data\<close>

text \<open>The counter segment: opened if it exists, else allocated and set to 0.\<close>

definition open_counter :: "'os boost \<Rightarrow> (('os, 'z) world_scheme, ptr) exec" where
  "open_counter B =
     andThen (\<lambda>w. case SO_hasSharedMemory B SHARED_OBJECT_COUNTER (machine w) of
                    (b, m) \<Rightarrow> (Inr b, w\<lparr>machine := m\<rparr>))
       (\<lambda>has. if has then mapSharedMemoryInternal B SHARED_OBJECT_COUNTER
              else andThen (allocateSharedMemoryInternal B SHARED_OBJECT_COUNTER (of_nat sizeof_atomic_uint64))
                     (\<lambda>_. andThen (mapSharedMemoryInternal B SHARED_OBJECT_COUNTER)
                        (\<lambda>ptr. andThen (store_counter B ptr 0) (\<lambda>_. ok ptr))))"

definition initialPkgData_try :: "'os boost \<Rightarrow> (('os, 'z) world_scheme, unit) exec" where
  "initialPkgData_try B =
     andThen (auto_semophore_new B) (\<lambda>g w.
       case andThen (auto_semophore_lock B g)
              (\<lambda>_. andThen (open_counter B) (\<lambda>ptr w. (Inr (), w\<lparr>lastId := Some ptr\<rparr>))) w of
         (r, w') \<Rightarrow>
           (r, case r of
                 Inr _ \<Rightarrow> auto_semophore_delete B g w'
               | Inl e \<Rightarrow> (case e of CppError _ \<Rightarrow> auto_semophore_delete B g w' | _ \<Rightarrow> w')))"

definition initialPkgData :: "'os boost \<Rightarrow> (('os, 'z) world_scheme, unit) exec" where
  "initialPkgData B = (\<lambda>w.
     if lastId w = None
     then catchCpp (initialPkgData_try B)
            (\<lambda>what w'. throwError (''An error has occurred in initializing shared memory object: '' @ what @ nl @
               ''You must manually initial the package via <initialSharedObjectPackageData()>'')
               (w'\<lparr>lastId := None\<rparr>)) w
     else (Inr (), w))"

definition getLastIndex :: "'os boost \<Rightarrow> (('os, 'z) world_scheme, u64) exec" where
  "getLastIndex B = andThen (initialPkgData B) (\<lambda>_. read_lastId B)"

definition releasePkgData :: "'os boost \<Rightarrow> ('os, 'z) world_scheme \<Rightarrow> ('os, 'z) world_scheme" where
  "releasePkgData B w = (freeSharedMemoryInternal B SHARED_OBJECT_COUNTER w)\<lparr>lastId := None\<rparr>"

section \<open>The search for an id\<close>

text \<open>The counter has value \<open>x\<close>; a number is in use when the machine has a segment of that id.\<close>

definition counter_is :: "('os \<Rightarrow> shm_view) \<Rightarrow> ('os, 'z) world_scheme \<Rightarrow> u64 \<Rightarrow> bool" where
  "counter_is view w x \<longleftrightarrow> (\<exists>r off j. lastId w = Some (Ptr r off) \<and> vregions (view (machine w)) r = Some j \<and>
     0 \<le> off \<and> nat off + 8 \<le> length (vobjs (view (machine w)) j) \<and>
     from_le (slice (nat off) 8 (vobjs (view (machine w)) j)) = unat x)"

definition id_used :: "('os \<Rightarrow> shm_view) \<Rightarrow> ('os, 'z) world_scheme \<Rightarrow> u64 \<Rightarrow> bool" where
  "id_used view w x \<longleftrightarrow> vnames (view (machine w)) (getKey (to_string (unat x))) \<noteq> None"

text \<open>Two worlds that differ in the machine only, and there only in the counter's bytes.\<close>

definition counter_moved :: "('os \<Rightarrow> shm_view) \<Rightarrow> ('os, 'z) world_scheme \<Rightarrow> ('os, 'z) world_scheme \<Rightarrow> bool" where
  "counter_moved view w w' \<longleftrightarrow> w' = w\<lparr>machine := machine w'\<rparr> \<and>
     vnames (view (machine w')) = vnames (view (machine w)) \<and>
     vhandles (view (machine w')) = vhandles (view (machine w)) \<and>
     vregions (view (machine w')) = vregions (view (machine w)) \<and>
     (\<forall>j. length (vobjs (view (machine w')) j) = length (vobjs (view (machine w)) j)) \<and>
     (\<forall>j. (\<forall>p. lastId w = Some p \<longrightarrow> vregions (view (machine w)) (ptr_block p) \<noteq> Some j) \<longrightarrow>
          vobjs (view (machine w')) j = vobjs (view (machine w)) j)"

lemma counter_moved_refl: "counter_moved view w w"
  by (simp add: counter_moved_def)

lemma counter_moved_machine: "counter_moved view w w' \<Longrightarrow> \<exists>m. w' = w\<lparr>machine := m\<rparr>"
  unfolding counter_moved_def by blast

lemma counter_moved_lastId: "counter_moved view w w' \<Longrightarrow> lastId w' = lastId w"
  using counter_moved_machine by fastforce

lemma counter_moved_trans:
  assumes "counter_moved view w w1" and "counter_moved view w1 w2"
  shows "counter_moved view w w2"
proof -
  obtain m1 where m1: "w1 = w\<lparr>machine := m1\<rparr>"
    using counter_moved_machine [OF assms(1)] by blast
  obtain m2 where m2: "w2 = w1\<lparr>machine := m2\<rparr>"
    using counter_moved_machine [OF assms(2)] by blast
  show ?thesis
    using assms by (simp add: counter_moved_def m1 m2)
qed

lemma id_used_moved: "counter_moved view w w' \<Longrightarrow> id_used view w' = id_used view w"
  by (simp add: counter_moved_def id_used_def fun_eq_iff)

context shm_os
begin

lemma read_lastId_run:
  assumes "counter_is view w x"
  shows "read_lastId B w = (Inr x, w)"
proof -
  obtain r off j where p: "lastId w = Some (Ptr r off)" and j: "vregions (view (machine w)) r = Some j"
    and b: "0 \<le> off" "nat off + 8 \<le> length (vobjs (view (machine w)) j)"
    and v: "from_le (slice (nat off) 8 (vobjs (view (machine w)) j)) = unat x"
    using assms by (auto simp: counter_is_def)
  have "in_bounds (view (machine w)) (Ptr r off) 8"
    using j b by (simp add: in_bounds_Ptr)
  then show ?thesis
    using load_ok [OF j] v by (simp add: read_lastId_def p sizeof_atomic_uint64_def)
qed

lemma store_counter_run:
  assumes "counter_is view w x" and "lastId w = Some p"
  obtains w' where "store_counter B p y w = (Inr (), w')" and "counter_moved view w w'" and "counter_is view w' y"
proof -
  obtain r off j where p: "p = Ptr r off" and j: "vregions (view (machine w)) r = Some j"
    and b: "0 \<le> off" "nat off + 8 \<le> length (vobjs (view (machine w)) j)"
    using assms by (auto simp: counter_is_def)
  let ?bs = "vobjs (view (machine w)) j"
  have "in_bounds (view (machine w)) (Ptr r off) (length (le_bytes 8 (unat y)))"
    using j b by (simp add: in_bounds_Ptr del: le_bytes.simps)
  from store_ok [OF j this] obtain m where
    m: "mem_store B (Ptr r off) (le_bytes 8 (unat y)) (machine w) = Some m"
    and v: "view m = (view (machine w))\<lparr>vobjs := (vobjs (view (machine w)))(j := blit (nat off) (le_bytes 8 (unat y)) ?bs)\<rparr>"
    by blast
  have y: "unat y < 256 ^ 8"
    using unsigned_less [of y] by simp
  have same: "slice (nat off) 8 (blit (nat off) (le_bytes 8 (unat y)) ?bs) = le_bytes 8 (unat y)"
    using slice_blit_same [of "nat off" "le_bytes 8 (unat y)" ?bs] b by (simp del: le_bytes.simps)
  have len: "length (blit (nat off) (le_bytes 8 (unat y)) ?bs) = length ?bs"
    using b by (simp del: le_bytes.simps)
  show thesis
  proof (rule that)
    show "store_counter B p y w = (Inr (), w\<lparr>machine := m\<rparr>)"
      using m by (simp add: store_counter_def p sizeof_atomic_uint64_def)
    show "counter_moved view w (w\<lparr>machine := m\<rparr>)"
      using assms(2) j len by (simp add: counter_moved_def v p)
    show "counter_is view (w\<lparr>machine := m\<rparr>) y"
      using assms(2) j b len same from_le_bytes_id [OF y]
      by (simp add: counter_is_def v p del: le_bytes.simps)
  qed
qed

lemma increment_run:
  assumes "counter_is view w x"
  obtains w' where "increment_lastId B w = (Inr (x + 1), w')" and "counter_moved view w w'" and "counter_is view w' (x + 1)"
proof -
  obtain p where p: "lastId w = Some p"
    using assms by (auto simp: counter_is_def)
  obtain w' where "store_counter B p (x + 1) w = (Inr (), w')" "counter_moved view w w'" "counter_is view w' (x + 1)"
    by (rule store_counter_run [OF assms p])
  then show thesis
    using that p by (simp add: increment_lastId_def read_lastId_run [OF assms] andThen_run ok_run)
qed

end

context shm_os_live
begin

lemma has_run:
  obtains w' where "hasSharedMemory B ident w = (Inr (vnames (view (machine w)) (getKey ident) \<noteq> None), w')"
    and "counter_moved view w w'" and "\<And>x. counter_is view w' x = counter_is view w x"
proof -
  obtain b m where r: "SO_hasSharedMemory B (getKey ident) (machine w) = (b, m)"
    by fastforce
  then have v: "view m = view (machine w)" and b: "b = (vnames (view (machine w)) (getKey ident) \<noteq> None)"
    using SO_has_view [of "getKey ident" "machine w"] SO_has_iff [of "getKey ident" "machine w"] by auto
  show thesis
  proof (rule that)
    show "hasSharedMemory B ident w = (Inr (vnames (view (machine w)) (getKey ident) \<noteq> None), w\<lparr>machine := m\<rparr>)"
      by (simp add: hasSharedMemory_def r b)
    show "counter_moved view w (w\<lparr>machine := m\<rparr>)" "counter_is view (w\<lparr>machine := m\<rparr>) x = counter_is view w x" for x
      by (simp_all add: counter_moved_def counter_is_def v)
  qed
qed

text \<open>
  One search: from \<open>initialId + i\<close> with \<open>fuel\<close> steps left, when all numbers tried so far are in use.
\<close>

lemma getNextId_loop_run:
  assumes "counter_is view w (start + of_nat i)" and "i + fuel = 2 ^ 64" and "0 < fuel"
    and "\<And>l. 0 < l \<Longrightarrow> l \<le> i \<Longrightarrow> id_used view w (start + of_nat l)"
  shows "\<exists>w' k. counter_moved view w w' \<and> counter_is view w' (start + of_nat k) \<and> 0 < k \<and> k \<le> 2 ^ 64 \<and>
    (\<forall>l. 0 < l \<and> l < k \<longrightarrow> id_used view w (start + of_nat l)) \<and>
    getNextId_loop B start fuel w =
      (if id_used view w (start + of_nat k) then Inl (CppError no_key_message)
       else Inr (to_string (unat (start + of_nat k))), w') \<and>
    (id_used view w (start + of_nat k) \<longrightarrow> k = 2 ^ 64)"
  using assms
proof (induction fuel arbitrary: w i)
  case 0
  then show ?case by simp
next
  case (Suc fuel)
  let ?x = "start + of_nat (Suc i)"
  have next_x: "start + of_nat i + 1 = ?x"
    by simp
  obtain w1 where inc: "increment_lastId B w = (Inr ?x, w1)" "counter_moved view w w1" "counter_is view w1 ?x"
    using increment_run [OF Suc.prems(1), unfolded next_x] by metis
  obtain w2 where has: "hasSharedMemory B (to_string (unat ?x)) w1 = (Inr (id_used view w1 ?x), w2)"
    and "counter_moved view w1 w2" and c2: "counter_is view w2 ?x"
    using has_run [of "to_string (unat ?x)" w1] inc(3) unfolding id_used_def by metis
  then have mv: "counter_moved view w w2"
    using counter_moved_trans inc(2) by blast
  have used: "id_used view w1 ?x = id_used view w ?x" "id_used view w2 y = id_used view w y" for y
    using id_used_moved inc(2) mv by fastforce+
  have step: "getNextId_loop B start (Suc fuel) w =
    (if \<not> id_used view w ?x then (Inr (to_string (unat ?x)), w2)
     else if ?x \<noteq> start then getNextId_loop B start fuel w2
     else (Inl (CppError no_key_message), w2))"
    by (simp add: andThen_run inc(1) has used(1) ok_run throwError_run no_key_message_def BUFFER_SIZE_def del: of_nat_Suc)
  have upto: "id_used view w (start + of_nat l)" if "0 < l" "l < Suc i" for l
    using Suc.prems(4) that by simp
  have le: "Suc i \<le> 2 ^ 64"
    using Suc.prems(2) by simp
  show ?case
  proof (cases "id_used view w ?x \<and> ?x \<noteq> start")
    case False
    moreover have "Suc i = 2 ^ 64" if "?x = start"
    proof -
      have "(of_nat (Suc i) :: u64) = 0"
        using that by simp
      then have "2 ^ 64 dvd Suc i"
        by (simp add: word_of_nat_eq_0_iff del: of_nat_Suc)
      then have "2 ^ 64 \<le> Suc i"
        by (rule dvd_imp_le) simp
      with le show ?thesis
        by (rule le_antisym)
    qed
    ultimately show ?thesis
      using mv c2 upto le unfolding step
      by (intro exI [of _ w2] exI [of _ "Suc i"]) auto
  next
    case True
    have "Suc i \<noteq> 2 ^ 64"
    proof
      assume "Suc i = 2 ^ 64"
      then have "(of_nat (Suc i) :: u64) = of_nat (2 ^ 64)"
        by (rule arg_cong)
      then have "?x = start"
        by simp
      then show False
        using True by simp
    qed
    then have "0 < fuel" "Suc i + fuel = 2 ^ 64"
      using Suc.prems(2) by auto
    moreover have "id_used view w2 (start + of_nat l)" if "0 < l" "l \<le> Suc i" for l
      using upto [of l] True that used(2) by (cases "l = Suc i") auto
    ultimately obtain w' k where ih: "counter_moved view w2 w'" "counter_is view w' (start + of_nat k)" "0 < k" "k \<le> 2 ^ 64"
      "\<forall>l. 0 < l \<and> l < k \<longrightarrow> id_used view w2 (start + of_nat l)"
      "getNextId_loop B start fuel w2 =
        (if id_used view w2 (start + of_nat k) then Inl (CppError no_key_message)
         else Inr (to_string (unat (start + of_nat k))), w')"
      "id_used view w2 (start + of_nat k) \<longrightarrow> k = 2 ^ 64"
      using Suc.IH [OF c2] by blast
    then show ?thesis
      using True counter_moved_trans [OF mv] unfolding step used(2) by auto
  qed
qed

lemma getNextId_run:
  assumes "counter_is view w start"
  shows "\<exists>w' k. counter_moved view w w' \<and> counter_is view w' (start + of_nat k) \<and> 0 < k \<and> k \<le> 2 ^ 64 \<and>
    (\<forall>l. 0 < l \<and> l < k \<longrightarrow> id_used view w (start + of_nat l)) \<and>
    getNextId B w =
      (if id_used view w (start + of_nat k) then Inl (CppError no_key_message)
       else Inr (to_string (unat (start + of_nat k))), w') \<and>
    (id_used view w (start + of_nat k) \<longrightarrow> k = 2 ^ 64)"
  using getNextId_loop_run [of w start 0 "2 ^ 64"] assms
  by (simp add: getNextId_def read_lastId_run [OF assms] andThen_run)

end

end
