(* ===== verification/CopyData.thy ===== *)
theory CopyData
  imports Utils
begin

text \<open>
  \<open>copyData\<close> of \<open>src/utils.cpp\<close>: the copy of a vector that has no data pointer. R's macro
  \<open>ITERATE_BY_REGION\<close>, which is not part of the repository, delivers the vector batch by batch; the
  batches are a parameter, a list of element counts and bytes, and \<open>regions_of\<close> states what R
  documents of them: consecutive batches that make up the vector.
\<close>

section \<open>The copy\<close>

text \<open>\<open>memcpy(target + at, bytes, n)\<close> into mapped memory.\<close>

definition memcpy_out :: "'os boost \<Rightarrow> ptr \<Rightarrow> nat \<Rightarrow> byte list \<Rightarrow> ('os, unit) exec" where
  "memcpy_out B target at bytes = (\<lambda>os.
     case mem_store B (ptr_add target (int at)) bytes os of
       None \<Rightarrow> fail (Undefined ''memcpy'') os
     | Some os' \<Rightarrow> (Inr (), os'))"

type_synonym region = "nat \<times> byte list"

text \<open>
  The loop of the macro around one \<open>memcpy\<close>: \<open>place ind nbatch\<close> is the element offset the code
  gives the batch of \<open>nbatch\<close> elements that starts at element \<open>ind\<close>.
\<close>

fun copy_regions :: "'os boost \<Rightarrow> ptr \<Rightarrow> nat \<Rightarrow> (nat \<Rightarrow> nat \<Rightarrow> nat) \<Rightarrow> nat \<Rightarrow> region list \<Rightarrow> ('os, unit) exec" where
  "copy_regions B target esize place ind [] = ok ()"
| "copy_regions B target esize place ind ((nbatch, buffer) # rs) =
     andThen (memcpy_out B target (place ind nbatch * esize) (take (nbatch * esize) buffer))
       (\<lambda>_. copy_regions B target esize place (ind + nbatch) rs)"

definition copyData :: "'os boost \<Rightarrow> ptr \<Rightarrow> int \<Rightarrow> region list \<Rightarrow> ('os, unit) exec" where
  "copyData B target data_type regions =
     (if data_type = RAWSXP then copy_regions B target 1 (\<lambda>ind nbatch. ind * nbatch) 0 regions
      else if data_type = LGLSXP then copy_regions B target 4 (\<lambda>ind nbatch. ind * nbatch) 0 regions
      else if data_type = INTSXP then copy_regions B target 4 (\<lambda>ind nbatch. ind) 0 regions
      else if data_type = REALSXP then copy_regions B target 8 (\<lambda>ind nbatch. ind * nbatch) 0 regions
      else if data_type = CPLXSXP then copy_regions B target 16 (\<lambda>ind nbatch. ind * nbatch) 0 regions
      else ok ())"

section \<open>Batches\<close>

definition regions_of :: "nat \<Rightarrow> byte list \<Rightarrow> region list \<Rightarrow> bool" where
  "regions_of esize bytes regions \<longleftrightarrow>
     concat (map snd regions) = bytes \<and> (\<forall>(n, b) \<in> set regions. 0 < n \<and> length b = n * esize)"

lemma regions_of_Nil [simp]: "regions_of esize bytes [] \<longleftrightarrow> bytes = []"
  by (auto simp: regions_of_def)

lemma regions_of_Cons:
  "regions_of esize bytes ((n, b) # rs) \<longleftrightarrow>
     0 < n \<and> length b = n * esize \<and> (\<exists>rest. bytes = b @ rest \<and> regions_of esize rest rs)"
  by (auto simp: regions_of_def)

fun placed :: "(nat \<Rightarrow> nat \<Rightarrow> nat) \<Rightarrow> nat \<Rightarrow> region list \<Rightarrow> bool" where
  "placed place ind [] \<longleftrightarrow> True"
| "placed place ind ((nbatch, buffer) # rs) \<longleftrightarrow> place ind nbatch = ind \<and> placed place (ind + nbatch) rs"

lemma placed_index [simp]: "placed (\<lambda>ind nbatch. ind) ind regions"
  by (induction "\<lambda>(ind::nat) (nbatch::nat). ind" ind regions rule: placed.induct) simp_all

lemma placed_single [simp]: "placed (\<lambda>ind nbatch. ind * nbatch) 0 [region]"
  by (cases region) simp

context shm_os
begin

lemma memcpy_out_run:
  assumes "vregions (view os) r = Some j" and "0 \<le> off"
    and "nat off + at + length bytes \<le> length (vobjs (view os) j)"
  obtains os' where "memcpy_out B (Ptr r off) at bytes os = (Inr (), os')"
    and "view os' = (view os)\<lparr>vobjs := (vobjs (view os))(j := blit (nat off + at) bytes (vobjs (view os) j))\<rparr>"
proof -
  have "in_bounds (view os) (Ptr r (off + int at)) (length bytes)"
    using assms by (simp add: in_bounds_Ptr nat_add_distrib)
  from store_ok [OF assms(1) this] assms(2) that show thesis
    by (auto simp: memcpy_out_def nat_add_distrib)
qed

lemma memcpy_out_outside:
  assumes "vregions (view os) r = Some j" and "0 \<le> off"
    and "length (vobjs (view os) j) < nat off + at + length bytes"
  shows "memcpy_out B (Ptr r off) at bytes os = (Inl (Undefined ''memcpy''), os)"
proof -
  have "\<not> in_bounds (view os) (Ptr r (off + int at)) (length bytes)"
    using assms by (simp add: in_bounds_Ptr nat_add_distrib)
  then show ?thesis
    using store_outside by (simp add: memcpy_out_def fail_run)
qed

lemma blit_blit_adjacent:
  assumes "a + length xs + length ys \<le> length bs"
  shows "blit (a + length xs) ys (blit a xs bs) = blit a (xs @ ys) bs"
  using assms
  by (intro nth_equalityI) (auto simp: nth_blit nth_append)

text \<open>Batches placed at their own index write the whole vector.\<close>

lemma copy_regions_at_index:
  assumes "regions_of esize bytes regions" and "vregions (view os) r = Some j" and "0 \<le> off"
    and "nat off + ind * esize + length bytes \<le> length (vobjs (view os) j)"
  shows "\<exists>os'. copy_regions B (Ptr r off) esize (\<lambda>ind nbatch. ind) ind regions os = (Inr (), os') \<and>
    view os' = (view os)\<lparr>vobjs := (vobjs (view os))(j := blit (nat off + ind * esize) bytes (vobjs (view os) j))\<rparr>"
  using assms
proof (induction regions arbitrary: bytes ind os)
  case Nil
  then show ?case by (auto simp: ok_run blit_def intro!: shm_view.equality)
next
  case (Cons region rs)
  obtain n b where reg: "region = (n, b)"
    by fastforce
  obtain rest where bytes: "bytes = b @ rest" and rest: "regions_of esize rest rs" and len: "length b = n * esize"
    using Cons.prems(1) by (auto simp: reg regions_of_Cons)
  let ?bs = "vobjs (view os) j"
  obtain os1 where os1: "memcpy_out B (Ptr r off) (ind * esize) b os = (Inr (), os1)"
    and v1: "view os1 = (view os)\<lparr>vobjs := (vobjs (view os))(j := blit (nat off + ind * esize) b ?bs)\<rparr>"
    using memcpy_out_run [OF Cons.prems(2,3), of "ind * esize" b] Cons.prems(4) by (auto simp: bytes)
  have lb: "length (blit (nat off + ind * esize) b ?bs) = length ?bs"
    using Cons.prems(4) by (simp add: bytes)
  have "\<exists>os'. copy_regions B (Ptr r off) esize (\<lambda>ind nbatch. ind) (ind + n) rs os1 = (Inr (), os') \<and>
    view os' = (view os1)\<lparr>vobjs := (vobjs (view os1))(j := blit (nat off + (ind + n) * esize) rest (vobjs (view os1) j))\<rparr>"
    using Cons.prems len by (intro Cons.IH [OF rest]) (simp_all add: v1 lb bytes algebra_simps)
  moreover have "blit (nat off + (ind + n) * esize) rest (blit (nat off + ind * esize) b ?bs) =
      blit (nat off + ind * esize) bytes ?bs"
    using blit_blit_adjacent [of "nat off + ind * esize" b rest ?bs] Cons.prems(4) len
    by (simp add: bytes algebra_simps)
  ultimately show ?case
    using os1 by (auto simp: reg andThen_run len v1 intro!: shm_view.equality ext)
qed

text \<open>A placement is sound for a list of batches when every batch goes to its own index.\<close>

lemma copy_regions_cong:
  "placed place ind regions \<Longrightarrow>
   copy_regions B target esize place ind regions = copy_regions B target esize (\<lambda>ind nbatch. ind) ind regions"
  by (induction regions arbitrary: ind) auto

end

end
