(* ===== verification/NumericAltrep.thy ===== *)
theory NumericAltrep
  imports Complex_Main PkgData CopyData
begin

text \<open>
  Shared numeric vectors: the parts of \<open>src/altrep.cpp\<close> that create, read and unshare them and
  the ALTREP methods of \<open>src/numericAltrepOperations.cpp\<close> (length, data pointer, duplicate,
  serialize, unserialize, subset). R's objects are values: a shared vector is the ALTREP object
  with its external pointer and its data information, a regular vector is its type, length and
  bytes. The session adds to the registry the external pointers whose finalizer is registered and
  the lists inside the shared strings.
\<close>

section \<open>R objects\<close>

text \<open>An attribute list is a reference the code only passes on; 0 is \<open>R_NilValue\<close>.\<close>

type_synonym attributes = nat

definition R_NilValue :: attributes where
  "R_NilValue = 0"

record data_info =
  info_dataId :: string
  info_length :: u64
  info_totalSize :: u64
  info_dataType :: int
  info_ownData :: bool
  info_copyOnWrite :: bool
  info_sharedSubset :: bool
  info_sharedCopy :: bool

datatype alt_class = shared_real_class | shared_integer_class | shared_logical_class
  | shared_raw_class | shared_complex_class | shared_string_class

text \<open>\<open>sv_address\<close> and \<open>sv_tag\<close> are the address and the tag of the external pointer.\<close>

record shared_vector =
  sv_class :: alt_class
  sv_address :: ptr
  sv_tag :: string
  sv_info :: data_info
  sv_attributes :: attributes

record regular_vector =
  rv_type :: int
  rv_length :: u64
  rv_bytes :: "byte list"
  rv_attributes :: attributes

datatype robj = Shared shared_vector | Regular regular_vector | Nil_object

text \<open>
  A vector to copy from: its data pointer if it has one, into R's heap (the bytes there) or into a
  mapping, and the batches in which R delivers it when it has none.
\<close>

datatype vector_data = In_heap "byte list" | In_mapping ptr

record source_vector =
  src_type :: int
  src_length :: u64
  src_dataptr :: "vector_data option"
  src_regions :: "region list"

text \<open>
  A \<open>CHARSXP\<close> is its address: R keeps one \<open>CHARSXP\<close> per string, and the code compares addresses. The
  list in the first slot of a shared string is an R object of its own, shared by duplicates:
  \<open>string_lists\<close> holds these lists, and a shared string refers to one by its position.
\<close>

type_synonym charsxp = nat

record str_data =
  STR_DATA_STRVEC :: "charsxp list option"
  STR_DATA_INDEX :: robj
  STR_DATA_CHARSET :: "charsxp list"

record 'os session = "'os world" +
  extptrs :: "(ptr \<times> string) list"
  string_lists :: "str_data list"

definition session_init :: "'os \<Rightarrow> 'os session" where
  "session_init m = world.extend (world_init m) \<lparr>extptrs = [], string_lists = []\<rparr>"

definition getAltClass :: "int \<Rightarrow> so_error + alt_class" where
  "getAltClass type =
     (if type = REALSXP then Inr shared_real_class
      else if type = INTSXP then Inr shared_integer_class
      else if type = LGLSXP then Inr shared_logical_class
      else if type = RAWSXP then Inr shared_raw_class
      else if type = CPLXSXP then Inr shared_complex_class
      else if type = STRSXP then Inr shared_string_class
      else Inl (RError (''Type of '' @ show_int type @ '' is not supported yet'')))"

text \<open>\<open>TYPEOF\<close> of an ALTREP object is the base type of its class.\<close>

fun class_type :: "alt_class \<Rightarrow> int" where
  "class_type shared_real_class = REALSXP"
| "class_type shared_integer_class = INTSXP"
| "class_type shared_logical_class = LGLSXP"
| "class_type shared_raw_class = RAWSXP"
| "class_type shared_complex_class = CPLXSXP"
| "class_type shared_string_class = STRSXP"

lemma getAltClass_type: "getAltClass type = Inr cls \<Longrightarrow> class_type cls = type"
  by (auto simp: getAltClass_def split: if_splits)

lemma getAltClass_numeric: "getTypeSize type = Inr n \<Longrightarrow> \<exists>cls. getAltClass type = Inr cls"
  by (auto simp: getTypeSize_def getAltClass_def split: if_splits)

definition of_sum :: "so_error + 'a \<Rightarrow> ('s, 'a) exec" where
  "of_sum r = (case r of Inl e \<Rightarrow> fail e | Inr x \<Rightarrow> ok x)"

lemma of_sum_run [exec_simps]: "of_sum r s = (r, s)"
  by (simp add: of_sum_def ok_def fail_def split: sum.split)

text \<open>Memory accesses of the running process.\<close>

definition load_mem :: "'os boost \<Rightarrow> ptr \<Rightarrow> nat \<Rightarrow> (('os, 'z) world_scheme, byte list) exec" where
  "load_mem B p n = (\<lambda>w.
     case mem_load B p n (machine w) of None \<Rightarrow> fail (Undefined ''load'') w | Some bs \<Rightarrow> (Inr bs, w))"

definition store_mem :: "'os boost \<Rightarrow> ptr \<Rightarrow> byte list \<Rightarrow> (('os, 'z) world_scheme, unit) exec" where
  "store_mem B p bs = (\<lambda>w.
     case mem_store B p bs (machine w) of None \<Rightarrow> fail (Undefined ''store'') w | Some m \<Rightarrow> (Inr (), w\<lparr>machine := m\<rparr>))"

definition read_data :: "'os boost \<Rightarrow> vector_data \<Rightarrow> nat \<Rightarrow> (('os, 'z) world_scheme, byte list) exec" where
  "read_data B d n =
     (case d of
        In_heap bytes \<Rightarrow> if length bytes < n then fail (Undefined ''load'') else ok (take n bytes)
      | In_mapping p \<Rightarrow> load_mem B p n)"

definition on_machine :: "('os, 'a) exec \<Rightarrow> (('os, 'z) world_scheme, 'a) exec" where
  "on_machine call = (\<lambda>w. case call (machine w) of (r, m) \<Rightarrow> (r, w\<lparr>machine := m\<rparr>))"

section \<open>Creating and reading shared vectors\<close>

text \<open>\<open>R_MakeExternalPtr\<close> with the id as its tag, and \<open>R_RegisterCFinalizerEx\<close>.\<close>

definition make_external_ptr :: "ptr \<Rightarrow> string \<Rightarrow> ('os session, unit) exec" where
  "make_external_ptr p ident = (\<lambda>w. (Inr (), w\<lparr>extptrs := (p, ident) # extptrs w\<rparr>))"

text \<open>The finalizer of one external pointer, run when R collects it.\<close>

definition ptrFinalizer :: "'os boost \<Rightarrow> ptr \<times> string \<Rightarrow> 'os session \<Rightarrow> 'os session" where
  "ptrFinalizer B extPtr w =
     (unmapSharedMemory B (snd extPtr) w)\<lparr>extptrs := remove1 extPtr (extptrs w)\<rparr>"

definition createEmptySharedObject ::
  "'os boost \<Rightarrow> int \<Rightarrow> u64 \<Rightarrow> bool \<Rightarrow> bool \<Rightarrow> bool \<Rightarrow> attributes \<Rightarrow> ('os session, shared_vector) exec" where
  "createEmptySharedObject B type len copyOnWrite sharedSubset sharedCopy attribs =
     andThen (of_sum (getTypeSize type)) (\<lambda>typeSize.
       let dataSize = len * typeSize in
       andThen (allocateSharedMemory B dataSize '''') (\<lambda>ident.
         andThen (mapSharedMemory B ident) (\<lambda>p.
           andThen (autoReleaseAfterUse_set ident True) (\<lambda>_.
             andThen (make_external_ptr p ident) (\<lambda>_.
               andThen (of_sum (getAltClass type)) (\<lambda>alt_class.
                 ok \<lparr>sv_class = alt_class, sv_address = p, sv_tag = ident,
                     sv_info = \<lparr>info_dataId = ident, info_length = len, info_totalSize = dataSize,
                       info_dataType = type, info_ownData = True, info_copyOnWrite = copyOnWrite,
                       info_sharedSubset = sharedSubset, info_sharedCopy = sharedCopy\<rparr>,
                     sv_attributes = attribs\<rparr>))))))"

definition createSharedObjectFromSource ::
  "'os boost \<Rightarrow> source_vector \<Rightarrow> bool \<Rightarrow> bool \<Rightarrow> bool \<Rightarrow> attributes \<Rightarrow> ('os session, shared_vector) exec" where
  "createSharedObjectFromSource B x copyOnWrite sharedSubset sharedCopy attribs =
     andThen (of_sum (getObjectSize (src_type x) (src_length x))) (\<lambda>dataSize.
       andThen (createEmptySharedObject B (src_type x) (src_length x) copyOnWrite sharedSubset sharedCopy attribs)
         (\<lambda>result.
           andThen (case src_dataptr x of
               Some d \<Rightarrow> andThen (read_data B d (unat dataSize)) (store_mem B (sv_address result))
             | None \<Rightarrow> on_machine (copyData B (sv_address result) (src_type x) (src_regions x)))
             (\<lambda>_. ok result)))"

definition readSharedObject :: "'os boost \<Rightarrow> data_info \<Rightarrow> ('os session, shared_vector) exec" where
  "readSharedObject B dataInfo =
     andThen (mapSharedMemory B (info_dataId dataInfo)) (\<lambda>p.
       andThen (make_external_ptr p (info_dataId dataInfo)) (\<lambda>_.
         andThen (of_sum (getAltClass (info_dataType dataInfo))) (\<lambda>alt_class.
           ok \<lparr>sv_class = alt_class, sv_address = p, sv_tag = info_dataId dataInfo,
               sv_info = dataInfo, sv_attributes = R_NilValue\<rparr>)))"

text \<open>
  \<open>memcpy(DATAPTR(res), DATAPTR(x), n)\<close> into a vector just allocated for \<open>len\<close> elements of
  \<open>type\<close>: it must fit there, and it fills the vector from the start.
\<close>

definition copy_to_regular ::
  "'os boost \<Rightarrow> int \<Rightarrow> u64 \<Rightarrow> ptr \<Rightarrow> u64 \<Rightarrow> attributes \<Rightarrow> (('os, 'z) world_scheme, regular_vector) exec" where
  "copy_to_regular B type len p n attribs =
     andThen (of_sum (getTypeSize type)) (\<lambda>typeSize.
       if unat len * unat typeSize < unat n then fail (Undefined ''memcpy'')
       else andThen (load_mem B p (unat n)) (\<lambda>bytes.
              ok \<lparr>rv_type = type, rv_length = len, rv_bytes = bytes, rv_attributes = attribs\<rparr>))"

definition unshare :: "'os boost \<Rightarrow> shared_vector \<Rightarrow> attributes \<Rightarrow> (('os, 'z) world_scheme, regular_vector) exec" where
  "unshare B x attribs =
     (let type = class_type (sv_class x); len = info_length (sv_info x) in
      andThen (of_sum (getObjectSize type len)) (\<lambda>n. copy_to_regular B type len (sv_address x) n attribs))"

section \<open>ALTREP methods\<close>

definition sharedVector_length :: "shared_vector \<Rightarrow> u64" where
  "sharedVector_length x = info_length (sv_info x)"

definition sharedVector_dataptr :: "shared_vector \<Rightarrow> bool \<Rightarrow> ptr" where
  "sharedVector_dataptr x writeable = sv_address x"

definition sharedVector_dataptr_or_null :: "shared_vector \<Rightarrow> ptr" where
  "sharedVector_dataptr_or_null x = sharedVector_dataptr x True"

text \<open>A shared vector as the source of a copy: it has a data pointer.\<close>

definition source_of_shared :: "shared_vector \<Rightarrow> source_vector" where
  "source_of_shared x =
     \<lparr>src_type = class_type (sv_class x), src_length = sharedVector_length x,
      src_dataptr = Some (In_mapping (sharedVector_dataptr_or_null x)), src_regions = []\<rparr>"

definition sharedVector_duplicate :: "'os boost \<Rightarrow> shared_vector \<Rightarrow> bool \<Rightarrow> ('os session, robj) exec" where
  "sharedVector_duplicate B x deep =
     (let info = sv_info x in
      if info_copyOnWrite info
      then if info_sharedCopy info
           then andThen (createSharedObjectFromSource B (source_of_shared x) (info_copyOnWrite info)
                           (info_sharedSubset info) (info_sharedCopy info) R_NilValue)
                  (\<lambda>result. ok (Shared result))
           else andThen (copy_to_regular B (class_type (sv_class x)) (sharedVector_length x)
                           (sharedVector_dataptr x True) (info_totalSize info) R_NilValue)
                  (\<lambda>result. ok (Regular result))
      else andThen (readSharedObject B info) (\<lambda>result. ok (Shared result)))"

text \<open>What travels to another process: the data information (a list), or the data itself.\<close>

datatype serial = Serial_info data_info | Serial_data regular_vector

definition warn :: "string \<Rightarrow> (('os, 'z) world_scheme, unit) exec" where
  "warn msg = (\<lambda>w. (Inr (), w\<lparr>warnings := warnings w @ [msg]\<rparr>))"

definition sharedVector_serialized_state :: "'os boost \<Rightarrow> shared_vector \<Rightarrow> (('os, 'z) world_scheme, serial) exec" where
  "sharedVector_serialized_state B x =
     (let ident = info_dataId (sv_info x) in
      andThen (hasSharedMemory B ident) (\<lambda>has.
        if \<not> has
        then andThen (warn (''The shared memory does not exist(id: '' @ ident @
                            ''), the unshared data will be exported instead'' @ nl)) (\<lambda>_.
               andThen (unshare B x R_NilValue) (\<lambda>unsharedData. ok (Serial_data unsharedData)))
        else ok (Serial_info (sv_info x))))"

definition sharedVector_unserialize :: "'os boost \<Rightarrow> serial \<Rightarrow> ('os session, robj) exec" where
  "sharedVector_unserialize B state =
     (case state of
        Serial_data x \<Rightarrow>
          andThen (warn (''The shared memory has been released! Receiving unshared object.'' @ nl))
            (\<lambda>_. ok (Regular x))
      | Serial_info dataInfo \<Rightarrow>
          catchCpp (andThen (readSharedObject B dataInfo) (\<lambda>result. ok (Shared result)))
            (\<lambda>what. andThen (warn (''Error in unserializing an altrep'' @ nl @ what)) (\<lambda>_. ok Nil_object)))"

subsection \<open>Subsetting\<close>

text \<open>
  The index vector: 32-bit integers (\<open>NA\<close> is the smallest), or doubles, a number or not
  (\<open>None\<close>); a double is read as \<open>(size_t) d\<close>.
\<close>

datatype index_vector = Int_index "i32 list" | Real_index "rat option list"

fun index_length :: "index_vector \<Rightarrow> nat" where
  "index_length (Int_index is) = length is"
| "index_length (Real_index ds) = length ds"

text \<open>
  The byte offset of element \<open>i\<close> from \<open>src_ptr\<close>, which is one element before the data. For an
  integer index the product is in \<open>int\<close>: its overflow is undefined. A double outside the range of
  \<open>size_t\<close> is undefined too.
\<close>

definition index_offset :: "index_vector \<Rightarrow> nat \<Rightarrow> u64 \<Rightarrow> so_error + int" where
  "index_offset indx i typeSize =
     (case indx of
        Int_index is \<Rightarrow>
          (let prod = sint (is ! i) * int (unat typeSize) in
           if - (2 ^ 31) \<le> prod \<and> prod < 2 ^ 31 then Inr prod else Inl (Undefined ''int overflow''))
      | Real_index ds \<Rightarrow>
          (case ds ! i of
             None \<Rightarrow> Inl (Undefined ''double to size_t'')
           | Some d \<Rightarrow> (if - 1 < d \<and> d < 2 ^ 64
               then Inr (uint ((of_int (if d < 0 then 0 else \<lfloor>d\<rfloor>) :: u64) * typeSize))
               else Inl (Undefined ''double to size_t''))))"

text \<open>The loop, element by element; \<open>dest\<close> stores a run of bytes at an offset of the result.\<close>

definition subset_element ::
  "'os boost \<Rightarrow> ptr \<Rightarrow> index_vector \<Rightarrow> u64 \<Rightarrow> nat \<Rightarrow> (('os, 'z) world_scheme, byte list) exec" where
  "subset_element B src_ptr indx typeSize i =
     andThen (of_sum (index_offset indx i typeSize)) (\<lambda>off. load_mem B (ptr_add src_ptr off) (unat typeSize))"

fun subset_bytes ::
  "'os boost \<Rightarrow> ptr \<Rightarrow> index_vector \<Rightarrow> u64 \<Rightarrow> nat list \<Rightarrow> (('os, 'z) world_scheme, byte list) exec" where
  "subset_bytes B src_ptr indx typeSize [] = ok []"
| "subset_bytes B src_ptr indx typeSize (i # is) =
     andThen (subset_element B src_ptr indx typeSize i) (\<lambda>bs.
       andThen (subset_bytes B src_ptr indx typeSize is) (\<lambda>rest. ok (bs @ rest)))"

definition sharedVector_subset :: "'os boost \<Rightarrow> shared_vector \<Rightarrow> index_vector \<Rightarrow> ('os session, robj) exec" where
  "sharedVector_subset B x indx =
     (let info = sv_info x; type = class_type (sv_class x); len = of_nat (index_length indx) :: u64 in
      if info_sharedSubset info
      then andThen (createEmptySharedObject B type len (info_copyOnWrite info) (info_sharedSubset info)
                      (info_sharedCopy info) R_NilValue) (\<lambda>subVector.
             andThen (of_sum (getTypeSize type)) (\<lambda>typeSize.
               andThen (forEach [0..<index_length indx] (\<lambda>i.
                   andThen (subset_element B (ptr_add (sv_address x) (- int (unat typeSize))) indx typeSize i)
                     (\<lambda>bs. store_mem B (ptr_add (sv_address subVector) (int (i * unat typeSize))) bs)))
                 (\<lambda>_. ok (Shared subVector))))
      else andThen (of_sum (getTypeSize type)) (\<lambda>typeSize.
             andThen (subset_bytes B (ptr_add (sv_address x) (- int (unat typeSize))) indx typeSize
                        [0..<index_length indx])
               (\<lambda>bytes. ok (Regular \<lparr>rv_type = type, rv_length = len, rv_bytes = bytes,
                                      rv_attributes = R_NilValue\<rparr>))))"

end
