(* ===== verification/Lifecycle.thy ===== *)
theory Lifecycle
  imports NumericAltrep
begin

text \<open>
  Calls that relate the session before and after by a preorder, whatever their outcome: the locale
  \<open>step_relation\<close> carries this through the structure of the calls. Its first instance is \<open>quiet\<close>: the
  calls that keep the registry's invariant and change no mapping, counter or external pointer.
\<close>

section \<open>Calls under a preorder\<close>

definition preserves :: "('s \<Rightarrow> 's \<Rightarrow> bool) \<Rightarrow> ('s, 'a) exec \<Rightarrow> bool" where
  "preserves R m \<longleftrightarrow> (\<forall>s r s'. m s = (r, s') \<longrightarrow> R s s')"

lemma preservesI: "(\<And>s r s'. m s = (r, s') \<Longrightarrow> R s s') \<Longrightarrow> preserves R m"
  by (simp add: preserves_def)

lemma preservesD: "preserves R m \<Longrightarrow> m s = (r, s') \<Longrightarrow> R s s'"
  by (simp add: preserves_def)

lemma preserves_if: "preserves R m \<Longrightarrow> preserves R m' \<Longrightarrow> preserves R (if b then m else m')"
  by simp

lemma preserves_option:
  "preserves R m \<Longrightarrow> (\<And>x. preserves R (f x)) \<Longrightarrow> preserves R (case a of None \<Rightarrow> m | Some x \<Rightarrow> f x)"
  by (cases a) simp_all

locale step_relation =
  fixes R :: "'s \<Rightarrow> 's \<Rightarrow> bool"
  assumes stays: "R s s"
    and composes: "R s s1 \<Longrightarrow> R s1 s2 \<Longrightarrow> R s s2"
begin

lemma preserves_ok: "preserves R (ok x)"
  by (rule preservesI) (simp add: ok_def stays)

lemma preserves_fail: "preserves R (fail e)"
  by (rule preservesI) (simp add: fail_def stays)

lemma preserves_throw: "preserves R (throwError msg)"
  by (rule preservesI) (simp add: throwError_run stays)

lemma preserves_of_sum: "preserves R (of_sum r)"
  by (rule preservesI) (simp add: of_sum_run stays)

lemma preserves_andThen:
  assumes "preserves R m" and "\<And>x. preserves R (f x)"
  shows "preserves R (andThen m f)"
proof (rule preservesI)
  fix s r s'
  assume run: "andThen m f s = (r, s')"
  obtain r1 s1 where m: "m s = (r1, s1)"
    by fastforce
  then have "R s s1"
    by (rule preservesD [OF assms(1)])
  moreover have "R s1 s'"
  proof (cases r1)
    case (Inl e)
    then show ?thesis
      using run m stays by simp
  next
    case (Inr x)
    then have "f x s1 = (r, s')"
      using run m by simp
    then show ?thesis
      by (rule preservesD [OF assms(2)])
  qed
  ultimately show "R s s'"
    by (rule composes)
qed

lemma preserves_catch:
  assumes "preserves R m" and "\<And>what. preserves R (h what)"
  shows "preserves R (catchCpp m h)"
proof (rule preservesI)
  fix s r s'
  assume run: "catchCpp m h s = (r, s')"
  obtain r1 s1 where m: "m s = (r1, s1)"
    by fastforce
  then have "R s s1"
    by (rule preservesD [OF assms(1)])
  moreover have "R s1 s'"
  proof (cases "\<exists>what. r1 = Inl (CppError what)")
    case True
    then obtain what where "h what s1 = (r, s')"
      using run m by (auto simp: catchCpp_run)
    then show ?thesis
      by (rule preservesD [OF assms(2)])
  next
    case False
    then have "s' = s1"
      using run m by (auto simp: catchCpp_run split: sum.splits so_error.splits)
    then show ?thesis
      using stays by simp
  qed
  ultimately show "R s s'"
    by (rule composes)
qed

lemma preserves_forEach: "(\<And>i. preserves R (body i)) \<Longrightarrow> preserves R (forEach is body)"
  by (induction "is") (auto intro: preserves_ok preserves_andThen)

lemmas composed = preserves_ok preserves_fail preserves_throw preserves_of_sum preserves_andThen preserves_catch
  preserves_forEach preserves_if preserves_option

end

section \<open>Calls that keep the mappings\<close>

text \<open>
  \<open>quiet\<close>: the registry invariant is kept, and no mapping, counter or external pointer changes.
\<close>

definition quiet :: "'os session \<Rightarrow> 'os session \<Rightarrow> bool" where
  "quiet w w' \<longleftrightarrow> (counted w \<longrightarrow> counted w' \<and> mapped_at w' = mapped_at w \<and> counter_at w' = counter_at w \<and>
     lastId w' = lastId w \<and> extptrs w' = extptrs w)"

abbreviation quiet_call :: "('os session, 'a) exec \<Rightarrow> bool" where
  "quiet_call \<equiv> preserves quiet"

named_theorems quiet_intros \<open>calls that are quiet\<close>

lemma quiet_refl [simp]: "quiet w w"
  by (simp add: quiet_def)

lemma quiet_trans: "quiet w w1 \<Longrightarrow> quiet w1 w2 \<Longrightarrow> quiet w w2"
  by (simp add: quiet_def)

lemma counted_fields [simp]:
  "counted (w\<lparr>machine := m\<rparr>) = counted w" "counted (w\<lparr>warnings := ws\<rparr>) = counted w"
  "counted (w\<lparr>lastId := p\<rparr>) = counted w"
  by (simp_all add: counted_def registry_ok_def)

lemma mapped_at_extptrs [simp]: "mapped_at (w\<lparr>extptrs := xs\<rparr>) = mapped_at w"
  by (simp add: mapped_at_def fun_eq_iff)

lemma counter_at_extptrs [simp]: "counter_at (w\<lparr>extptrs := xs\<rparr>) = counter_at w"
  by (simp add: counter_at_def fun_eq_iff)

lemma counted_extptrs [simp]: "counted (w\<lparr>extptrs := xs\<rparr>) = counted w"
  by (simp add: counted_def registry_ok_def)

lemma quiet_machine [simp]: "quiet w (w\<lparr>machine := m\<rparr>)"
  by (simp add: quiet_def)

lemma quiet_warnings [simp]: "quiet w (w\<lparr>warnings := ws\<rparr>)"
  by (simp add: quiet_def)

lemmas quiet_callI = preservesI [where R = quiet]

lemmas quiet_callD = preservesD [where R = quiet]

interpretation quiet: step_relation quiet
  by unfold_locales (simp, rule quiet_trans)

declare quiet.composed [quiet_intros]

lemmas quiet_ok = quiet.preserves_ok

lemmas quiet_andThen = quiet.preserves_andThen

lemma quiet_load [quiet_intros]: "quiet_call (load_mem B p n)"
  by (rule quiet_callI) (auto simp: load_mem_def fail_run split: option.splits)

lemma quiet_store [quiet_intros]: "quiet_call (store_mem B p bs)"
  by (rule quiet_callI) (auto simp: store_mem_def fail_run split: option.splits)

lemma quiet_on_machine [quiet_intros]: "quiet_call (on_machine call)"
  by (rule quiet_callI) (auto simp: on_machine_def split: prod.splits)

lemma quiet_warn [quiet_intros]: "quiet_call (warn msg)"
  by (rule quiet_callI) (auto simp: warn_def)

lemma quiet_has [quiet_intros]: "quiet_call (hasSharedMemory B ident)"
  by (rule quiet_callI) (auto simp: hasSharedMemory_def split: prod.splits)

lemma quiet_read_data [quiet_intros]: "quiet_call (read_data B d n)"
  by (auto simp: read_data_def intro: quiet_intros split: vector_data.split)

lemma quiet_read_lastId [quiet_intros]: "quiet_call (read_lastId B)"
  by (rule quiet_callI) (auto simp: read_lastId_def fail_run split: option.splits)

lemma quiet_store_counter [quiet_intros]: "quiet_call (store_counter B p x)"
  by (rule quiet_callI) (auto simp: store_counter_def fail_run split: option.splits)

lemma quiet_increment [quiet_intros]: "quiet_call (increment_lastId B)"
  unfolding increment_lastId_def
proof (rule quiet_andThen)
  fix x
  show "quiet_call (\<lambda>w. case lastId w of None \<Rightarrow> fail (Undefined ''null lastId'') w
      | Some p \<Rightarrow> andThen (store_counter B p (x + 1)) (\<lambda>_. ok (x + 1)) w)"
    by (rule quiet_callI)
      (auto simp: fail_run split: option.splits
        intro: quiet_callD [OF quiet_andThen [OF quiet_store_counter quiet_ok]])
qed (rule quiet_intros)

lemma quiet_getNextId_loop [quiet_intros]: "quiet_call (getNextId_loop B start fuel)"
  by (induction fuel) (auto intro!: quiet_intros)

lemma quiet_getNextId [quiet_intros]: "quiet_call (getNextId B)"
  unfolding getNextId_def by (intro quiet_intros)

text \<open>Allocation neither maps nor unmaps, whether it succeeds or fails.\<close>

lemma SO_allocate_keeps_mapping:
  assumes "SO_allocateSharedMemory B (so, os) = (r, so', os')" and "so_inv so"
  shows "so_inv so' \<and> shared_ptr so' = shared_ptr so \<and> so_key so' = so_key so"
proof (cases r)
  case (Inl e)
  have "sharedMemoryHandle so = None"
    using assms(1) Inl by (cases "sharedMemoryHandle so") (simp_all add: SO_allocate_has)
  then show ?thesis
    using SO_allocate_err assms Inl by (fastforce simp: so_inv_def)
next
  case (Inr u)
  then show ?thesis
    using SO_allocate_Inr assms by (fastforce simp: so_inv_def)
qed

lemma quiet_emplace:
  fixes w :: "'os session"
  assumes "sharedObjectList w key = Some so" and "shared_ptr so' = shared_ptr so" and "so_key so' = so_key so"
    and "so_inv so \<Longrightarrow> so_inv so'"
  shows "quiet w (w\<lparr>machine := m, sharedObjectList := (sharedObjectList w)(key \<mapsto> so')\<rparr>)"
proof -
  let ?w = "w\<lparr>machine := m, sharedObjectList := (sharedObjectList w)(key \<mapsto> so')\<rparr>"
  have m: "mapped_at ?w = mapped_at w"
    using assms(1,2) by (auto simp: mapped_at_def fun_eq_iff)
  have c: "counter_at ?w = counter_at w"
    by (simp add: counter_at_def fun_eq_iff)
  have "registry_ok ?w" if "registry_ok w"
    using that assms by (auto simp: registry_ok_def)
  then show ?thesis
    using m c by (simp add: quiet_def counted_def)
qed

lemma quiet_on_allocate: "quiet_call (on_object key (SO_allocateSharedMemory B))"
proof (rule quiet_callI)
  fix w :: "'a session" and r w'
  assume run: "on_object key (SO_allocateSharedMemory B) w = (r, w')"
  show "quiet w w'"
  proof (cases "sharedObjectList w key")
    case None
    then show ?thesis
      using run by (simp add: on_object_def fail_run)
  next
    case (Some so)
    obtain so' m' where al: "SO_allocateSharedMemory B (so, machine w) = (r, so', m')"
      and w': "w' = w\<lparr>machine := m', sharedObjectList := (sharedObjectList w)(key \<mapsto> so')\<rparr>"
      using run Some by (auto simp: on_object_def split: prod.splits)
    show ?thesis
    proof (cases "so_inv so")
      case True
      then show ?thesis
        using SO_allocate_keeps_mapping [OF al True] by (auto simp: w' intro!: quiet_emplace [OF Some])
    next
      case False
      then have "\<not> counted w"
        using Some by (auto simp: counted_def registry_ok_def)
      then show ?thesis
        by (simp add: quiet_def)
    qed
  qed
qed

lemma quiet_new_object:
  fixes w :: "'os session"
  assumes "sharedObjectList w key = None"
  shows "quiet w (emplace_object key (SharedObjectClass_new key n) w)"
proof -
  let ?w = "emplace_object key (SharedObjectClass_new key n) w"
  have "mapped_at ?w = mapped_at w"
    using assms by (auto simp: emplace_object_def mapped_at_def fun_eq_iff)
  then show ?thesis
    by (auto simp: quiet_def counted_def registry_ok_def emplace_object_def)
qed

lemma quiet_allocate_internal [quiet_intros]: "quiet_call (allocateSharedMemoryInternal B key n)"
  unfolding allocateSharedMemoryInternal_def
  by (rule quiet_andThen [OF quiet_callI quiet_on_allocate])
    (auto simp: throwError_run quiet_new_object split: option.splits if_splits)

lemma quiet_allocate [quiet_intros]: "quiet_call (allocateSharedMemory B n ident)"
  unfolding allocateSharedMemory_def by (intro quiet_intros)

lemma quiet_own [quiet_intros]: "quiet_call (autoReleaseAfterUse_set ident b)"
proof (rule quiet_callI)
  fix w :: "'a session" and r w'
  assume run: "autoReleaseAfterUse_set ident b w = (r, w')"
  show "quiet w w'"
  proof (cases "sharedObjectList w (getKey ident)")
    case None
    then show ?thesis
      using run by (simp add: autoReleaseAfterUse_set_def throwError_run)
  next
    case (Some so)
    have "quiet w (w\<lparr>machine := machine w, sharedObjectList := (sharedObjectList w)(getKey ident \<mapsto> so\<lparr>ownData := b\<rparr>)\<rparr>)"
      by (rule quiet_emplace [OF Some]) (simp_all add: so_inv_def)
    then show ?thesis
      using run Some by (simp add: autoReleaseAfterUse_set_def emplace_object_def SO_setOwnership_def)
  qed
qed

lemma quiet_size [quiet_intros]: "quiet_call (getSharedMemorySize B ident)"
  by (rule quiet_callI)
    (auto simp: getSharedMemorySize_def getSharedMemorySizeInternal_def split: option.splits prod.splits)

lemma quiet_own_get [quiet_intros]: "quiet_call (autoReleaseAfterUse_get ident)"
  by (rule quiet_callI) (auto simp: autoReleaseAfterUse_get_def throwError_run Let_def split: option.splits)

lemma quiet_copy_to_regular [quiet_intros]: "quiet_call (copy_to_regular B t len p n a)"
  unfolding copy_to_regular_def by (intro quiet_intros)

lemma quiet_unshare [quiet_intros]: "quiet_call (unshare B x a)"
  unfolding unshare_def Let_def by (intro quiet_intros)

lemma quiet_serialize [quiet_intros]: "quiet_call (sharedVector_serialized_state B x)"
  unfolding sharedVector_serialized_state_def Let_def by (intro quiet_intros)

lemma quiet_subset_element [quiet_intros]: "quiet_call (subset_element B p indx n i)"
  unfolding subset_element_def by (intro quiet_intros)

lemma quiet_subset_bytes [quiet_intros]: "quiet_call (subset_bytes B p indx n is)"
  by (induction "is") (auto intro!: quiet_intros)

end
