(* ===== verification/SharedString.thy ===== *)
theory SharedString
  imports NumericAltrep "HOL-Library.Log_Nat"
begin

text \<open>
  Shared character vectors: \<open>createSharedStringFromSource\<close> and \<open>unshareString\<close> of
  \<open>src/altrep.cpp\<close> and the ALTREP methods of \<open>src/stringAltrepOperations.cpp\<close>. A shared string is a
  shared raw vector of indices of 1, 2, 4 or 8 bytes into the vector of its unique strings, beside
  a cached regular vector.
\<close>

section \<open>Objects\<close>

text \<open>\<open>Rf_allocVector(STRSXP, n)\<close> fills the vector with this string; any address would do.\<close>

definition R_BlankString :: charsxp where
  "R_BlankString = 0"

record string_info =
  str_length :: u64
  str_unitSize :: u64
  str_totalSize :: u64
  str_dataType :: int
  str_uniqueChar :: u64
  str_copyOnWrite :: bool

record shared_string =
  ss_class :: alt_class
  ss_data :: nat
  ss_info :: string_info
  ss_attributes :: attributes

record regular_string =
  rs_strings :: "charsxp list"
  rs_attributes :: attributes

datatype string_obj = Shared_string shared_string | Regular_string regular_string | Nil_string

definition new_string_list :: "str_data \<Rightarrow> ('os session, nat) exec" where
  "new_string_list d = (\<lambda>w. (Inr (length (string_lists w)), w\<lparr>string_lists := string_lists w @ [d]\<rparr>))"

definition get_string_list :: "nat \<Rightarrow> ('os session, str_data) exec" where
  "get_string_list a = (\<lambda>w.
     if a < length (string_lists w) then (Inr (string_lists w ! a), w) else fail (Undefined ''list'') w)"

definition set_string_list :: "nat \<Rightarrow> str_data \<Rightarrow> ('os session, unit) exec" where
  "set_string_list a d = (\<lambda>w. (Inr (), w\<lparr>string_lists := (string_lists w)[a := d]\<rparr>))"

section \<open>Indices in memory\<close>

text \<open>
  \<open>DATAPTR\<close> of the index vector: a mapping, or the bytes of a regular raw vector; R throws for
  \<open>NULL\<close>. A read or a write outside the vector is undefined.
\<close>

definition index_load :: "'os boost \<Rightarrow> robj \<Rightarrow> nat \<Rightarrow> nat \<Rightarrow> ('os session, byte list) exec" where
  "index_load B ix off n =
     (case ix of
        Shared v \<Rightarrow> load_mem B (ptr_add (sharedVector_dataptr v True) (int off)) n
      | Regular rv \<Rightarrow>
          if off + n \<le> length (rv_bytes rv) then ok (slice off n (rv_bytes rv)) else fail (Undefined ''index'')
      | Nil_object \<Rightarrow> fail (RError ''cannot get data pointer of 'NULL' objects''))"

definition index_store :: "'os boost \<Rightarrow> robj \<Rightarrow> nat \<Rightarrow> byte list \<Rightarrow> ('os session, robj) exec" where
  "index_store B ix off bs =
     (case ix of
        Shared v \<Rightarrow> andThen (store_mem B (ptr_add (sharedVector_dataptr v True) (int off)) bs) (\<lambda>_. ok ix)
      | Regular rv \<Rightarrow>
          if off + length bs \<le> length (rv_bytes rv)
          then ok (Regular (rv\<lparr>rv_bytes := blit off bs (rv_bytes rv)\<rparr>)) else fail (Undefined ''index'')
      | Nil_object \<Rightarrow> fail (RError ''cannot get data pointer of 'NULL' objects''))"

text \<open>\<open>STRING_ELT(vec, i)\<close>, which is unchecked.\<close>

definition STRING_ELT :: "charsxp list \<Rightarrow> nat \<Rightarrow> ('s, charsxp) exec" where
  "STRING_ELT vec i = (if i < length vec then ok (vec ! i) else fail (Undefined ''STRING_ELT''))"

text \<open>\<open>STRING_ELT(charSet, ((uintN_t *)indexPtr)[i])\<close> for units of \<open>u\<close> bytes.\<close>

definition charset_elt :: "'os boost \<Rightarrow> str_data \<Rightarrow> nat \<Rightarrow> nat \<Rightarrow> ('os session, charsxp) exec" where
  "charset_elt B d u i =
     andThen (index_load B (STR_DATA_INDEX d) (i * u) u) (\<lambda>bs. STRING_ELT (STR_DATA_CHARSET d) (from_le bs))"

section \<open>Creating a shared string\<close>

text \<open>The map \<open>uniqueCharSet\<close>, as the list of its pairs in the order of insertion.\<close>

definition insert_char :: "charsxp \<Rightarrow> (charsxp \<times> nat) list \<Rightarrow> (charsxp \<times> nat) list" where
  "insert_char curChar uniqueCharSet =
     (if map_of uniqueCharSet curChar = None then uniqueCharSet @ [(curChar, length uniqueCharSet)]
      else uniqueCharSet)"

definition find_unique :: "charsxp list \<Rightarrow> (charsxp \<times> nat) list" where
  "find_unique x = fold insert_char x []"

text \<open>
  The number of bytes of a unit, computed in floating point: bytes for the largest index, rounded
  up to a power of 2. The real numbers stand for the doubles, whose rounding does not matter for
  fewer than \<open>2 ^ 50\<close> strings.
\<close>

definition unit_bytes :: "nat \<Rightarrow> nat" where
  "unit_bytes uniqueSize =
     (let unitElt = (if 1 < uniqueSize then uniqueSize else 2)
      in nat \<lceil>log 2 (real unitElt) / 8\<rceil>)"

definition unit_size :: "nat \<Rightarrow> nat" where
  "unit_size uniqueSize = 2 ^ nat \<lceil>log 2 (real (unit_bytes uniqueSize))\<rceil>"

text \<open>The iteration of \<open>std::map\<close> is in the order of the keys, the addresses.\<close>

definition char_set :: "(charsxp \<times> nat) list \<Rightarrow> charsxp list" where
  "char_set uniqueCharSet =
     fold (\<lambda>(c, i) charSet. charSet[i := c]) (sort_key fst uniqueCharSet)
       (replicate (length uniqueCharSet) R_BlankString)"

definition write_index ::
  "'os boost \<Rightarrow> ptr \<Rightarrow> nat \<Rightarrow> (charsxp \<times> nat) list \<Rightarrow> charsxp list \<Rightarrow> ('os session, unit) exec" where
  "write_index B indexPtr unitSize uniqueCharSet x =
     forEach [0..<length x] (\<lambda>i.
       case map_of uniqueCharSet (x ! i) of
         None \<Rightarrow> fail (Undefined ''end()'')
       | Some second \<Rightarrow> store_mem B (ptr_add indexPtr (int (i * unitSize))) (le_bytes unitSize second))"

definition createSharedStringFromSource ::
  "'os boost \<Rightarrow> charsxp list \<Rightarrow> bool \<Rightarrow> attributes \<Rightarrow> ('os session, shared_string) exec" where
  "createSharedStringFromSource B x copyOnWrite attribs =
     (let uniqueCharSet = find_unique x; len = of_nat (length x) :: u64;
          unitSize = unit_size (length uniqueCharSet);
          totalSize = of_nat unitSize * len :: u64 in
      if unitSize \<noteq> 1 \<and> unitSize \<noteq> 2 \<and> unitSize \<noteq> 4 \<and> unitSize \<noteq> 8
      then fail (RError (''Something is wrong with the unit size: '' @ to_string unitSize @ nl))
      else andThen (createEmptySharedObject B RAWSXP totalSize True False False R_NilValue) (\<lambda>sharedIndex.
             andThen (write_index B (sharedVector_dataptr sharedIndex True) unitSize uniqueCharSet x) (\<lambda>_.
               andThen (new_string_list \<lparr>STR_DATA_STRVEC = Some x, STR_DATA_INDEX = Shared sharedIndex,
                                         STR_DATA_CHARSET = char_set uniqueCharSet\<rparr>) (\<lambda>data.
                 andThen (of_sum (getAltClass STRSXP)) (\<lambda>alt_class.
                   ok \<lparr>ss_class = alt_class, ss_data = data,
                       ss_info = \<lparr>str_length = len, str_unitSize = of_nat unitSize, str_totalSize = totalSize,
                                  str_dataType = STRSXP, str_uniqueChar = of_nat (length uniqueCharSet),
                                  str_copyOnWrite = copyOnWrite\<rparr>,
                       ss_attributes = attribs\<rparr>)))))"

section \<open>Back to a regular vector\<close>

fun read_strings :: "'os boost \<Rightarrow> str_data \<Rightarrow> u64 \<Rightarrow> nat list \<Rightarrow> ('os session, charsxp list) exec" where
  "read_strings B d unitSize [] = ok []"
| "read_strings B d unitSize (i # is) =
     andThen (if unitSize = 1 then charset_elt B d 1 i
              else if unitSize = 2 then charset_elt B d 2 i
              else if unitSize = 4 then charset_elt B d 4 i
              else if unitSize = 8 then charset_elt B d 8 i
              else fail (RError (''Unknown unit size in the unshareString function, unit size: '' @
                                 to_string (unat unitSize))))
       (\<lambda>c. andThen (read_strings B d unitSize is) (\<lambda>cs. ok (c # cs)))"

text \<open>The data pointer of the index is read first: \<open>NULL\<close> is an error even for an empty vector.\<close>

definition check_dataptr :: "robj \<Rightarrow> ('os session, unit) exec" where
  "check_dataptr ix =
     (if ix = Nil_object then fail (RError ''cannot get data pointer of 'NULL' objects'') else ok ())"

definition unshareString :: "'os boost \<Rightarrow> shared_string \<Rightarrow> attributes \<Rightarrow> ('os session, regular_string) exec" where
  "unshareString B x attribs =
     andThen (get_string_list (ss_data x)) (\<lambda>d.
       andThen (check_dataptr (STR_DATA_INDEX d)) (\<lambda>_.
         andThen (read_strings B d (str_unitSize (ss_info x)) [0..<unat (str_length (ss_info x))])
           (\<lambda>cs. ok \<lparr>rs_strings = cs, rs_attributes = attribs\<rparr>)))"

section \<open>ALTREP methods\<close>

definition sharedString_length :: "shared_string \<Rightarrow> u64" where
  "sharedString_length x = str_length (ss_info x)"

text \<open>The regular vector behind the data pointer; it is made and kept on the first access.\<close>

definition sharedString_dataptr :: "'os boost \<Rightarrow> shared_string \<Rightarrow> bool \<Rightarrow> ('os session, charsxp list) exec" where
  "sharedString_dataptr B x writeable =
     andThen (get_string_list (ss_data x)) (\<lambda>d.
       case STR_DATA_STRVEC d of
         Some stringVec \<Rightarrow> ok stringVec
       | None \<Rightarrow>
           andThen (unshareString B x R_NilValue) (\<lambda>stringVec.
             andThen (set_string_list (ss_data x) (d\<lparr>STR_DATA_STRVEC := Some (rs_strings stringVec)\<rparr>))
               (\<lambda>_. ok (rs_strings stringVec))))"

definition sharedString_dataptr_or_null :: "shared_string \<Rightarrow> ('os session, charsxp list option) exec" where
  "sharedString_dataptr_or_null x = andThen (get_string_list (ss_data x)) (\<lambda>d. ok (STR_DATA_STRVEC d))"

text \<open>The result is \<open>None\<close> for \<open>R_NilValue\<close>.\<close>

definition sharedString_elt :: "'os boost \<Rightarrow> shared_string \<Rightarrow> nat \<Rightarrow> ('os session, charsxp option) exec" where
  "sharedString_elt B x i =
     andThen (get_string_list (ss_data x)) (\<lambda>d.
       case STR_DATA_STRVEC d of
         Some stringVec \<Rightarrow> andThen (STRING_ELT stringVec i) (\<lambda>c. ok (Some c))
       | None \<Rightarrow>
           andThen (check_dataptr (STR_DATA_INDEX d)) (\<lambda>_.
             let unitSize = str_unitSize (ss_info x) in
             if unitSize = 1 then andThen (charset_elt B d 1 i) (\<lambda>c. ok (Some c))
             else if unitSize = 2 then andThen (charset_elt B d 2 i) (\<lambda>c. ok (Some c))
             else if unitSize = 4 then andThen (charset_elt B d 4 i) (\<lambda>c. ok (Some c))
             else if unitSize = 8 then andThen (charset_elt B d 8 i) (\<lambda>c. ok (Some c))
             else ok None))"

fun find_char :: "charsxp \<Rightarrow> charsxp list \<Rightarrow> nat" where
  "find_char v [] = 0"
| "find_char v (c # cs) = (if c = v then 0 else Suc (find_char v cs))"

text \<open>The store is through a \<open>uint8_t *\<close> whatever the unit is.\<close>

definition sharedString_set_elt :: "'os boost \<Rightarrow> shared_string \<Rightarrow> nat \<Rightarrow> charsxp \<Rightarrow> ('os session, unit) exec" where
  "sharedString_set_elt B x i v =
     andThen (get_string_list (ss_data x)) (\<lambda>d.
       andThen (check_dataptr (STR_DATA_INDEX d)) (\<lambda>_.
         let unitSize = str_unitSize (ss_info x); offset = find_char v (STR_DATA_CHARSET d) in
         if offset \<noteq> length (STR_DATA_CHARSET d)
         then if unitSize = 1 \<or> unitSize = 2 \<or> unitSize = 4 \<or> unitSize = 8
              then andThen (index_store B (STR_DATA_INDEX d) i [of_nat offset])
                     (\<lambda>ix. set_string_list (ss_data x) (d\<lparr>STR_DATA_INDEX := ix\<rparr>))
              else ok ()
         else fail (RError (''You cannot set the value of a STRSXP '' @
                            ''to a CHARSXP that has not been presented in the STRSXP before!''))))"

definition sharedString_duplicate :: "'os boost \<Rightarrow> shared_string \<Rightarrow> bool \<Rightarrow> ('os session, string_obj) exec" where
  "sharedString_duplicate B x deep =
     (if str_copyOnWrite (ss_info x)
      then andThen (unshareString B x R_NilValue) (\<lambda>s. ok (Regular_string s))
      else andThen (of_sum (getAltClass STRSXP)) (\<lambda>alt_class.
             ok (Shared_string \<lparr>ss_class = alt_class, ss_data = ss_data x, ss_info = ss_info x,
                                ss_attributes = R_NilValue\<rparr>)))"

text \<open>The state is a copy of the list without the cached vector, and the information.\<close>

definition sharedString_serialized_state :: "shared_string \<Rightarrow> ('os session, str_data \<times> string_info) exec" where
  "sharedString_serialized_state x =
     andThen (get_string_list (ss_data x)) (\<lambda>d. ok (d\<lparr>STR_DATA_STRVEC := None\<rparr>, ss_info x))"

definition sharedString_unserialize :: "str_data \<times> string_info \<Rightarrow> ('os session, string_obj) exec" where
  "sharedString_unserialize = (\<lambda>(slot1, slot2).
     if STR_DATA_INDEX slot1 \<noteq> Nil_object
     then andThen (of_sum (getAltClass STRSXP)) (\<lambda>alt_class.
            andThen (new_string_list slot1) (\<lambda>data.
              ok (Shared_string \<lparr>ss_class = alt_class, ss_data = data, ss_info = slot2, ss_attributes = R_NilValue\<rparr>)))
     else andThen (warn (''Fail to unserialize STRSXP for its internal data is corrupted'' @ nl))
            (\<lambda>_. ok Nil_string))"

end
