(* ===== verification/CInterface.thy ===== *)
theory CInterface
  imports SharedString
begin

text \<open>
  The functions R calls (\<open>src/C_interface.cpp\<close>), the slots of the data information
  (\<open>src/altrepMacro.h\<close>, \<open>src/altrep.cpp\<close>), the ALTREP method tables
  (\<open>src/altrepRegistration.cpp\<close>), the inspect methods and the print switches of
  \<open>src/utils.cpp\<close>.
\<close>

section \<open>Slots of the data information\<close>

definition dataInfoNames :: "string list" where
  "dataInfoNames = [''dataId'', ''length'', ''totalSize'', ''dataType'', ''ownData'',
     ''copyOnWrite'', ''sharedSubset'', ''sharedCopy'']"

definition stringDataInfoNames :: "string list" where
  "stringDataInfoNames = [''length'', ''unitSize'', ''totalSize'', ''dataType'', ''uniqueChar'', ''copyOnWrite'']"

definition INFO_DATAID :: nat where "INFO_DATAID = 0"
definition INFO_LENGTH :: nat where "INFO_LENGTH = 1"
definition INFO_TOTALSIZE :: nat where "INFO_TOTALSIZE = 2"
definition INFO_DATATYPE :: nat where "INFO_DATATYPE = 3"
definition INFO_OWNDATA :: nat where "INFO_OWNDATA = 4"
definition INFO_COPYONWRITE :: nat where "INFO_COPYONWRITE = 5"
definition INFO_SHAREDSUBSET :: nat where "INFO_SHAREDSUBSET = 6"
definition INFO_SHAREDCOPY :: nat where "INFO_SHAREDCOPY = 7"
definition INFO_SLOT_NUM :: nat where "INFO_SLOT_NUM = 8"

definition STR_INFO_LENGTH :: nat where "STR_INFO_LENGTH = 0"
definition STR_INFO_UNITSIZE :: nat where "STR_INFO_UNITSIZE = 1"
definition STR_INFO_TOTALSIZE :: nat where "STR_INFO_TOTALSIZE = 2"
definition STR_INFO_DATATYPE :: nat where "STR_INFO_DATATYPE = 3"
definition STR_INFO_UNIQUECHAR :: nat where "STR_INFO_UNIQUECHAR = 4"
definition STR_INFO_COPYONWRITE :: nat where "STR_INFO_COPYONWRITE = 5"
definition STR_INFO_SLOT_NUM :: nat where "STR_INFO_SLOT_NUM = 6"

text \<open>The value of a slot as R sees it, and the list that \<open>ALT_DATAINFO\<close> returns.\<close>

datatype slot_value = Slot_string string | Slot_number u64 | Slot_int int | Slot_bool bool | Slot_NULL

definition info_list :: "data_info \<Rightarrow> slot_value list" where
  "info_list d =
     (replicate INFO_SLOT_NUM Slot_NULL)
       [INFO_LENGTH := Slot_number (info_length d), INFO_TOTALSIZE := Slot_number (info_totalSize d),
        INFO_DATATYPE := Slot_int (info_dataType d), INFO_OWNDATA := Slot_bool (info_ownData d),
        INFO_COPYONWRITE := Slot_bool (info_copyOnWrite d), INFO_SHAREDSUBSET := Slot_bool (info_sharedSubset d),
        INFO_SHAREDCOPY := Slot_bool (info_sharedCopy d), INFO_DATAID := Slot_string (info_dataId d)]"

definition string_info_list :: "string_info \<Rightarrow> slot_value list" where
  "string_info_list d =
     (replicate STR_INFO_SLOT_NUM Slot_NULL)
       [STR_INFO_LENGTH := Slot_number (str_length d), STR_INFO_UNITSIZE := Slot_number (str_unitSize d),
        STR_INFO_TOTALSIZE := Slot_number (str_totalSize d), STR_INFO_DATATYPE := Slot_int (str_dataType d),
        STR_INFO_UNIQUECHAR := Slot_number (str_uniqueChar d),
        STR_INFO_COPYONWRITE := Slot_bool (str_copyOnWrite d)]"

definition getDataInfoTemplate :: "(string \<times> slot_value) list" where
  "getDataInfoTemplate = zip dataInfoNames (replicate INFO_SLOT_NUM Slot_NULL)"

definition getStringDataInfoTemplate :: "(string \<times> slot_value) list" where
  "getStringDataInfoTemplate = zip stringDataInfoNames (replicate STR_INFO_SLOT_NUM Slot_NULL)"

lemmas info_slots = INFO_DATAID_def INFO_LENGTH_def INFO_TOTALSIZE_def INFO_DATATYPE_def INFO_OWNDATA_def
  INFO_COPYONWRITE_def INFO_SHAREDSUBSET_def INFO_SHAREDCOPY_def INFO_SLOT_NUM_def
  STR_INFO_LENGTH_def STR_INFO_UNITSIZE_def STR_INFO_TOTALSIZE_def STR_INFO_DATATYPE_def
  STR_INFO_UNIQUECHAR_def STR_INFO_COPYONWRITE_def STR_INFO_SLOT_NUM_def

section \<open>ALTREP classes and R objects\<close>

text \<open>An ALTREP class is one of this package or of another one (R's wrappers, for example).\<close>

datatype altrep_class = This_package alt_class | Other_class string

text \<open>\<open>TYPEOF\<close>, and for an ALTREP object its class and its first data slot.\<close>

datatype sexp = Standard int | Altrep int altrep_class sexp

definition C_ALTREP :: "sexp \<Rightarrow> bool" where
  "C_ALTREP x = (case x of Standard type \<Rightarrow> False | Altrep type cls data1 \<Rightarrow> True)"

fun C_isShared :: "sexp \<Rightarrow> bool" where
  "C_isShared (Standard type) = False"
| "C_isShared (Altrep type cls data1) =
     (let result = (if type \<in> {REALSXP, INTSXP, LGLSXP, RAWSXP, CPLXSXP, STRSXP}
                    then (case getAltClass type of Inl e \<Rightarrow> False | Inr alt_class \<Rightarrow> cls = This_package alt_class)
                    else False)
      in if \<not> result then C_isShared data1 else result)"

text \<open>An object inside its wrappers, outermost first.\<close>

fun unwrap_chain :: "sexp \<Rightarrow> sexp list" where
  "unwrap_chain (Standard type) = [Standard type]"
| "unwrap_chain (Altrep type cls data1) = Altrep type cls data1 # unwrap_chain data1"

definition is_shared_vector :: "sexp \<Rightarrow> bool" where
  "is_shared_vector x = (case x of Altrep type (This_package cls) data1 \<Rightarrow> class_type cls = type | _ \<Rightarrow> False)"

lemma getAltClass_iff: "getAltClass type = Inr cls \<longleftrightarrow> class_type cls = type"
proof
  assume "class_type cls = type"
  then show "getAltClass type = Inr cls"
    by (cases cls) (auto simp: getAltClass_def sexp_types)
qed (rule getAltClass_type)

lemma class_type_range: "class_type cls \<in> {REALSXP, INTSXP, LGLSXP, RAWSXP, CPLXSXP, STRSXP}"
  by (cases cls) simp_all

lemma getAltClass_is_shared:
  "(case getAltClass type of Inl e \<Rightarrow> False | Inr alt_class \<Rightarrow> cls = This_package alt_class) \<longleftrightarrow>
   (\<exists>c. cls = This_package c \<and> class_type c = type)"
  unfolding getAltClass_iff [symmetric] by (cases "getAltClass type") auto

lemma if_guard: "(A \<longleftrightarrow> E) \<Longrightarrow> (E \<Longrightarrow> M) \<Longrightarrow> (if M then E else False) \<longleftrightarrow> A"
  by auto

lemma C_isShared_chain: "C_isShared x \<longleftrightarrow> (\<exists>y \<in> set (unwrap_chain x). is_shared_vector y)"
proof (induction x)
  case (Standard type)
  then show ?case by (simp add: is_shared_vector_def)
next
  case (Altrep type cls data1)
  have guard: "(if type \<in> {REALSXP, INTSXP, LGLSXP, RAWSXP, CPLXSXP, STRSXP}
      then \<exists>c. cls = This_package c \<and> class_type c = type else False) \<longleftrightarrow> is_shared_vector (Altrep type cls data1)"
  proof (rule if_guard)
    show "is_shared_vector (Altrep type cls data1) \<longleftrightarrow> (\<exists>c. cls = This_package c \<and> class_type c = type)"
      by (cases cls) (simp_all add: is_shared_vector_def)
    show "type \<in> {REALSXP, INTSXP, LGLSXP, RAWSXP, CPLXSXP, STRSXP}" if "\<exists>c. cls = This_package c \<and> class_type c = type"
      using class_type_range that by blast
  qed
  show ?case
    unfolding C_isShared.simps Let_def getAltClass_is_shared unwrap_chain.simps list.set guard
    using Altrep by simp
qed

section \<open>Method tables\<close>

datatype altrep_method =
    Inspect | Length | Duplicate | Unserialize | Serialized_state
  | Dataptr | Dataptr_or_null | Extract_subset | Elt | Set_elt

record registration =
  reg_class_name :: string
  reg_methods :: "altrep_method \<Rightarrow> string option"

definition ALT_COMMOM_REGISTRATION :: "string \<Rightarrow> registration" where
  "ALT_COMMOM_REGISTRATION class_name =
     \<lparr>reg_class_name = class_name,
      reg_methods = Map.empty
        (Inspect \<mapsto> ''sharedVector_Inspect'', Length \<mapsto> ''sharedVector_length'',
         Duplicate \<mapsto> ''sharedVector_duplicate'', Unserialize \<mapsto> ''sharedVector_unserialize'',
         Serialized_state \<mapsto> ''sharedVector_serialized_state'', Dataptr \<mapsto> ''sharedVector_dataptr'',
         Dataptr_or_null \<mapsto> ''sharedVector_dataptr_or_null'', Extract_subset \<mapsto> ''sharedVector_subset'')\<rparr>"

definition string_registration :: "string \<Rightarrow> registration" where
  "string_registration class_name =
     \<lparr>reg_class_name = class_name,
      reg_methods = Map.empty
        (Inspect \<mapsto> ''sharedString_Inspect'', Length \<mapsto> ''sharedString_length'',
         Duplicate \<mapsto> ''sharedString_duplicate'', Unserialize \<mapsto> ''sharedString_unserialize'',
         Serialized_state \<mapsto> ''sharedString_serialized_state'', Dataptr \<mapsto> ''sharedString_dataptr'',
         Dataptr_or_null \<mapsto> ''sharedString_dataptr_or_null'', Elt \<mapsto> ''sharedString_elt'',
         Set_elt \<mapsto> ''sharedString_set_elt'')\<rparr>"

definition init_class :: "int \<Rightarrow> registration \<Rightarrow> (alt_class \<rightharpoonup> registration) \<Rightarrow> (alt_class \<rightharpoonup> registration)" where
  "init_class type reg classes =
     (case getAltClass type of Inl e \<Rightarrow> classes | Inr altrep_class \<Rightarrow> classes(altrep_class \<mapsto> reg))"

definition registered_classes :: "alt_class \<rightharpoonup> registration" where
  "registered_classes =
     (init_class REALSXP (ALT_COMMOM_REGISTRATION ''shared_real'') \<circ>
      init_class INTSXP (ALT_COMMOM_REGISTRATION ''shared_int'') \<circ>
      init_class LGLSXP (ALT_COMMOM_REGISTRATION ''shared_logical'') \<circ>
      init_class RAWSXP (ALT_COMMOM_REGISTRATION ''shared_raw'') \<circ>
      init_class CPLXSXP (ALT_COMMOM_REGISTRATION ''shared_complex'') \<circ>
      init_class STRSXP (string_registration ''shared_string'')) Map.empty"

section \<open>Calls from R\<close>

definition C_getDataInfoTemplate :: "(string \<times> slot_value) list" where
  "C_getDataInfoTemplate = getDataInfoTemplate"

definition C_getStringDataInfoTemplate :: "(string \<times> slot_value) list" where
  "C_getStringDataInfoTemplate = getStringDataInfoTemplate"

definition C_createEmptySharedObject ::
  "'os boost \<Rightarrow> int \<Rightarrow> u64 \<Rightarrow> bool \<Rightarrow> bool \<Rightarrow> bool \<Rightarrow> attributes \<Rightarrow> ('os session, shared_vector) exec" where
  "C_createEmptySharedObject B type len copyOnWrite sharedSubset sharedCopy attribs =
     createEmptySharedObject B type len copyOnWrite sharedSubset sharedCopy attribs"

definition C_createSharedObjectFromSource ::
  "'os boost \<Rightarrow> source_vector \<Rightarrow> bool \<Rightarrow> bool \<Rightarrow> bool \<Rightarrow> attributes \<Rightarrow> ('os session, shared_vector) exec" where
  "C_createSharedObjectFromSource B x copyOnWrite sharedSubset sharedCopy attribs =
     createSharedObjectFromSource B x copyOnWrite sharedSubset sharedCopy attribs"

definition C_createSharedStringFromSource ::
  "'os boost \<Rightarrow> charsxp list \<Rightarrow> bool \<Rightarrow> attributes \<Rightarrow> ('os session, shared_string) exec" where
  "C_createSharedStringFromSource B x copyOnWrite attribs = createSharedStringFromSource B x copyOnWrite attribs"

definition C_readSharedObject :: "'os boost \<Rightarrow> data_info \<Rightarrow> ('os session, shared_vector) exec" where
  "C_readSharedObject B dataInfo = readSharedObject B dataInfo"

definition C_unshare :: "'os boost \<Rightarrow> shared_vector \<Rightarrow> attributes \<Rightarrow> ('os session, regular_vector) exec" where
  "C_unshare B x attribs = unshare B x attribs"

definition C_unshareString :: "'os boost \<Rightarrow> shared_string \<Rightarrow> attributes \<Rightarrow> ('os session, regular_string) exec" where
  "C_unshareString B x attribs = unshareString B x attribs"

definition C_setSharedObjectOwership :: "shared_vector \<Rightarrow> bool \<Rightarrow> ('os session, unit) exec" where
  "C_setSharedObjectOwership x own = autoReleaseAfterUse_set (sv_tag x) own"

definition C_getSharedObjectOwership :: "shared_vector \<Rightarrow> ('os session, bool) exec" where
  "C_getSharedObjectOwership x = autoReleaseAfterUse_get (sv_tag x)"

definition C_initialPkgData :: "'os boost \<Rightarrow> ('os session, unit) exec" where
  "C_initialPkgData B = initialPkgData B"

definition C_releasePkgData :: "'os boost \<Rightarrow> 'os session \<Rightarrow> 'os session" where
  "C_releasePkgData B = releasePkgData B"

text \<open>The \<open>uint64_t\<close> becomes an \<open>int32_t\<close> without a check.\<close>

definition C_getLastIndex :: "'os boost \<Rightarrow> ('os session, int) exec" where
  "C_getLastIndex B = andThen (getLastIndex B) (\<lambda>x. ok (sint (ucast x :: i32)))"

text \<open>The default name is the empty string.\<close>

definition C_allocateSharedMemory :: "'os boost \<Rightarrow> u64 \<Rightarrow> string \<Rightarrow> ('os session, string) exec" where
  "C_allocateSharedMemory B size_in_byte name = allocateSharedMemory B size_in_byte name"

text \<open>The external pointer of this call has no finalizer.\<close>

definition C_mapSharedMemory :: "'os boost \<Rightarrow> string \<Rightarrow> ('os session, ptr) exec" where
  "C_mapSharedMemory B ident = mapSharedMemory B ident"

definition C_unmapSharedMemory :: "'os boost \<Rightarrow> string \<Rightarrow> 'os session \<Rightarrow> 'os session" where
  "C_unmapSharedMemory B ident = unmapSharedMemory B ident"

definition C_freeSharedMemory :: "'os boost \<Rightarrow> string \<Rightarrow> 'os session \<Rightarrow> 'os session" where
  "C_freeSharedMemory B ident = freeSharedMemory B ident"

definition C_hasSharedMemory :: "'os boost \<Rightarrow> string \<Rightarrow> ('os session, bool) exec" where
  "C_hasSharedMemory B ident = hasSharedMemory B ident"

definition C_getSharedMemorySize :: "'os boost \<Rightarrow> string \<Rightarrow> ('os session, u64) exec" where
  "C_getSharedMemorySize B ident = getSharedMemorySize B ident"

definition C_getSharedMemoryPath :: "'os boost \<Rightarrow> 'os session \<Rightarrow> string" where
  "C_getSharedMemoryPath B w = getSharedMemoryPath B (machine w)"

lemmas C_calls = C_createEmptySharedObject_def C_createSharedObjectFromSource_def C_createSharedStringFromSource_def
  C_readSharedObject_def C_unshare_def C_unshareString_def C_setSharedObjectOwership_def C_getSharedObjectOwership_def
  C_initialPkgData_def C_getLastIndex_def C_allocateSharedMemory_def C_hasSharedMemory_def C_getSharedMemorySize_def

section \<open>Single calls of R\<close>

text \<open>
  Functions that make one call of R's API and nothing else. R's heap and these calls are parameters; an
  object is its address.
\<close>

record 'r r_api =
  XLENGTH :: "nat \<Rightarrow> 'r \<Rightarrow> int"
  R_altrep_data1 :: "nat \<Rightarrow> 'r \<Rightarrow> nat"
  R_altrep_data2 :: "nat \<Rightarrow> 'r \<Rightarrow> nat"
  R_set_altrep_data1 :: "nat \<Rightarrow> nat \<Rightarrow> 'r \<Rightarrow> 'r"
  R_set_altrep_data2 :: "nat \<Rightarrow> nat \<Rightarrow> 'r \<Rightarrow> 'r"
  OBJECT :: "nat \<Rightarrow> 'r \<Rightarrow> int"
  SET_OBJECT :: "nat \<Rightarrow> int \<Rightarrow> 'r \<Rightarrow> 'r"
  IS_S4_OBJECT :: "nat \<Rightarrow> 'r \<Rightarrow> bool"
  SET_S4_OBJECT :: "nat \<Rightarrow> 'r \<Rightarrow> 'r"
  UNSET_S4_OBJECT :: "nat \<Rightarrow> 'r \<Rightarrow> 'r"

definition C_xlength :: "'r r_api \<Rightarrow> nat \<Rightarrow> 'r \<Rightarrow> int" where
  "C_xlength R x = XLENGTH R x"

definition C_getAltData1 :: "'r r_api \<Rightarrow> nat \<Rightarrow> 'r \<Rightarrow> nat" where
  "C_getAltData1 R x = R_altrep_data1 R x"

definition C_getAltData2 :: "'r r_api \<Rightarrow> nat \<Rightarrow> 'r \<Rightarrow> nat" where
  "C_getAltData2 R x = R_altrep_data2 R x"

definition C_setAltData1 :: "'r r_api \<Rightarrow> nat \<Rightarrow> nat \<Rightarrow> 'r \<Rightarrow> 'r" where
  "C_setAltData1 R x d = R_set_altrep_data1 R x d"

definition C_setAltData2 :: "'r r_api \<Rightarrow> nat \<Rightarrow> nat \<Rightarrow> 'r \<Rightarrow> 'r" where
  "C_setAltData2 R x d = R_set_altrep_data2 R x d"

definition C_getObject :: "'r r_api \<Rightarrow> nat \<Rightarrow> 'r \<Rightarrow> int" where
  "C_getObject R x = OBJECT R x"

definition C_setObject :: "'r r_api \<Rightarrow> nat \<Rightarrow> int \<Rightarrow> 'r \<Rightarrow> 'r" where
  "C_setObject R x i = SET_OBJECT R x i"

definition C_ISS4 :: "'r r_api \<Rightarrow> nat \<Rightarrow> 'r \<Rightarrow> bool" where
  "C_ISS4 R x = IS_S4_OBJECT R x"

definition C_SETS4 :: "'r r_api \<Rightarrow> nat \<Rightarrow> 'r \<Rightarrow> 'r" where
  "C_SETS4 R x = SET_S4_OBJECT R x"

definition C_UNSETS4 :: "'r r_api \<Rightarrow> nat \<Rightarrow> 'r \<Rightarrow> 'r" where
  "C_UNSETS4 R x = UNSET_S4_OBJECT R x"

definition C_isSameObject :: "nat \<Rightarrow> nat \<Rightarrow> bool" where
  "C_isSameObject x y \<longleftrightarrow> x = y"

section \<open>Inspecting\<close>

definition show_bool :: "bool \<Rightarrow> string" where
  "show_bool b = (if b then ''1'' else ''0'')"

definition sharedVector_Inspect :: "shared_vector \<Rightarrow> string \<times> bool" where
  "sharedVector_Inspect x =
     ('' (len='' @ to_string (unat (sharedVector_length x)) @ '', type='' @ show_int (class_type (sv_class x)) @
      '', COW='' @ show_bool (info_copyOnWrite (sv_info x)) @ '', SC='' @ show_bool (info_sharedCopy (sv_info x)) @
      '', SS='' @ show_bool (info_sharedSubset (sv_info x)) @ '') shared object ID:'' @ info_dataId (sv_info x) @ nl,
      True)"

definition sharedString_Inspect :: "shared_string \<Rightarrow> string \<times> bool" where
  "sharedString_Inspect x =
     ('' (len='' @ to_string (unat (sharedString_length x)) @ '', COW='' @
      show_bool (str_copyOnWrite (ss_info x)) @ '') shared string object'' @ nl, True)"

section \<open>Print switches\<close>

record print_flags =
  sharedMemoryPrintEnable :: bool
  altrepPrintEnable :: bool
  packagePrintEnable :: bool

definition print_flags_init :: print_flags where
  "print_flags_init =
     \<lparr>sharedMemoryPrintEnable = False, altrepPrintEnable = False, packagePrintEnable = False\<rparr>"

definition C_setSharedMemoryPrint :: "bool \<Rightarrow> print_flags \<Rightarrow> print_flags" where
  "C_setSharedMemoryPrint x f = f\<lparr>sharedMemoryPrintEnable := x\<rparr>"

definition C_setAltrepPrint :: "bool \<Rightarrow> print_flags \<Rightarrow> print_flags" where
  "C_setAltrepPrint x f = f\<lparr>altrepPrintEnable := x\<rparr>"

definition C_setPackagePrint :: "bool \<Rightarrow> print_flags \<Rightarrow> print_flags" where
  "C_setPackagePrint x f = f\<lparr>packagePrintEnable := x\<rparr>"

text \<open>What a print call adds to the console.\<close>

definition sharedMemoryPrint :: "print_flags \<Rightarrow> string \<Rightarrow> string" where
  "sharedMemoryPrint f text = (if sharedMemoryPrintEnable f then text else [])"

definition altrepPrint :: "print_flags \<Rightarrow> string \<Rightarrow> string" where
  "altrepPrint f text = (if altrepPrintEnable f then text else [])"

definition packagePrint :: "print_flags \<Rightarrow> string \<Rightarrow> string" where
  "packagePrint f text = (if packagePrintEnable f then text else [])"

end
