(* ===== verification/Session.thy ===== *)
theory Session
  imports Lifecycle CInterface
begin

text \<open>
  Everything R code can do with shared objects, as requests served one after another, with the
  garbage collector and other processes in between; and the invariant of a session: the live
  external pointers and the pointer to the shared counter are exactly the references the registry
  counts. So no pointer R holds is ever unmapped behind its back.
\<close>

section \<open>Withdrawing a segment\<close>

text \<open>\<open>freeSharedMemory\<close> ends all references at once.\<close>

locale mapping_store_free = mapping_store acquire release addr refs inv
  for acquire :: "string \<Rightarrow> ('w, ptr) exec" and release :: "string \<Rightarrow> 'w \<Rightarrow> 'w"
    and addr :: "'w \<Rightarrow> string \<Rightarrow> ptr option" and refs :: "'w \<Rightarrow> string \<Rightarrow> int" and inv :: "'w \<Rightarrow> bool" +
  fixes withdraw :: "string \<Rightarrow> 'w \<Rightarrow> 'w"
  assumes withdraw_ok: "inv w \<Longrightarrow> inv (withdraw k w) \<and> addr (withdraw k w) = (addr w)(k := None) \<and>
    refs (withdraw k w) = (refs w)(k := 0)"
begin

lemma count_other_keys:
  "count_list (map snd (filter (\<lambda>(p, l). l \<noteq> k) pins)) l = (if l = k then 0 else count_list (map snd pins) l)"
  by (induction pins) auto

lemma pin_withdraw:
  assumes "pinned w pins"
  shows "pinned (withdraw k w) (filter (\<lambda>(p, l). l \<noteq> k) pins)"
proof -
  have old: "inv w" "\<And>l. refs w l = int (count_list (map snd pins) l)" "\<And>q l. (q, l) \<in> set pins \<Longrightarrow> addr w l = Some q"
    using assms by (auto simp: pinned_def)
  show ?thesis
    using withdraw_ok [OF old(1), of k] old(2,3) by (intro pinnedI) (auto simp: count_other_keys)
qed

end

interpretation store_free: mapping_store_free "mapSharedMemoryInternal B" "unmapSharedMemoryInternal B"
  mapped_at counter_at counted "freeSharedMemoryInternal B"
  for B :: "'os boost"
proof (unfold_locales, goal_cases)
  case (1 w k)
  show ?case
  proof (cases "sharedObjectList w k")
    case None
    then have "mapped_at w k = None"
      by (simp add: mapped_at_def)
    moreover from this have "counter_at w k = 0"
      using 1 by (auto simp: counted_def dest!: spec [of _ k])
    ultimately show ?thesis
      using 1 None by (auto simp: freeSharedMemoryInternal_def keyInMap_def Let_def counted_def registry_ok_def)
  next
    case (Some so)
    have fields: "counter_at (freeSharedMemoryInternal B k w) = (counter_at w)(k := 0)"
      "mapped_at (freeSharedMemoryInternal B k w) = (mapped_at w)(k := None)"
      by (simp_all add: freeSharedMemoryInternal_def keyInMap_def erase_object_def Some Let_def
          counter_at_def mapped_at_def fun_eq_iff)
    have "registry_ok (freeSharedMemoryInternal B k w)"
      using counted_registry_ok [OF 1]
      by (auto simp: freeSharedMemoryInternal_def keyInMap_def erase_object_def Some Let_def registry_ok_def)
    then show ?thesis
      using 1 fields by (auto simp: counted_def)
  qed
qed

section \<open>The invariant of a session\<close>

definition pointer_pins :: "'os session \<Rightarrow> (ptr \<times> string) list" where
  "pointer_pins w = map (\<lambda>(p, ident). (p, getKey ident)) (extptrs w)"

definition session_pins :: "'os session \<Rightarrow> (ptr \<times> string) list" where
  "session_pins w = pointer_pins w @ (case lastId w of None \<Rightarrow> [] | Some p \<Rightarrow> [(p, SHARED_OBJECT_COUNTER)])"

definition session_ok :: "'os session \<Rightarrow> bool" where
  "session_ok w \<longleftrightarrow> store.pinned w (session_pins w)"

lemma session_init_ok: "session_ok (session_init m)"
proof -
  have "counted (session_init m)"
    by (simp add: counted_def registry_ok_def session_init_def world_init_def world.defs counter_at_def mapped_at_def)
  then show ?thesis
    by (simp add: session_ok_def session_pins_def pointer_pins_def session_init_def world_init_def world.defs
        counter_at_def store.pinned_Nil)
qed

lemma pinned_quiet:
  assumes "quiet w w'" and "store.pinned w pins"
  shows "store.pinned w' pins"
proof -
  have "counted w"
    using assms(2) by (rule store.pinned_inv)
  then have "counted w'" "mapped_at w' = mapped_at w" "counter_at w' = counter_at w"
    using assms(1) by (simp_all add: quiet_def)
  then show ?thesis
    using assms(2) by (simp add: store.pinned_def)
qed

lemma pins_quiet: "quiet w w' \<Longrightarrow> counted w \<Longrightarrow> session_pins w' = session_pins w"
  by (simp add: quiet_def session_pins_def pointer_pins_def)

lemma session_counted: "session_ok w \<Longrightarrow> counted w"
  unfolding session_ok_def by (rule store.pinned_inv)

lemma session_quiet: "quiet w w' \<Longrightarrow> session_ok w \<Longrightarrow> session_ok w'"
  using pinned_quiet pins_quiet session_counted unfolding session_ok_def by metis

section \<open>Calls that keep the invariant\<close>

definition defined :: "so_error + 'a \<Rightarrow> bool" where
  "defined r \<longleftrightarrow> (\<forall>why. r \<noteq> Inl (Undefined why))"

definition session_safe :: "('os session, 'a) exec \<Rightarrow> bool" where
  "session_safe m \<longleftrightarrow> (\<forall>w r w'. session_ok w \<longrightarrow> m w = (r, w') \<longrightarrow> defined r \<longrightarrow> session_ok w')"

named_theorems safe_intros \<open>calls that keep the session's invariant\<close>

lemma session_safeI:
  "(\<And>w r w'. session_ok w \<Longrightarrow> m w = (r, w') \<Longrightarrow> defined r \<Longrightarrow> session_ok w') \<Longrightarrow> session_safe m"
  by (simp add: session_safe_def)

lemma session_safeD: "session_safe m \<Longrightarrow> session_ok w \<Longrightarrow> m w = (r, w') \<Longrightarrow> defined r \<Longrightarrow> session_ok w'"
  by (simp add: session_safe_def)

lemma defined_simps [simp]:
  "defined (Inr x)" "defined (Inl (CppError what))" "defined (Inl (RError msg))"
  "\<not> defined (Inl (Undefined why))" "defined (Inl OutOfFuel)"
  by (simp_all add: defined_def)

lemma quiet_safe: "quiet_call m \<Longrightarrow> session_safe m"
  using quiet_callD session_quiet by (blast intro: session_safeI)

lemma safe_andThen [safe_intros]:
  assumes "session_safe m" and "\<And>x. session_safe (f x)"
  shows "session_safe (andThen m f)"
proof (rule session_safeI)
  fix w r w'
  assume w: "session_ok w" and run: "andThen m f w = (r, w')" and d: "defined r"
  obtain r1 w1 where m: "m w = (r1, w1)"
    by fastforce
  show "session_ok w'"
  proof (cases r1)
    case (Inl e)
    then have "w' = w1" "defined r1"
      using run m d by (auto simp: defined_def)
    then show ?thesis
      using session_safeD [OF assms(1) w m] by simp
  next
    case (Inr x)
    then have "f x w1 = (r, w')" "session_ok w1"
      using run m session_safeD [OF assms(1) w m] by simp_all
    then show ?thesis
      using session_safeD [OF assms(2)] d by blast
  qed
qed

lemma safe_catch [safe_intros]:
  assumes "session_safe m" and "\<And>what. session_safe (h what)"
  shows "session_safe (catchCpp m h)"
proof (rule session_safeI)
  fix w r w'
  assume w: "session_ok w" and run: "catchCpp m h w = (r, w')" and d: "defined r"
  obtain r1 w1 where m: "m w = (r1, w1)"
    by fastforce
  show "session_ok w'"
  proof (cases "\<exists>what. r1 = Inl (CppError what)")
    case True
    then obtain what where "h what w1 = (r, w')" "session_ok w1"
      using run m session_safeD [OF assms(1) w m] by (auto simp: catchCpp_run)
    then show ?thesis
      using session_safeD [OF assms(2)] d by blast
  next
    case False
    then have "r = r1" "w' = w1"
      using run m by (auto simp: catchCpp_run split: sum.splits so_error.splits)
    then show ?thesis
      using session_safeD [OF assms(1) w m] d by simp
  qed
qed

lemma safe_if [safe_intros]: "session_safe m \<Longrightarrow> session_safe m' \<Longrightarrow> session_safe (if b then m else m')"
  by simp

lemma safe_forEach [safe_intros]: "(\<And>i. session_safe (body i)) \<Longrightarrow> session_safe (forEach is body)"
  by (induction "is") (auto intro: safe_intros quiet_safe quiet_intros)

lemma safe_option [safe_intros]:
  "session_safe m \<Longrightarrow> (\<And>x. session_safe (f x)) \<Longrightarrow> session_safe (case a of None \<Rightarrow> m | Some x \<Rightarrow> f x)"
  by (cases a) simp_all

subsection \<open>Mapping for an external pointer\<close>

lemma map_keeps:
  fixes w :: "'os session"
  assumes "mapSharedMemoryInternal B key w = (r, w')"
  shows "extptrs w' = extptrs w \<and> lastId w' = lastId w"
proof (cases r)
  case (Inl e)
  then show ?thesis
    using map_internal_Inl [of B key w e w'] assms by auto
next
  case (Inr p)
  then show ?thesis
    using map_internal_Inr [of B key w p w'] assms by auto
qed

lemma map_pin:
  fixes w :: "'os session"
  assumes "session_ok w" and "mapSharedMemoryInternal B key w = (Inr p, w')"
  shows "store.pinned w' ((p, key) # session_pins w')"
proof -
  have "session_pins w' = session_pins w"
    using map_keeps [OF assms(2)] by (simp add: session_pins_def pointer_pins_def)
  then show ?thesis
    using store.pin_acquire [OF assms(1) [unfolded session_ok_def] assms(2)] by simp
qed

lemma map_err:
  fixes w :: "'os session"
  assumes "session_ok w" and "mapSharedMemoryInternal B key w = (Inl e, w')"
  shows "session_ok w'"
proof -
  have "session_pins w' = session_pins w"
    using map_keeps [OF assms(2)] by (simp add: session_pins_def pointer_pins_def)
  then show ?thesis
    using store.pin_acquire_err [OF assms(1) [unfolded session_ok_def] assms(2)] by (simp add: session_ok_def)
qed

lemma make_external_ptr_pin:
  assumes "store.pinned w ((p, getKey ident) # session_pins w)"
  shows "session_ok (w\<lparr>extptrs := (p, ident) # extptrs w\<rparr>)"
  using assms by (simp add: session_ok_def session_pins_def pointer_pins_def store.pinned_def)

lemma safe_map_pin [safe_intros]:
  assumes "\<And>p. session_safe (f p)"
  shows "session_safe (andThen (mapSharedMemory B ident) (\<lambda>p. andThen (make_external_ptr p ident) (\<lambda>_. f p)))"
proof (rule session_safeI)
  fix w r w'
  assume w: "session_ok w" and d: "defined r"
    and run: "andThen (mapSharedMemory B ident) (\<lambda>p. andThen (make_external_ptr p ident) (\<lambda>_. f p)) w = (r, w')"
  obtain r1 w1 where m: "mapSharedMemory B ident w = (r1, w1)"
    by fastforce
  show "session_ok w'"
  proof (cases r1)
    case (Inl e)
    then show ?thesis
      using run m map_err [OF w] by (simp add: mapSharedMemory_def)
  next
    case (Inr p)
    then have "f p (w1\<lparr>extptrs := (p, ident) # extptrs w1\<rparr>) = (r, w')"
      using run m by (simp add: andThen_run make_external_ptr_def)
    then show ?thesis
      using session_safeD [OF assms] make_external_ptr_pin [OF map_pin [OF w]] m Inr d
      unfolding mapSharedMemory_def by blast
  qed
qed

text \<open>Setting the ownership of a segment that was just mapped cannot fail.\<close>

lemma own_mapped:
  fixes w :: "'os session"
  assumes "session_ok w" and "mapSharedMemory B ident w = (Inr p, w')"
  shows "\<exists>w''. autoReleaseAfterUse_set ident b w' = (Inr (), w'') \<and> quiet w' w''"
proof -
  have "mapped_at w' (getKey ident) = Some p"
    using map_pin [OF assms [unfolded mapSharedMemory_def]] by (rule store.pin_addr) simp
  then obtain so where "sharedObjectList w' (getKey ident) = Some so"
    by (auto simp: mapped_at_def split: option.splits)
  then have "\<exists>w''. autoReleaseAfterUse_set ident b w' = (Inr (), w'')"
    by (simp add: autoReleaseAfterUse_set_def)
  then show ?thesis
    using quiet_callD [OF quiet_own] by blast
qed

lemma safe_map_own_pin [safe_intros]:
  assumes "\<And>p. session_safe (f p)"
  shows "session_safe (andThen (mapSharedMemory B ident) (\<lambda>p. andThen (autoReleaseAfterUse_set ident b)
    (\<lambda>_. andThen (make_external_ptr p ident) (\<lambda>_. f p))))"
proof (rule session_safeI)
  fix w r w'
  assume w: "session_ok w" and d: "defined r"
    and run: "andThen (mapSharedMemory B ident) (\<lambda>p. andThen (autoReleaseAfterUse_set ident b)
      (\<lambda>_. andThen (make_external_ptr p ident) (\<lambda>_. f p))) w = (r, w')"
  obtain r1 w1 where m: "mapSharedMemory B ident w = (r1, w1)"
    by fastforce
  show "session_ok w'"
  proof (cases r1)
    case (Inl e)
    then show ?thesis
      using run m map_err [OF w] by (simp add: mapSharedMemory_def)
  next
    case (Inr p)
    obtain w2 where own: "autoReleaseAfterUse_set ident b w1 = (Inr (), w2)" and q: "quiet w1 w2"
      using own_mapped [OF w m [unfolded Inr]] by blast
    note pinned = map_pin [OF w m [unfolded Inr mapSharedMemory_def]]
    have "session_pins w2 = session_pins w1"
      using pins_quiet [OF q store.pinned_inv [OF pinned]] .
    then have "session_ok (w2\<lparr>extptrs := (p, ident) # extptrs w2\<rparr>)"
      using pinned_quiet [OF q pinned] by (intro make_external_ptr_pin) simp
    moreover have "f p (w2\<lparr>extptrs := (p, ident) # extptrs w2\<rparr>) = (r, w')"
      using run m Inr own by (simp add: andThen_run make_external_ptr_def)
    ultimately show ?thesis
      using session_safeD [OF assms] d by blast
  qed
qed

subsection \<open>The operations\<close>

lemmas quiet_safes = quiet_intros [THEN quiet_safe]

lemma safe_createEmpty [safe_intros]:
  "session_safe (createEmptySharedObject B type len cow sub cp a)"
  unfolding createEmptySharedObject_def Let_def by (intro safe_intros quiet_safes)

lemma safe_copy_into [safe_intros]:
  "session_safe (case d of Some d \<Rightarrow> andThen (read_data B d n) (store_mem B p)
     | None \<Rightarrow> on_machine (copyData B p t rs))"
  by (intro safe_intros quiet_safes)

lemma safe_createFromSource [safe_intros]:
  "session_safe (createSharedObjectFromSource B x cow sub cp a)"
  unfolding createSharedObjectFromSource_def by (intro safe_intros quiet_safes)

lemma safe_read [safe_intros]: "session_safe (readSharedObject B info)"
  unfolding readSharedObject_def by (intro safe_intros quiet_safes)

lemma safe_duplicate [safe_intros]: "session_safe (sharedVector_duplicate B x deep)"
  unfolding sharedVector_duplicate_def Let_def by (intro safe_intros quiet_safes)

lemma safe_unserialize [safe_intros]: "session_safe (sharedVector_unserialize B state)"
  by (cases state; simp only: sharedVector_unserialize_def serial.case; intro safe_intros quiet_safes)

lemma safe_subset [safe_intros]: "session_safe (sharedVector_subset B x indx)"
  unfolding sharedVector_subset_def Let_def by (intro safe_intros quiet_safes)

text \<open>Shared strings: their lists are not part of what the invariant speaks of.\<close>

lemma counted_string_lists [simp]: "counted (w\<lparr>string_lists := d\<rparr>) = counted w"
  by (simp add: counted_def registry_ok_def mapped_at_def counter_at_def)

lemma quiet_string_lists: "quiet w (w\<lparr>string_lists := d\<rparr>)"
  by (simp add: quiet_def mapped_at_def counter_at_def fun_eq_iff)

lemma quiet_new_string_list [quiet_intros]: "quiet_call (new_string_list d)"
  by (rule quiet_callI) (auto simp: new_string_list_def quiet_string_lists)

lemma quiet_get_string_list [quiet_intros]: "quiet_call (get_string_list a)"
  by (rule quiet_callI) (auto simp: get_string_list_def fail_run split: if_splits)

lemma quiet_set_string_list [quiet_intros]: "quiet_call (set_string_list a d)"
  by (rule quiet_callI) (auto simp: set_string_list_def quiet_string_lists)

lemma quiet_index_load [quiet_intros]: "quiet_call (index_load B ix off n)"
  by (cases ix) (auto simp: index_load_def intro: quiet_intros)

lemma quiet_index_store [quiet_intros]: "quiet_call (index_store B ix off bs)"
  by (cases ix) (auto simp: index_store_def intro: quiet_intros)

lemma quiet_STRING_ELT [quiet_intros]: "quiet_call (STRING_ELT vec i)"
  unfolding STRING_ELT_def by (intro quiet_intros)

lemma quiet_charset_elt [quiet_intros]: "quiet_call (charset_elt B d u i)"
  unfolding charset_elt_def by (intro quiet_intros)

lemma quiet_read_strings [quiet_intros]: "quiet_call (read_strings B d u is)"
  by (induction "is") (auto intro!: quiet_intros)

lemma quiet_check_dataptr [quiet_intros]: "quiet_call (check_dataptr ix)"
  unfolding check_dataptr_def by (intro quiet_intros)

lemma quiet_option [quiet_intros]:
  "quiet_call m \<Longrightarrow> (\<And>x. quiet_call (f x)) \<Longrightarrow> quiet_call (case a of None \<Rightarrow> m | Some x \<Rightarrow> f x)"
  by (cases a) simp_all

lemma quiet_unshareString [quiet_intros]: "quiet_call (unshareString B x a)"
  unfolding unshareString_def by (intro quiet_intros)

lemma quiet_write_index [quiet_intros]: "quiet_call (write_index B p u m x)"
  unfolding write_index_def by (intro quiet_intros)

lemma quiet_string_dataptr [quiet_intros]: "quiet_call (sharedString_dataptr B x b)"
  unfolding sharedString_dataptr_def by (intro quiet_intros)

lemma quiet_string_elt [quiet_intros]: "quiet_call (sharedString_elt B x i)"
  unfolding sharedString_elt_def Let_def by (intro quiet_intros)

lemma quiet_string_set_elt [quiet_intros]: "quiet_call (sharedString_set_elt B x i v)"
  unfolding sharedString_set_elt_def Let_def by (intro quiet_intros)

lemma quiet_string_duplicate [quiet_intros]: "quiet_call (sharedString_duplicate B x deep)"
  unfolding sharedString_duplicate_def by (intro quiet_intros)

lemma quiet_string_serialized [quiet_intros]: "quiet_call (sharedString_serialized_state x)"
  unfolding sharedString_serialized_state_def by (intro quiet_intros)

lemma quiet_string_unserialize [quiet_intros]: "quiet_call (sharedString_unserialize s)"
  by (cases s) (auto simp: sharedString_unserialize_def intro!: quiet_intros)

lemmas quiet_string_safes = quiet_new_string_list [THEN quiet_safe] quiet_write_index [THEN quiet_safe]
  quiet_ok [THEN quiet_safe] quiet.preserves_fail [THEN quiet_safe] quiet.preserves_of_sum [THEN quiet_safe]

lemma safe_createString [safe_intros]: "session_safe (createSharedStringFromSource B x cow a)"
  unfolding createSharedStringFromSource_def Let_def by (intro safe_intros quiet_string_safes)

section \<open>The package data\<close>

lemma pins_counter:
  "store.pinned w ((p, SHARED_OBJECT_COUNTER) # session_pins w) \<Longrightarrow> lastId w = None \<Longrightarrow>
   session_ok (w\<lparr>lastId := Some p\<rparr>)"
  by (simp add: session_ok_def session_pins_def pointer_pins_def store.pinned_def)

lemma quiet_has_internal:
  "quiet_call (\<lambda>w. case SO_hasSharedMemory B key (machine w) of (b, m) \<Rightarrow> (Inr b, w\<lparr>machine := m\<rparr>))"
  by (rule quiet_callI) (auto split: prod.splits)

definition counter_pinned :: "so_error + ptr \<Rightarrow> 'os session \<Rightarrow> bool" where
  "counter_pinned r w \<longleftrightarrow> lastId w = None \<and> (case r of
     Inl e \<Rightarrow> session_ok w
   | Inr p \<Rightarrow> store.pinned w ((p, SHARED_OBJECT_COUNTER) # session_pins w))"

lemma map_counter_pin:
  assumes "session_ok w" and "lastId w = None" and "mapSharedMemoryInternal B SHARED_OBJECT_COUNTER w = (r, w')"
  shows "counter_pinned r w'"
proof (cases r)
  case (Inl e)
  then show ?thesis
    using map_err map_keeps [OF assms(3)] assms by (simp add: counter_pinned_def)
next
  case (Inr p)
  then show ?thesis
    using map_pin [OF assms(1) assms(3) [unfolded Inr]] map_keeps [OF assms(3)] assms(2)
    by (simp add: counter_pinned_def)
qed

lemma session_quiet_lastId: "quiet w w' \<Longrightarrow> session_ok w \<Longrightarrow> session_ok w' \<and> lastId w' = lastId w"
  using session_quiet session_counted by (auto simp: quiet_def)

lemma counter_pinned_quiet:
  assumes "quiet w w'" and "counter_pinned (Inr p) w"
  shows "counter_pinned (Inr p) w'"
proof -
  have old: "lastId w = None" "store.pinned w ((p, SHARED_OBJECT_COUNTER) # session_pins w)"
    using assms(2) by (simp_all add: counter_pinned_def)
  then have "counted w"
    by (blast intro: store.pinned_inv)
  then show ?thesis
    using assms(1) old pinned_quiet [OF assms(1) old(2)] pins_quiet [OF assms(1)]
    by (simp add: counter_pinned_def quiet_def)
qed

lemma map_and_reset_pin:
  assumes "session_ok w" and "lastId w = None" and "defined r"
    and "andThen (mapSharedMemoryInternal B SHARED_OBJECT_COUNTER)
      (\<lambda>p. andThen (store_counter B p 0) (\<lambda>_. ok p)) w = (r, w')"
  shows "counter_pinned r w'"
proof -
  obtain r1 w1 where m: "mapSharedMemoryInternal B SHARED_OBJECT_COUNTER w = (r1, w1)"
    by fastforce
  note pin = map_counter_pin [OF assms(1,2) m]
  show ?thesis
  proof (cases r1)
    case (Inl e)
    then show ?thesis
      using assms(4) m pin by (auto simp: counter_pinned_def)
  next
    case (Inr p)
    obtain r2 w2 where st: "store_counter B p 0 w1 = (r2, w2)"
      by fastforce
    then have "r2 = Inr ()"
      using assms(3,4) m Inr by (auto simp: store_counter_def fail_run defined_def andThen_run split: option.splits)
    then have "r = Inr p" "w' = w2"
      using assms(4) m Inr st by (simp_all add: ok_run)
    then show ?thesis
      using counter_pinned_quiet [OF quiet_callD [OF quiet_store_counter st]] pin Inr by simp
  qed
qed

lemma open_counter_pin:
  assumes "session_ok w" and "lastId w = None" and "defined r" and "open_counter B w = (r, w')"
  shows "counter_pinned r w'"
proof -
  obtain b m where has: "SO_hasSharedMemory B SHARED_OBJECT_COUNTER (machine w) = (b, m)"
    by fastforce
  let ?w = "w\<lparr>machine := m\<rparr>"
  have w: "session_ok ?w" "lastId ?w = None"
    using session_quiet_lastId [OF quiet_machine assms(1)] assms(2) by simp_all
  show ?thesis
  proof (cases b)
    case True
    then have "mapSharedMemoryInternal B SHARED_OBJECT_COUNTER ?w = (r, w')"
      using assms(4) has by (simp add: open_counter_def andThen_run)
    then show ?thesis
      by (rule map_counter_pin [OF w])
  next
    case False
    obtain r1 w1 where al: "allocateSharedMemoryInternal B SHARED_OBJECT_COUNTER (of_nat sizeof_atomic_uint64) ?w = (r1, w1)"
      by fastforce
    have w1: "session_ok w1" "lastId w1 = None"
      using session_quiet_lastId [OF quiet_callD [OF quiet_allocate_internal al] w(1)] w(2) by simp_all
    have run: "(case (r1, w1) of (Inl e, s') \<Rightarrow> (Inl e, s')
       | (Inr x, s') \<Rightarrow> andThen (mapSharedMemoryInternal B SHARED_OBJECT_COUNTER)
           (\<lambda>p. andThen (store_counter B p 0) (\<lambda>_. ok p)) s') = (r, w')"
      using assms(4) has False al by (simp add: open_counter_def andThen_run [of _ _ w] andThen_run [of _ _ ?w])
    show ?thesis
    proof (cases r1)
      case (Inl e)
      then show ?thesis
        using run w1 by (auto simp: counter_pinned_def)
    next
      case (Inr u)
      then show ?thesis
        using run map_and_reset_pin [OF w1 assms(3)] by simp
    qed
  qed
qed

lemma quiet_semophore_new: "quiet_call (auto_semophore_new B)"
  by (rule quiet_callI) (auto simp: auto_semophore_new_def split: prod.splits sum.splits)

lemma quiet_semophore_lock: "quiet_call (auto_semophore_lock B g)"
proof (rule quiet_callI)
  fix w :: "'a session" and r w'
  assume "auto_semophore_lock B g w = (r, w')"
  then obtain m ws where "w' = w\<lparr>machine := m, warnings := ws\<rparr>"
    by (auto simp: auto_semophore_lock_def split: prod.splits)
  then show "quiet w w'"
    using quiet_trans quiet_machine quiet_warnings by metis
qed

lemma quiet_semophore_delete: "quiet w (auto_semophore_delete B g w)"
  by (simp add: auto_semophore_delete_def Let_def)

lemma safe_initialPkgData_try:
  assumes "session_ok w" and "lastId w = None" and "initialPkgData_try B w = (r, w')" and "defined r"
  shows "session_ok w' \<and> ((\<exists>e. r = Inl e) \<longrightarrow> lastId w' = None)"
proof -
  obtain r0 w0 where new: "auto_semophore_new B w = (r0, w0)"
    by fastforce
  have w0: "session_ok w0" "lastId w0 = None"
    using session_quiet_lastId [OF quiet_callD [OF quiet_semophore_new new] assms(1)] assms(2) by simp_all
  show ?thesis
  proof (cases r0)
    case (Inl e)
    then show ?thesis
      using assms(3) new w0 by (simp add: initialPkgData_try_def)
  next
    case (Inr g)
    obtain g' w1 where lock: "auto_semophore_lock B g w0 = (Inr g', w1)"
      by (cases "auto_semophore_lock B g w0") (auto simp: auto_semophore_lock_def split: prod.splits)
    have w1: "session_ok w1" "lastId w1 = None"
      using session_quiet_lastId [OF quiet_callD [OF quiet_semophore_lock lock] w0(1)] w0(2) by simp_all
    obtain r2 w2 where open_c: "open_counter B w1 = (r2, w2)"
      by fastforce
    define w3 where "w3 = (case r2 of Inl e \<Rightarrow> w2 | Inr p \<Rightarrow> w2\<lparr>lastId := Some p\<rparr>)"
    have body: "andThen (auto_semophore_lock B g)
        (\<lambda>_. andThen (open_counter B) (\<lambda>ptr w. (Inr (), w\<lparr>lastId := Some ptr\<rparr>))) w0 =
        (map_sum id (\<lambda>_. ()) r2, w3)"
      using lock open_c by (cases r2) (simp_all add: w3_def)
    have run: "r = map_sum id (\<lambda>_. ()) r2 \<and> (w' = w3 \<or> w' = auto_semophore_delete B g w3)"
      using assms(3) new Inr unfolding initialPkgData_try_def
      by (auto simp: body split: sum.splits so_error.splits)
    then have d: "defined r2"
      using assms(4) by (cases r2) (auto simp: defined_def)
    have w3: "session_ok w3 \<and> ((\<exists>e. r2 = Inl e) \<longrightarrow> lastId w3 = None)"
      using open_counter_pin [OF w1 d open_c]
      by (cases r2) (simp_all add: w3_def counter_pinned_def pins_counter)
    moreover have "session_ok (auto_semophore_delete B g w3)" "lastId (auto_semophore_delete B g w3) = lastId w3"
      using session_quiet_lastId [OF quiet_semophore_delete] w3 by blast+
    ultimately show ?thesis
      using run by (cases r2) auto
  qed
qed

lemma safe_initialPkgData [safe_intros]: "session_safe (initialPkgData B)"
proof (rule session_safeI)
  fix w :: "'a session" and r w'
  assume w: "session_ok w" and run: "initialPkgData B w = (r, w')" and d: "defined r"
  show "session_ok w'"
  proof (cases "lastId w")
    case (Some p)
    then show ?thesis
      using run w by (simp add: initialPkgData_def)
  next
    case None
    obtain r1 w1 where tr: "initialPkgData_try B w = (r1, w1)"
      by fastforce
    have "defined r1"
      using run None tr d
      by (auto simp: initialPkgData_def catchCpp_run defined_def throwError_run split: sum.splits so_error.splits)
    note w1 = safe_initialPkgData_try [OF w None tr this]
    have "w' = w1 \<or> w' = w1\<lparr>lastId := None\<rparr> \<and> lastId w1 = None"
      using run None tr w1
      by (auto simp: initialPkgData_def catchCpp_run throwError_run split: sum.splits so_error.splits)
    moreover have "session_ok (w1\<lparr>lastId := None\<rparr>)" if "lastId w1 = None"
      using w1 that by (simp add: session_ok_def session_pins_def pointer_pins_def store.pinned_def)
    ultimately show ?thesis
      using w1 by blast
  qed
qed

lemma quiet_enter: "quiet w (enter_counters keys w)"
  by (simp add: quiet_def) (simp add: enter_counters_def)

lemma quiet_list_objects [quiet_intros]: "quiet_call (returns getSharedObjectList)"
  by (rule quiet_callI) (auto simp: returns_run getSharedObjectList_run quiet_enter Let_def)

lemma safe_getLastIndex [safe_intros]: "session_safe (getLastIndex B)"
  unfolding getLastIndex_def by (intro safe_intros quiet_safes)

lemma session_release:
  assumes "session_ok w"
  shows "session_ok (releasePkgData B w)"
proof -
  let ?w = "freeSharedMemoryInternal B SHARED_OBJECT_COUNTER w"
  have keep: "extptrs ?w = extptrs w"
    by (simp add: freeSharedMemoryInternal_def erase_object_def Let_def split: option.split)
  have "filter (\<lambda>(p, l). l \<noteq> SHARED_OBJECT_COUNTER) (session_pins w) = pointer_pins w"
    by (auto simp: session_pins_def filter_id_conv pointer_pins_def simp del: filter_map split: option.split)
  then have "store.pinned ?w (pointer_pins w)"
    using store_free.pin_withdraw [OF assms [unfolded session_ok_def], of B SHARED_OBJECT_COUNTER] by simp
  then show ?thesis
    using keep by (simp add: releasePkgData_def session_ok_def session_pins_def pointer_pins_def store.pinned_def)
qed

lemma unmap_keeps:
  fixes w :: "'os session"
  shows "extptrs (unmapSharedMemoryInternal B key w) = extptrs w \<and> lastId (unmapSharedMemoryInternal B key w) = lastId w"
  by (auto simp: unmapSharedMemoryInternal_def erase_object_def Let_def split: option.split prod.split)

lemma map_remove1:
  "inj_on f (insert x (set xs)) \<Longrightarrow> map f (remove1 x xs) = remove1 (f x) (map f xs)"
  by (induction xs) (auto simp: inj_on_def)

lemma session_finalizer:
  assumes "session_ok w" and "(p, ident) \<in> set (extptrs w)"
  shows "session_ok (ptrFinalizer B (p, ident) w)"
proof -
  let ?w = "unmapSharedMemoryInternal B (getKey ident) w"
  have pin: "(p, getKey ident) \<in> set (pointer_pins w)"
    using assms(2) by (force simp: pointer_pins_def)
  then have in_pins: "(p, getKey ident) \<in> set (session_pins w)"
    by (simp add: session_pins_def)
  have "inj_on (\<lambda>(p, ident). (p, getKey ident)) (insert (p, ident) (set (extptrs w)))"
    by (auto simp: inj_on_def)
  then have "pointer_pins (?w\<lparr>extptrs := remove1 (p, ident) (extptrs w)\<rparr>) = remove1 (p, getKey ident) (pointer_pins w)"
    using map_remove1 [of "\<lambda>(p, ident). (p, getKey ident)" "(p, ident)" "extptrs w"]
    by (simp add: pointer_pins_def)
  then have "session_pins (?w\<lparr>extptrs := remove1 (p, ident) (extptrs w)\<rparr>) =
      remove1 (p, getKey ident) (session_pins w)"
    using pin unmap_keeps [of B "getKey ident" w] by (simp add: session_pins_def remove1_append)
  then show ?thesis
    using store.pin_drop [OF assms(1) [unfolded session_ok_def] in_pins, of B] unmap_keeps [of B "getKey ident" w]
    by (simp add: ptrFinalizer_def unmapSharedMemory_def session_ok_def store.pinned_def)
qed

section \<open>The steps of a session\<close>

datatype request =
    Create int u64 bool bool bool attributes
  | Create_from source_vector bool bool bool attributes
  | Create_string "charsxp list" bool attributes
  | Read data_info
  | Vector_duplicate shared_vector bool
  | Vector_subset shared_vector index_vector
  | Vector_serialize shared_vector
  | Vector_unserialize serial
  | Unshare shared_vector attributes
  | Set_ownership shared_vector bool
  | Get_ownership shared_vector
  | String_dataptr shared_string bool
  | String_elt shared_string nat
  | String_set_elt shared_string nat charsxp
  | String_duplicate shared_string bool
  | String_serialize shared_string
  | String_unserialize "str_data \<times> string_info"
  | Unshare_string shared_string attributes
  | Allocate u64 string
  | Has string
  | Get_size string
  | Initial_pkg_data
  | Get_last_index
  | List_objects

definition ignore :: "('s, 'a) exec \<Rightarrow> ('s, unit) exec" where
  "ignore m = andThen m (\<lambda>_. ok ())"

fun serve :: "'os boost \<Rightarrow> request \<Rightarrow> ('os session, unit) exec" where
  "serve B (Create type len cow sub cp a) = ignore (C_createEmptySharedObject B type len cow sub cp a)"
| "serve B (Create_from x cow sub cp a) = ignore (C_createSharedObjectFromSource B x cow sub cp a)"
| "serve B (Create_string x cow a) = ignore (C_createSharedStringFromSource B x cow a)"
| "serve B (Read info) = ignore (C_readSharedObject B info)"
| "serve B (Vector_duplicate x deep) = ignore (sharedVector_duplicate B x deep)"
| "serve B (Vector_subset x indx) = ignore (sharedVector_subset B x indx)"
| "serve B (Vector_serialize x) = ignore (sharedVector_serialized_state B x)"
| "serve B (Vector_unserialize s) = ignore (sharedVector_unserialize B s)"
| "serve B (Unshare x a) = ignore (C_unshare B x a)"
| "serve B (Set_ownership x own) = C_setSharedObjectOwership x own"
| "serve B (Get_ownership x) = ignore (C_getSharedObjectOwership x)"
| "serve B (String_dataptr x b) = ignore (sharedString_dataptr B x b)"
| "serve B (String_elt x i) = ignore (sharedString_elt B x i)"
| "serve B (String_set_elt x i v) = sharedString_set_elt B x i v"
| "serve B (String_duplicate x deep) = ignore (sharedString_duplicate B x deep)"
| "serve B (String_serialize x) = ignore (sharedString_serialized_state x)"
| "serve B (String_unserialize s) = ignore (sharedString_unserialize s)"
| "serve B (Unshare_string x a) = ignore (C_unshareString B x a)"
| "serve B (Allocate n ident) = ignore (C_allocateSharedMemory B n ident)"
| "serve B (Has ident) = ignore (C_hasSharedMemory B ident)"
| "serve B (Get_size ident) = ignore (C_getSharedMemorySize B ident)"
| "serve B Initial_pkg_data = C_initialPkgData B"
| "serve B Get_last_index = ignore (C_getLastIndex B)"
| "serve B List_objects = ignore (returns getSharedObjectList)"

text \<open>
  A request with any defined outcome, errors included; the finalizer of a live external pointer;
  the release of the package data; anything another process does to the machine. The calls
  \<open>C_mapSharedMemory\<close>, \<open>C_unmapSharedMemory\<close> and \<open>C_freeSharedMemory\<close>, with which R code manages mappings
  by hand, are not requests: they change counters without pointers and unmap behind live pointers.
\<close>

inductive own_step :: "'os boost \<Rightarrow> 'os session \<Rightarrow> 'os session \<Rightarrow> bool" for B where
  served: "serve B req w = (r, w') \<Longrightarrow> defined r \<Longrightarrow> own_step B w w'"
| collected: "pointer \<in> set (extptrs w) \<Longrightarrow> own_step B w (ptrFinalizer B pointer w)"
| released: "own_step B w (C_releasePkgData B w)"

inductive session_step :: "'os boost \<Rightarrow> 'os session \<Rightarrow> 'os session \<Rightarrow> bool" for B where
  own: "own_step B w w' \<Longrightarrow> session_step B w w'"
| interference: "session_step B w (w\<lparr>machine := m\<rparr>)"

inductive session_reachable :: "'os boost \<Rightarrow> 'os session \<Rightarrow> bool" for B where
  start: "session_reachable B (session_init m)"
| step: "session_reachable B w \<Longrightarrow> session_step B w w' \<Longrightarrow> session_reachable B w'"

inductive_cases session_stepE: "session_step B w w'"

lemma safe_ignore: "session_safe m \<Longrightarrow> session_safe (ignore m)"
  unfolding ignore_def by (intro safe_intros quiet_safe [OF quiet_ok])

lemma quiet_ignore: "quiet_call m \<Longrightarrow> session_safe (ignore m)"
  by (intro safe_ignore quiet_safe)

lemma serve_safe: "session_safe (serve B req)"
  by (cases req; simp only: serve.simps C_calls)
    (rule safe_ignore quiet_ignore quiet_safe, (rule safe_intros quiet_intros)+)+

lemma own_step_ok:
  assumes "own_step B w w'" and "session_ok w"
  shows "session_ok w'"
  using assms(1)
proof cases
  case (served req r)
  then show ?thesis
    using session_safeD [OF serve_safe assms(2)] by blast
next
  case (collected pointer)
  then show ?thesis
    using session_finalizer [OF assms(2)] by (cases pointer) simp
next
  case released
  then show ?thesis
    using session_release [OF assms(2)] by (simp add: C_releasePkgData_def)
qed

lemma session_step_ok: "session_step B w w' \<Longrightarrow> session_ok w \<Longrightarrow> session_ok w'"
  by (induction rule: session_step.induct) (auto intro: own_step_ok session_quiet [OF quiet_machine])

lemma session_reachable_ok: "session_reachable B w \<Longrightarrow> session_ok w"
  by (induction rule: session_reachable.induct) (auto intro: session_init_ok session_step_ok)

section \<open>Counters and live pointers\<close>

lemma count_pins:
  "count_list (map snd (session_pins w)) (getKey ident) = count_list (map snd (extptrs w)) ident"
proof -
  have "count_list (map snd (map (\<lambda>(p, ident). (p, getKey ident)) xs)) (getKey ident) = count_list (map snd xs) ident" for xs
    by (induction xs) auto
  from this [of "extptrs w"] show ?thesis
    by (simp add: session_pins_def pointer_pins_def split: option.split)
qed

lemma session_counter:
  "session_ok w \<Longrightarrow> counter_at w (getKey ident) = int (count_list (map snd (extptrs w)) ident)"
  using store.pin_count [of w "session_pins w" "getKey ident"] by (simp add: session_ok_def count_pins)

lemma session_mapped:
  assumes "session_ok w" and "(p, ident) \<in> set (extptrs w)"
  shows "mapped_at w (getKey ident) = Some p"
proof (rule store.pin_addr)
  show "store.pinned w (session_pins w)"
    using assms(1) by (simp add: session_ok_def)
  show "(p, getKey ident) \<in> set (session_pins w)"
    using assms(2) by (force simp: session_pins_def pointer_pins_def)
qed

end
