(* ===== verification/Isolation.thy ===== *)
theory Isolation
  imports Session "HOL-Library.Disjoint_Sets"
begin

text \<open>
  What a process does to the handles and mappings of other processes: nothing. \<open>isolated\<close> is the
  relation between a session before and after a call that says so: what the session holds exists
  on the machine, what it acquires is fresh, and what it does not hold stays as it is. It is a
  \<open>step_relation\<close>, so it is proved for the functions that touch the machine and carried
  through the rest of the code.
\<close>

section \<open>Holding resources of a table\<close>

text \<open>The holder of \<open>H\<close> turned the table \<open>f\<close> into \<open>f'\<close> and holds \<open>H'\<close>.\<close>

definition frame :: "nat set \<Rightarrow> (nat \<Rightarrow> nat option) \<Rightarrow> nat set \<Rightarrow> (nat \<Rightarrow> nat option) \<Rightarrow> bool" where
  "frame H f H' f' \<longleftrightarrow> H' \<subseteq> dom f' \<and> H' \<subseteq> H \<union> - dom f \<and> (\<forall>h. h \<notin> H \<longrightarrow> h \<in> dom f \<longrightarrow> f' h = f h)"

lemma frame_refl: "H \<subseteq> dom f \<Longrightarrow> frame H f H f"
  by (simp add: frame_def)

lemma frame_trans:
  assumes "frame H f H1 f1" and "frame H1 f1 H2 f2"
  shows "frame H f H2 f2"
proof -
  have outside: "h \<notin> H1 \<and> f1 h = f h \<and> h \<in> dom f1" if "h \<notin> H" "h \<in> dom f" for h
  proof -
    have "h \<notin> H1" "f1 h = f h"
      using assms(1) that by (auto simp: frame_def)
    then show ?thesis
      using that by (simp add: domIff)
  qed
  have "f2 h = f h" if "h \<notin> H" "h \<in> dom f" for h
    using assms(2) outside [OF that] by (simp add: frame_def)
  moreover have "h \<in> H \<union> - dom f" if "h \<in> H2" for h
  proof (rule ccontr)
    assume "h \<notin> H \<union> - dom f"
    then have "h \<notin> H1" "h \<in> dom f1"
      using outside [of h] by simp_all
    then show False
      using assms(2) that by (auto simp: frame_def)
  qed
  ultimately show ?thesis
    using assms(2) by (auto simp: frame_def)
qed

lemma frame_acquire: "f h = None \<Longrightarrow> H \<subseteq> dom f \<Longrightarrow> frame H f (insert h H) (f(h \<mapsto> j))"
  by (auto simp: frame_def)

lemma frame_replace: "f h = None \<Longrightarrow> H \<subseteq> dom f \<Longrightarrow> frame H f {h} (f(h \<mapsto> j))"
  by (auto simp: frame_def)

lemma frame_release: "frame {h} f {} (f(h := None))"
  by (auto simp: frame_def)

lemma frame_extends:
  assumes "H \<subseteq> dom f" and "f \<subseteq>\<^sub>m f'"
  shows "frame H f H f'"
  using assms map_le_implies_dom_le [OF assms(2)] by (auto simp: frame_def map_le_def)

text \<open>A family of holders of which one moves.\<close>

lemma frame_family:
  assumes "\<Union> (range g) \<subseteq> dom f" and "disjoint_family g" and "frame (g k) f H' f'"
  shows "frame (\<Union> (range g)) f (\<Union> (range (g(k := H')))) f' \<and> disjoint_family (g(k := H'))"
proof
  have apart: "g l \<inter> g k = {}" if "l \<noteq> k" for l
    using assms(2) that by (simp add: disjoint_family_on_def)
  have others: "g l \<subseteq> dom f" for l
    using assms(1) by blast
  have fresh: "g l \<inter> H' = {}" if "l \<noteq> k" for l
    using assms(3) apart [OF that] others [of l] by (auto simp: frame_def)
  show "disjoint_family (g(k := H'))"
    unfolding disjoint_family_on_def
  proof (intro ballI impI)
    fix m n :: 'a
    assume "m \<noteq> n"
    then show "(g(k := H')) m \<inter> (g(k := H')) n = {}"
      using fresh [of m] fresh [of n] assms(2) by (auto simp: disjoint_family_on_def)
  qed
  have "g l \<subseteq> dom f'" if "l \<noteq> k" for l
    using assms(3) apart [OF that] others [of l] unfolding frame_def by fastforce
  then have "\<Union> (range (g(k := H'))) \<subseteq> dom f'"
    using assms(3) by (auto simp: frame_def split: if_splits)
  moreover have "\<Union> (range (g(k := H'))) \<subseteq> \<Union> (range g) \<union> - dom f"
    using assms(3) by (auto simp: frame_def split: if_splits)
  moreover have "f' h = f h" if "h \<notin> \<Union> (range g)" "h \<in> dom f" for h
    using assms(3) that by (auto simp: frame_def)
  ultimately show "frame (\<Union> (range g)) f (\<Union> (range (g(k := H')))) f'"
    by (simp add: frame_def)
qed

section \<open>One object\<close>

definition object_handles :: "shared_object \<Rightarrow> nat set" where
  "object_handles so = set_option (sharedMemoryHandle so)"

definition object_regions :: "shared_object \<Rightarrow> nat set" where
  "object_regions so = set_option (mappedRegionHandle so)"

definition object_held :: "('os \<Rightarrow> shm_view) \<Rightarrow> 'os so_state \<Rightarrow> bool" where
  "object_held view st \<longleftrightarrow> object_handles (fst st) \<subseteq> dom (vhandles (view (snd st))) \<and>
     object_regions (fst st) \<subseteq> dom (vregions (view (snd st)))"

definition object_isolated :: "('os \<Rightarrow> shm_view) \<Rightarrow> 'os so_state \<Rightarrow> 'os so_state \<Rightarrow> bool" where
  "object_isolated view st st' \<longleftrightarrow> (object_held view st \<longrightarrow>
     frame (object_handles (fst st)) (vhandles (view (snd st))) (object_handles (fst st')) (vhandles (view (snd st'))) \<and>
     frame (object_regions (fst st)) (vregions (view (snd st))) (object_regions (fst st')) (vregions (view (snd st'))))"

lemma object_isolated_refl: "object_isolated view st st"
  by (simp add: object_isolated_def object_held_def frame_refl)

lemma object_isolated_trans:
  assumes "object_isolated view st st1" and "object_isolated view st1 st2"
  shows "object_isolated view st st2"
proof -
  have "object_held view st1" if "object_held view st"
    using assms(1) that by (simp add: object_isolated_def object_held_def frame_def)
  then show ?thesis
    using assms unfolding object_isolated_def by (blast intro: frame_trans)
qed

interpretation object_isolated: step_relation "object_isolated view" for view :: "'os \<Rightarrow> shm_view"
  by unfold_locales (rule object_isolated_refl, rule object_isolated_trans)

lemma object_isolated_view:
  assumes "object_handles so' = object_handles so" and "object_regions so' = object_regions so"
    and "vhandles (view os) \<subseteq>\<^sub>m vhandles (view os')" and "vregions (view os) \<subseteq>\<^sub>m vregions (view os')"
  shows "object_isolated view (so, os) (so', os')"
  using assms by (simp add: object_isolated_def object_held_def frame_extends)

context shm_os
begin

lemma isolated_free_handle: "object_isolated view st (freeSharedMemoryHandle B st)"
proof (cases st)
  case (Pair so os)
  then show ?thesis
    by (cases "sharedMemoryHandle so")
      (auto simp: freeSharedMemoryHandle_def object_isolated_def object_held_def object_handles_def object_regions_def
        delete_handle frame_refl frame_release)
qed

lemma isolated_free_region: "object_isolated view st (freeMappedRegionHandle B st)"
proof (cases st)
  case (Pair so os)
  then show ?thesis
    by (cases "mappedRegionHandle so")
      (auto simp: freeMappedRegionHandle_def object_isolated_def object_held_def object_handles_def object_regions_def
        delete_region frame_refl frame_release)
qed

lemma isolated_static_free: "object_isolated view (so, os) (so, SO_static_freeSharedMemory B key os)"
  by (rule object_isolated_view) (simp_all add: SO_static_freeSharedMemory_def remove_name)

lemma isolated_SO_free: "object_isolated view st (SO_freeSharedMemory B st)"
proof -
  obtain so os where st: "st = (so, os)"
    by fastforce
  let ?st1 = "if hasMappedRegionHandle so then freeMappedRegionHandle B (so, os) else (so, os)"
  let ?st2 = "freeSharedMemoryHandle B ?st1"
  have "object_isolated view st ?st1"
    using isolated_free_region [of "(so, os)"] object_isolated_refl [of view "(so, os)"] by (simp add: st)
  from object_isolated_trans [OF this isolated_free_handle]
  have two: "object_isolated view st ?st2" .
  have "SO_freeSharedMemory B st =
      (fst ?st2, if ownData (fst ?st2) then SO_static_freeSharedMemory B (so_key (fst ?st2)) (snd ?st2) else snd ?st2)"
    by (simp add: SO_freeSharedMemory_def st Let_def split: prod.split)
  moreover have "object_isolated view ?st2
      (fst ?st2, if ownData (fst ?st2) then SO_static_freeSharedMemory B (so_key (fst ?st2)) (snd ?st2) else snd ?st2)"
    using isolated_static_free [of "fst ?st2" "snd ?st2"] object_isolated_refl [of view ?st2] by simp
  ultimately show ?thesis
    using object_isolated_trans [OF two] by simp
qed

text \<open>Validation leaves at most a new mapping.\<close>

lemma validate_extends:
  assumes "validate_shared_memory B key h os = (r, os')"
  shows "vhandles (view os') = vhandles (view os) \<and> vregions (view os) \<subseteq>\<^sub>m vregions (view os')"
proof (cases "getFreeMemorySize B os < shm_get_size B h os")
  case True
  then show ?thesis
    using assms by (auto simp: validate_shared_memory_def throwError_run)
next
  case False
  obtain r1 os1 where region: "region_new B h os = (r1, os1)"
    by fastforce
  show ?thesis
  proof (cases r1)
    case (Inl what)
    then show ?thesis
      using assms False region region_err by (auto simp: validate_shared_memory_def)
  next
    case (Inr q)
    then obtain j where v1: "vregions (view os) q = None"
      "view os1 = (view os)\<lparr>vregions := (vregions (view os))(q \<mapsto> j)\<rparr>"
      using region region_ok by blast
    have stored: "vhandles (view os2) = vhandles (view os1) \<and> vregions (view os2) = vregions (view os1)"
      if "mem_store B (region_address q) bs os1 = Some os2" for bs os2
      using store_Some [of q 0 bs os1 os2] that by (auto simp: region_address_def)
    have "os' = os1 \<or> os' = region_delete B q os1 \<or>
        (\<exists>os2. mem_store B (region_address q) (replicate (unat (shm_get_size B h os)) 0) os1 = Some os2 \<and>
          os' = region_delete B q os2)"
      using assms False region Inr
      by (auto simp: validate_shared_memory_def Let_def fail_run split: if_splits option.splits)
    then show ?thesis
      using v1 stored by (auto simp: delete_region map_le_def)
  qed
qed

lemma allocate_try_cases:
  assumes "SO_allocate_try B (so, os) = (r, so', os')"
  shows "vregions (view os) \<subseteq>\<^sub>m vregions (view os') \<and>
    (so' = so \<and> vhandles (view os') = vhandles (view os) \<or>
     (\<exists>h j. so' = so\<lparr>sharedMemoryHandle := Some h\<rparr> \<and> vhandles (view os) h = None \<and>
        vhandles (view os') = (vhandles (view os))(h \<mapsto> j)))"
proof -
  obtain r1 os1 where create: "shm_create_only B (so_key so) os = (r1, os1)"
    by fastforce
  show ?thesis
  proof (cases r1)
    case (Inl what)
    then show ?thesis
      using assms create create_err by (auto simp: SO_allocate_try_def)
  next
    case (Inr h)
    then obtain j where v1: "vhandles (view os) h = None" "vhandles (view os1) = (vhandles (view os))(h \<mapsto> j)"
      "vregions (view os1) = vregions (view os)"
      using create create_ok by fastforce
    obtain r2 os2 where trunc: "shm_truncate B h (if 0 < so_size so then so_size so else 1) os1 = (r2, os2)"
      by fastforce
    have v2: "vhandles (view os2) = vhandles (view os1)" "vregions (view os2) = vregions (view os1)"
      using trunc truncate_err truncate_ok by (cases r2; fastforce)+
    have "so' = so\<lparr>sharedMemoryHandle := Some h\<rparr> \<and>
        (os' = os2 \<or> validate_shared_memory B (so_key so) h os2 = (r, os'))"
      using assms create Inr trunc by (cases r2) (auto simp: SO_allocate_try_def Let_def split: prod.splits)
    then show ?thesis
      using v1 v2 validate_extends [of "so_key so" h os2 r os'] by auto
  qed
qed

end

context shm_os
begin

lemma isolated_allocate_try: "preserves (object_isolated view) (SO_allocate_try B)"
proof (rule preservesI)
  fix st r st'
  assume run: "SO_allocate_try B st = (r, st')"
  obtain so os where st: "st = (so, os)"
    by fastforce
  obtain so' os' where st': "st' = (so', os')"
    by fastforce
  have ext: "vregions (view os) \<subseteq>\<^sub>m vregions (view os')"
    and handles: "so' = so \<and> vhandles (view os') = vhandles (view os) \<or>
      (\<exists>h j. so' = so\<lparr>sharedMemoryHandle := Some h\<rparr> \<and> vhandles (view os) h = None \<and>
        vhandles (view os') = (vhandles (view os))(h \<mapsto> j))"
    using allocate_try_cases [OF run [unfolded st st']] by blast+
  from handles show "object_isolated view st st'"
  proof
    assume "so' = so \<and> vhandles (view os') = vhandles (view os)"
    then show ?thesis
      using object_isolated_view [of so so view os os'] ext by (simp add: st st')
  next
    assume "\<exists>h j. so' = so\<lparr>sharedMemoryHandle := Some h\<rparr> \<and> vhandles (view os) h = None \<and>
      vhandles (view os') = (vhandles (view os))(h \<mapsto> j)"
    then obtain h j where new: "so' = so\<lparr>sharedMemoryHandle := Some h\<rparr>" "vhandles (view os) h = None"
      "vhandles (view os') = (vhandles (view os))(h \<mapsto> j)"
      by blast
    then show ?thesis
      using ext frame_extends [of "object_regions so" "vregions (view os)"] frame_replace [of "vhandles (view os)" h]
      by (auto simp: st st' object_isolated_def object_held_def object_handles_def object_regions_def)
  qed
qed

lemma isolated_catch: "preserves (object_isolated view) (SO_allocate_catch B what)"
proof (rule preservesI)
  fix st r st'
  assume run: "SO_allocate_catch B what st = (r, st')"
  obtain so os where st: "st = (so, os)"
    by fastforce
  have "st' = (if hasSharedMemoryHandle so then freeSharedMemoryHandle B (so, SO_static_freeSharedMemory B (so_key so) os)
      else (so, os))"
    using run by (simp add: SO_allocate_catch_def st throwError_run)
  moreover have "object_isolated view (so, os) (freeSharedMemoryHandle B (so, SO_static_freeSharedMemory B (so_key so) os))"
    by (rule object_isolated_trans [OF isolated_static_free isolated_free_handle])
  ultimately show "object_isolated view st st'"
    using object_isolated_refl [of view "(so, os)"] by (simp add: st)
qed

lemma isolated_refresh: "preserves (object_isolated view) (SO_refresh_size B)"
  by (rule preservesI)
    (auto simp: SO_refresh_size_def fail_run object_handles_def object_regions_def object_isolated_refl
      intro!: object_isolated_view split: prod.splits option.splits)

lemma isolated_allocate: "preserves (object_isolated view) (SO_allocateSharedMemory B)"
proof (rule preservesI)
  fix st r st'
  assume run: "SO_allocateSharedMemory B st = (r, st')"
  obtain so os where st: "st = (so, os)"
    by fastforce
  have body: "preserves (object_isolated view)
      (andThen (catchCpp (SO_allocate_try B) (SO_allocate_catch B)) (\<lambda>_. SO_refresh_size B))"
    by (intro object_isolated.composed isolated_allocate_try isolated_catch isolated_refresh)
  show "object_isolated view st st'"
  proof (cases "hasSharedMemoryHandle so")
    case True
    then show ?thesis
      using run object_isolated_refl [of view st] by (simp add: SO_allocateSharedMemory_def st)
  next
    case False
    then show ?thesis
      using run preservesD [OF body, of st r st'] by (simp add: SO_allocateSharedMemory_def st)
  qed
qed

lemma isolated_open: "preserves (object_isolated view) (openSharedMemoryHandle B)"
proof (rule preservesI)
  fix st r st'
  assume run: "openSharedMemoryHandle B st = (r, st')"
  obtain so os where st: "st = (so, os)"
    by fastforce
  show "object_isolated view st st'"
  proof (cases "sharedMemoryHandle so")
    case (Some h)
    then show ?thesis
      using run object_isolated_refl [of view st]
      by (simp add: openSharedMemoryHandle_def st hasSharedMemoryHandle_def throwError_run)
  next
    case None
    obtain r1 os1 where opened: "shm_open_only B (so_key so) os = (r1, os1)"
      by fastforce
    show ?thesis
    proof (cases r1)
      case (Inl what)
      then have "st' = freeSharedMemoryHandle B (so, os1)"
        using run None opened by (simp add: openSharedMemoryHandle_def st hasSharedMemoryHandle_def throwError_run)
      moreover have "object_isolated view (so, os) (so, os1)"
        using open_err opened Inl by (intro object_isolated_view) simp_all
      ultimately show ?thesis
        using object_isolated_trans [OF _ isolated_free_handle] by (simp add: st)
    next
      case (Inr h)
      then obtain j where j: "vhandles (view os) h = None" "view os1 = (view os)\<lparr>vhandles := (vhandles (view os))(h \<mapsto> j)\<rparr>"
        using opened open_ok by blast
      have "st' = (so\<lparr>sharedMemoryHandle := Some h, so_size := shm_get_size B h os1\<rparr>, os1)"
        using run None opened Inr by (simp add: openSharedMemoryHandle_def st hasSharedMemoryHandle_def)
      then show ?thesis
        using None j frame_acquire [of "vhandles (view os)" h "{}" j] frame_refl [of "object_regions so" "vregions (view os)"]
        by (simp add: st object_isolated_def object_held_def object_handles_def object_regions_def)
    qed
  qed
qed

lemma isolated_map_try:
  assumes "mappedRegionHandle so = None" and "SO_map_try B (so, os) = (r, st')"
  shows "object_isolated view (so, os) st'"
proof -
  obtain r1 so1 os1 where ready: "(if hasSharedMemoryHandle so then (Inr (), so, os) else openSharedMemoryHandle B (so, os)) = (r1, so1, os1)"
    by (metis prod_cases3)
  have one: "object_isolated view (so, os) (so1, os1)"
    using ready preservesD [OF isolated_open, of "(so, os)" r1 "(so1, os1)"] object_isolated_refl [of view "(so, os)"]
    by (simp split: if_splits)
  have none: "mappedRegionHandle so1 = None"
    using ready assms(1)
    by (auto simp: openSharedMemoryHandle_def freeSharedMemoryHandle_def throwError_run split: if_splits prod.splits sum.splits)
  show ?thesis
  proof (cases r1)
    case (Inl e)
    then show ?thesis
      using assms(2) ready one by (simp add: SO_map_try_def andThen_run)
  next
    case (Inr u)
    then have rest: "(case sharedMemoryHandle so1 of None \<Rightarrow> fail (Undefined ''null handle'') (so1, os1)
      | Some h \<Rightarrow> (case region_new B h os1 of (Inl what, os2) \<Rightarrow> (Inl (CppError what), so1, os2)
        | (Inr q, os2) \<Rightarrow> (Inr (region_address q),
            so1\<lparr>mappedRegionHandle := Some q, shared_ptr := Some (region_address q)\<rparr>, os2))) = (r, st')"
      using assms(2) ready by (simp add: SO_map_try_def andThen_run)
    have "object_isolated view (so1, os1) st'"
    proof (cases "sharedMemoryHandle so1")
      case None
      then show ?thesis
        using rest object_isolated_refl [of view "(so1, os1)"] by (simp add: fail_run)
    next
      case (Some h)
      obtain r2 os2 where region: "region_new B h os1 = (r2, os2)"
        by fastforce
      show ?thesis
      proof (cases r2)
        case (Inl what)
        then show ?thesis
          using rest Some region region_err by (auto intro!: object_isolated_view)
      next
        case (Inr q)
        then obtain j where j: "vregions (view os1) q = None" "view os2 = (view os1)\<lparr>vregions := (vregions (view os1))(q \<mapsto> j)\<rparr>"
          using region region_ok by blast
        have "st' = (so1\<lparr>mappedRegionHandle := Some q, shared_ptr := Some (region_address q)\<rparr>, os2)"
          using rest Some region Inr by simp
        then show ?thesis
          using none j frame_acquire [of "vregions (view os1)" q "{}" j] frame_refl [of "object_handles so1" "vhandles (view os1)"]
          by (simp add: object_isolated_def object_held_def object_handles_def object_regions_def)
      qed
    qed
    then show ?thesis
      by (rule object_isolated_trans [OF one])
  qed
qed

lemma isolated_map: "preserves (object_isolated view) (SO_mapSharedMemory B)"
proof (rule preservesI)
  fix st r st'
  assume run: "SO_mapSharedMemory B st = (r, st')"
  obtain so os where st: "st = (so, os)"
    by fastforce
  consider (known) p where "shared_ptr so = Some p" | (region) q where "shared_ptr so = None" "mappedRegionHandle so = Some q"
    | (new) "shared_ptr so = None" "mappedRegionHandle so = None"
    by (cases "shared_ptr so"; cases "mappedRegionHandle so") auto
  then show "object_isolated view st st'"
  proof cases
    case known
    then show ?thesis
      using run object_isolated_refl [of view st] by (simp add: SO_mapSharedMemory_def st)
  next
    case region
    then show ?thesis
      using run by (auto simp: SO_mapSharedMemory_def st object_handles_def object_regions_def intro!: object_isolated_view)
  next
    case new
    obtain r1 st1 where tr: "SO_map_try B (so, os) = (r1, st1)"
      by (metis surj_pair)
    have one: "object_isolated view st st1"
      unfolding st by (rule isolated_map_try [OF new(2) tr])
    have "st' = st1 \<or> st' = freeMappedRegionHandle B st1"
      using run new tr by (auto simp: SO_mapSharedMemory_def st catchCpp_run throwError_run split: sum.splits so_error.splits)
    then show ?thesis
      using one object_isolated_trans [OF one isolated_free_region] by auto
  qed
qed

end

section \<open>A session\<close>

definition handles_at :: "('os, 'z) world_scheme \<Rightarrow> string \<Rightarrow> nat set" where
  "handles_at w key = (case sharedObjectList w key of None \<Rightarrow> {} | Some so \<Rightarrow> object_handles so)"

definition regions_at :: "('os, 'z) world_scheme \<Rightarrow> string \<Rightarrow> nat set" where
  "regions_at w key = (case sharedObjectList w key of None \<Rightarrow> {} | Some so \<Rightarrow> object_regions so)"

definition own_handles :: "('os, 'z) world_scheme \<Rightarrow> nat set" where
  "own_handles w = \<Union> (range (handles_at w))"

definition own_regions :: "('os, 'z) world_scheme \<Rightarrow> nat set" where
  "own_regions w = \<Union> (range (regions_at w))"

text \<open>What the registry holds exists on the machine, and no two of its objects share it.\<close>

definition attached :: "('os \<Rightarrow> shm_view) \<Rightarrow> ('os, 'z) world_scheme \<Rightarrow> bool" where
  "attached view w \<longleftrightarrow>
     own_handles w \<subseteq> dom (vhandles (view (machine w))) \<and> disjoint_family (handles_at w) \<and>
     own_regions w \<subseteq> dom (vregions (view (machine w))) \<and> disjoint_family (regions_at w)"

definition isolated :: "('os \<Rightarrow> shm_view) \<Rightarrow> ('os, 'z) world_scheme \<Rightarrow> ('os, 'z) world_scheme \<Rightarrow> bool" where
  "isolated view w w' \<longleftrightarrow> (attached view w \<longrightarrow> attached view w' \<and>
     frame (own_handles w) (vhandles (view (machine w))) (own_handles w') (vhandles (view (machine w'))) \<and>
     frame (own_regions w) (vregions (view (machine w))) (own_regions w') (vregions (view (machine w'))))"

lemma held_cong:
  assumes "sharedObjectList w' = sharedObjectList w"
  shows "handles_at w' = handles_at w" and "regions_at w' = regions_at w"
    and "own_handles w' = own_handles w" and "own_regions w' = own_regions w"
  using assms by (simp_all add: handles_at_def regions_at_def own_handles_def own_regions_def fun_eq_iff)

interpretation isolated: step_relation "isolated view" for view :: "'os \<Rightarrow> shm_view"
proof
  show "isolated view w w" for w :: "('os, 'b) world_scheme"
    by (simp add: isolated_def attached_def frame_refl)
  show "isolated view w w2" if "isolated view w w1" "isolated view w1 w2" for w w1 w2 :: "('os, 'b) world_scheme"
    using that unfolding isolated_def by (blast intro: frame_trans)
qed

lemma isolated_same:
  assumes "sharedObjectList w' = sharedObjectList w"
    and "vhandles (view (machine w)) \<subseteq>\<^sub>m vhandles (view (machine w'))"
    and "vregions (view (machine w)) \<subseteq>\<^sub>m vregions (view (machine w'))"
  shows "isolated view w w'"
proof -
  have "attached view w'" if "attached view w"
    using that order_trans [OF _ map_le_implies_dom_le [OF assms(2)]] order_trans [OF _ map_le_implies_dom_le [OF assms(3)]]
    by (simp add: attached_def held_cong [OF assms(1)])
  then show ?thesis
    using frame_extends assms(2,3) by (simp add: isolated_def attached_def held_cong [OF assms(1)])
qed

text \<open>One object of the registry moves, is entered or is erased.\<close>

lemma isolated_object:
  assumes "object_isolated view (so, machine w) (so', machine w')"
    and "handles_at w key = object_handles so" and "regions_at w key = object_regions so"
    and "handles_at w' = (handles_at w)(key := object_handles so')"
    and "regions_at w' = (regions_at w)(key := object_regions so')"
  shows "isolated view w w'"
  unfolding isolated_def
proof
  assume w: "attached view w"
  then have "handles_at w key \<subseteq> dom (vhandles (view (machine w)))" "regions_at w key \<subseteq> dom (vregions (view (machine w)))"
    unfolding attached_def own_handles_def own_regions_def by blast+
  then have "object_held view (so, machine w)"
    using assms(2,3) by (simp add: object_held_def)
  then have "frame (object_handles so) (vhandles (view (machine w))) (object_handles so') (vhandles (view (machine w')))"
    "frame (object_regions so) (vregions (view (machine w))) (object_regions so') (vregions (view (machine w')))"
    using assms(1) by (simp_all add: object_isolated_def)
  note frames = this [folded assms(2,3)]
  have "frame (own_handles w) (vhandles (view (machine w))) (own_handles w') (vhandles (view (machine w'))) \<and>
      disjoint_family (handles_at w')"
    using frame_family [where g = "handles_at w" and k = key, OF _ _ frames(1)] w by (simp add: attached_def own_handles_def assms(4))
  moreover have "frame (own_regions w) (vregions (view (machine w))) (own_regions w') (vregions (view (machine w'))) \<and>
      disjoint_family (regions_at w')"
    using frame_family [where g = "regions_at w" and k = key, OF _ _ frames(2)] w by (simp add: attached_def own_regions_def assms(5))
  ultimately show "attached view w' \<and>
    frame (own_handles w) (vhandles (view (machine w))) (own_handles w') (vhandles (view (machine w'))) \<and>
    frame (own_regions w) (vregions (view (machine w))) (own_regions w') (vregions (view (machine w')))"
    by (simp add: attached_def frame_def)
qed

lemma isolated_update:
  assumes "sharedObjectList w key = Some so" and "object_isolated view (so, machine w) (so', machine w')"
    and "sharedObjectList w' = (sharedObjectList w)(key \<mapsto> so')"
  shows "isolated view w w'"
  by (rule isolated_object [OF assms(2), of key]) (use assms in \<open>auto simp: handles_at_def regions_at_def fun_eq_iff\<close>)

lemma isolated_emplace:
  assumes "sharedObjectList w key = None" and "object_handles so = {}" and "object_regions so = {}"
    and "sharedObjectList w' = (sharedObjectList w)(key \<mapsto> so)" and "machine w' = machine w"
  shows "isolated view w w'"
proof (rule isolated_object)
  show "object_isolated view (so, machine w) (so, machine w')"
    using object_isolated_refl [of view "(so, machine w)"] assms(5) by simp
qed (use assms in \<open>auto simp: handles_at_def regions_at_def fun_eq_iff\<close>)

lemma isolated_erase:
  assumes "sharedObjectList w key = Some so" and "object_isolated view (so, machine w) (so', machine w')"
    and "object_handles so' = {}" and "object_regions so' = {}"
    and "sharedObjectList w' = (sharedObjectList w)(key := None)"
  shows "isolated view w w'"
  by (rule isolated_object [OF assms(2), of key]) (use assms in \<open>auto simp: handles_at_def regions_at_def fun_eq_iff\<close>)

section \<open>The functions of the registry\<close>

named_theorems isolated_intros \<open>calls that leave the other processes alone\<close>

declare isolated.composed [isolated_intros]

lemma new_object_holds [simp]:
  "object_handles (SharedObjectClass_new key n) = {}" "object_regions (SharedObjectClass_new key n) = {}"
  by (simp_all add: object_handles_def object_regions_def)

context shm_os
begin

lemma isolated_on_object:
  assumes "preserves (object_isolated view) method"
  shows "preserves (isolated view) (on_object key method)"
proof (rule preservesI)
  fix w :: "('os, 'z) world_scheme" and r w'
  assume run: "on_object key method w = (r, w')"
  show "isolated view w w'"
  proof (cases "sharedObjectList w key")
    case None
    then show ?thesis
      using run by (simp add: on_object_def fail_run isolated.stays)
  next
    case (Some so)
    obtain so' m' where call: "method (so, machine w) = (r, so', m')"
      and w': "w' = w\<lparr>machine := m', sharedObjectList := (sharedObjectList w)(key \<mapsto> so')\<rparr>"
      using run Some by (auto simp: on_object_def split: prod.splits)
    from preservesD [OF assms call] show ?thesis
      by (intro isolated_update [OF Some, of _ so']) (simp_all add: w')
  qed
qed

lemma isolated_allocate_internal [isolated_intros]: "preserves (isolated view) (allocateSharedMemoryInternal B key n)"
  unfolding allocateSharedMemoryInternal_def
proof (rule isolated.preserves_andThen)
  show "preserves (isolated view) (\<lambda>w. case sharedObjectList w key of
      None \<Rightarrow> (Inr (), emplace_object key (SharedObjectClass_new key n) w)
    | Some so \<Rightarrow> if SO_getSize so < n then throwError (''The shared memory exists and its size is smaller than your request'' @
        ''(reqeust: '' @ to_string (unat n) @ '', actual:'' @ to_string (unat (SO_getSize so)) @ '')'') w else (Inr (), w))"
    by (rule preservesI)
      (auto simp: throwError_run isolated.stays emplace_object_def
        intro: isolated_emplace [where so = "SharedObjectClass_new key n" and key = key] split: option.splits if_splits)
qed (rule isolated_on_object [OF isolated_allocate])

lemma isolated_counter: "isolated view w (w\<lparr>mapCounter := c\<rparr>)"
  by (rule isolated_same) simp_all

lemma isolated_map_internal [isolated_intros]: "preserves (isolated view) (mapSharedMemoryInternal B key)"
  unfolding mapSharedMemoryInternal_def
proof (intro isolated.preserves_andThen isolated_on_object isolated_map)
  show "preserves (isolated view) (\<lambda>w. if \<not> keyInMap (sharedObjectList w) key
      then let w1 = emplace_object key (SharedObjectClass_new key 0) w in (Inr (), w1\<lparr>mapCounter := (mapCounter w1)(key \<mapsto> 0)\<rparr>)
      else (Inr (), w))"
    by (rule preservesI)
      (auto simp: isolated.stays emplace_object_def keyInMap_def Let_def
        intro: isolated_emplace [where so = "SharedObjectClass_new key 0" and key = key] split: if_splits)
  show "preserves (isolated view) (\<lambda>w. (Inr p, w\<lparr>mapCounter := (mapCounter w)(key \<mapsto> counter_at w key + 1)\<rparr>))" for p
    by (rule preservesI) (auto simp: isolated_counter)
qed

lemma SO_delete_holds:
  "object_isolated view (so, os) (fst (SO_freeSharedMemory B (so, os)), SharedObjectClass_delete B (so, os))"
  "object_handles (fst (SO_freeSharedMemory B (so, os))) = {}" "object_regions (fst (SO_freeSharedMemory B (so, os))) = {}"
proof -
  show "object_isolated view (so, os) (fst (SO_freeSharedMemory B (so, os)), SharedObjectClass_delete B (so, os))"
    unfolding SharedObjectClass_delete_def prod.collapse by (rule isolated_SO_free)
qed (simp_all add: SO_free_object object_handles_def object_regions_def)

lemma isolated_erase_object: "isolated view w (erase_object B key w)"
proof (cases "sharedObjectList w key")
  case None
  then show ?thesis
    by (simp add: erase_object_def isolated.stays)
next
  case (Some so)
  show ?thesis
    by (rule isolated_erase [OF Some _ SO_delete_holds(2,3) [of so "machine w"]])
      (simp_all add: erase_object_def Some SO_delete_holds(1))
qed

lemma isolated_unmap: "isolated view w (unmapSharedMemoryInternal B key w)"
proof (cases "sharedObjectList w key")
  case None
  then show ?thesis
    by (simp add: unmapSharedMemoryInternal_def isolated.stays)
next
  case (Some so)
  let ?w1 = "w\<lparr>mapCounter := (mapCounter w)(key \<mapsto> counter_at w key - 1)\<rparr>"
  obtain so' m' where un: "SO_unmapSharedMemory B (so, machine w) = (so', m')"
    by fastforce
  let ?w2 = "?w1\<lparr>machine := m', sharedObjectList := (sharedObjectList ?w1)(key \<mapsto> so')\<rparr>"
  have "object_isolated view (so, machine w) (so', m')"
    using isolated_free_region [of "(so, machine w)"] un by (simp add: SO_unmapSharedMemory_def)
  then have "isolated view ?w1 ?w2"
    using Some by (intro isolated_update [of _ key so _ so']) simp_all
  from isolated.composes [OF isolated_counter this] have "isolated view w ?w2" .
  from isolated.composes [OF this isolated_erase_object] have "isolated view w (erase_object B key ?w2)" .
  then show ?thesis
    using Some un isolated_counter [of w] by (simp add: unmapSharedMemoryInternal_def Let_def)
qed

lemma isolated_free: "isolated view w (freeSharedMemoryInternal B key w)"
proof -
  let ?w1 = "if keyInMap (sharedObjectList w) key
    then (let w0 = erase_object B key w in w0\<lparr>mapCounter := (mapCounter w0)(key := None)\<rparr>) else w"
  have one: "isolated view w ?w1"
  proof (cases "keyInMap (sharedObjectList w) key")
    case True
    then show ?thesis
      using isolated.composes [OF isolated_erase_object [of w key] isolated_counter] by (simp add: Let_def)
  qed (simp add: isolated.stays)
  have "isolated view ?w1 (?w1\<lparr>machine := SO_static_freeSharedMemory B key (machine ?w1)\<rparr>)"
    by (rule isolated_same) (simp_all add: SO_static_freeSharedMemory_def remove_name)
  from isolated.composes [OF one this] show ?thesis
    by (simp add: freeSharedMemoryInternal_def Let_def)
qed

end

section \<open>Through the rest of the code\<close>

context shm_os
begin

text \<open>Calls that leave the registry alone and, on the machine, at most write bytes.\<close>

lemma isolated_machine:
  assumes "\<And>m. vhandles (view (f m)) = vhandles (view m) \<and> vregions (view (f m)) = vregions (view m)"
  shows "isolated view w (w\<lparr>machine := f (machine w)\<rparr>)"
  by (rule isolated_same) (use assms in simp_all)

lemma isolated_fields:
  "isolated view w (w\<lparr>warnings := ws\<rparr>)" "isolated view w (w\<lparr>lastId := p\<rparr>)"
  by (rule isolated_same; simp)+

lemma isolated_session_fields:
  "isolated view w (w\<lparr>extptrs := xs\<rparr>)" "isolated view w (w\<lparr>string_lists := ds\<rparr>)"
  by (rule isolated_same; simp)+

lemma mem_store_tables:
  assumes "mem_store B p bs os = Some os'"
  shows "vhandles (view os') = vhandles (view os)" and "vregions (view os') = vregions (view os)"
  using store_Some [of "ptr_block p" "ptr_off p" bs os os'] assms by auto

lemma isolated_load [isolated_intros]: "preserves (isolated view) (load_mem B p n)"
  by (rule preservesI) (auto simp: load_mem_def fail_run isolated.stays split: option.splits)

lemma isolated_store [isolated_intros]: "preserves (isolated view) (store_mem B p bs)"
  by (rule preservesI)
    (auto simp: store_mem_def fail_run isolated.stays mem_store_tables intro!: isolated_same split: option.splits)

lemma isolated_warn [isolated_intros]: "preserves (isolated view) (warn msg)"
  by (rule preservesI) (auto simp: warn_def isolated_fields)

lemma isolated_read_data [isolated_intros]: "preserves (isolated view) (read_data B d n)"
  by (cases d) (auto simp: read_data_def intro: isolated_intros)

lemma copy_regions_tables:
  "copy_regions B target esize place ind regions os = (r, os') \<Longrightarrow>
   vhandles (view os') = vhandles (view os) \<and> vregions (view os') = vregions (view os)"
proof (induction regions arbitrary: ind os)
  case Nil
  then show ?case by (simp add: ok_run)
next
  case (Cons region rs)
  obtain n b where region: "region = (n, b)"
    by fastforce
  obtain r1 os1 where one: "memcpy_out B target (place ind n * esize) (take (n * esize) b) os = (r1, os1)"
    by (metis surj_pair)
  have "vhandles (view os1) = vhandles (view os) \<and> vregions (view os1) = vregions (view os)"
    using one mem_store_tables by (auto simp: memcpy_out_def fail_run split: option.splits)
  then show ?case
    using Cons.prems Cons.IH one by (cases r1) (auto simp: region)
qed

lemma isolated_copyData [isolated_intros]: "preserves (isolated view) (on_machine (copyData B target type regions))"
proof (rule preservesI)
  fix w :: "('os, 'z) world_scheme" and r w'
  assume run: "on_machine (copyData B target type regions) w = (r, w')"
  obtain m where m: "copyData B target type regions (machine w) = (r, m)" and w': "w' = w\<lparr>machine := m\<rparr>"
    using run by (auto simp: on_machine_def split: prod.splits)
  have "vhandles (view m) = vhandles (view (machine w)) \<and> vregions (view m) = vregions (view (machine w))"
    using m copy_regions_tables by (auto simp: copyData_def ok_run split: if_splits)
  then show "isolated view w w'"
    by (intro isolated_same) (simp_all add: w')
qed

lemma isolated_has_internal:
  "preserves (isolated view) (\<lambda>w. case SO_hasSharedMemory B key (machine w) of (b, m) \<Rightarrow> (Inr b, w\<lparr>machine := m\<rparr>))"
proof (rule preservesI)
  fix w :: "('os, 'z) world_scheme" and r w'
  assume "(case SO_hasSharedMemory B key (machine w) of (b, m) \<Rightarrow> (Inr b, w\<lparr>machine := m\<rparr>)) = (r, w')"
  then have "w' = w\<lparr>machine := snd (SO_hasSharedMemory B key (machine w))\<rparr>"
    by (auto split: prod.splits)
  then show "isolated view w w'"
    using SO_has_view by (intro isolated_same) simp_all
qed

lemma isolated_has [isolated_intros]: "preserves (isolated view) (hasSharedMemory B ident)"
  unfolding hasSharedMemory_def by (rule isolated_has_internal)

lemma isolated_getSize [isolated_intros]: "preserves (isolated view) (getSharedMemorySize B ident)"
proof (rule preservesI)
  fix w :: "('os, 'z) world_scheme" and r w'
  assume run: "getSharedMemorySize B ident w = (r, w')"
  let ?key = "getKey ident"
  let ?new = "SharedObjectClass_new ?key 0"
  show "isolated view w w'"
  proof (cases "sharedObjectList w ?key")
    case (Some so)
    then show ?thesis
      using run by (simp add: getSharedMemorySize_def getSharedMemorySizeInternal_def isolated.stays)
  next
    case None
    obtain r1 so m where map: "SO_mapSharedMemory B (?new, machine w) = (r1, so, m)"
      by (metis prod_cases3)
    have w': "w' = w\<lparr>machine := SharedObjectClass_delete B (so, m)\<rparr>"
      using run None map by (auto simp: getSharedMemorySize_def getSharedMemorySizeInternal_def)
    have "object_isolated view (?new, machine w) (so, m)"
      by (rule preservesD [OF isolated_map map])
    from object_isolated_trans [OF this SO_delete_holds(1)]
    have frames: "object_isolated view (?new, machine w) (fst (SO_freeSharedMemory B (so, m)), machine w')"
      by (simp add: w')
    show ?thesis
      by (rule isolated_object [OF frames, of ?key])
        (use None SO_delete_holds(2,3) [of so m] in \<open>auto simp: w' handles_at_def regions_at_def fun_eq_iff\<close>)
  qed
qed

lemma isolated_own_set [isolated_intros]: "preserves (isolated view) (autoReleaseAfterUse_set ident b)"
proof (rule preservesI)
  fix w :: "('os, 'z) world_scheme" and r w'
  assume run: "autoReleaseAfterUse_set ident b w = (r, w')"
  show "isolated view w w'"
  proof (cases "sharedObjectList w (getKey ident)")
    case None
    then show ?thesis
      using run by (simp add: autoReleaseAfterUse_set_def throwError_run isolated.stays)
  next
    case (Some so)
    then have "w' = w\<lparr>sharedObjectList := (sharedObjectList w)(getKey ident \<mapsto> SO_setOwnership b so)\<rparr>"
      using run by (simp add: autoReleaseAfterUse_set_def emplace_object_def)
    then show ?thesis
      using Some
      by (intro isolated_update [OF Some, of _ "SO_setOwnership b so"] object_isolated_view)
        (simp_all add: SO_setOwnership_def object_handles_def object_regions_def)
  qed
qed

lemma isolated_own_get [isolated_intros]: "preserves (isolated view) (autoReleaseAfterUse_get ident)"
  by (rule preservesI)
    (auto simp: autoReleaseAfterUse_get_def throwError_run Let_def isolated.stays split: option.splits)

lemma isolated_mapShared [isolated_intros]: "preserves (isolated view) (mapSharedMemory B ident)"
  unfolding mapSharedMemory_def by (rule isolated_map_internal)

subsection \<open>Ids and package data\<close>

lemma isolated_read_lastId [isolated_intros]: "preserves (isolated view) (read_lastId B)"
  by (rule preservesI) (auto simp: read_lastId_def fail_run isolated.stays split: option.splits)

lemma isolated_store_counter [isolated_intros]: "preserves (isolated view) (store_counter B p x)"
  by (rule preservesI)
    (auto simp: store_counter_def fail_run isolated.stays mem_store_tables intro!: isolated_same split: option.splits)

lemma isolated_case_lastId:
  assumes "\<And>p. preserves (isolated view) (f p)"
  shows "preserves (isolated view) (\<lambda>w. case lastId w of None \<Rightarrow> fail e w | Some p \<Rightarrow> f p w)"
  by (rule preservesI) (auto simp: fail_run isolated.stays split: option.splits dest: preservesD [OF assms])

lemma isolated_increment [isolated_intros]: "preserves (isolated view) (increment_lastId B)"
  unfolding increment_lastId_def by (intro isolated_intros isolated_case_lastId)

lemma isolated_getNextId_loop [isolated_intros]: "preserves (isolated view) (getNextId_loop B start fuel)"
  by (induction fuel) (auto intro!: isolated_intros)

lemma isolated_getNextId [isolated_intros]: "preserves (isolated view) (getNextId B)"
  unfolding getNextId_def by (intro isolated_intros)

lemma isolated_allocateShared [isolated_intros]: "preserves (isolated view) (allocateSharedMemory B n ident)"
  unfolding allocateSharedMemory_def by (intro isolated_intros)

lemma isolated_semophore:
  "preserves (isolated view) (auto_semophore_new B)" "preserves (isolated view) (auto_semophore_lock B g)"
  "isolated view w (auto_semophore_delete B g w)"
proof -
  show "preserves (isolated view) (auto_semophore_new B)"
  proof (rule preservesI)
    fix w :: "('os, 'z) world_scheme" and r w'
    assume "auto_semophore_new B w = (r, w')"
    then have "w' = w\<lparr>machine := snd (sem_open_or_create B SEMAPHORE_NAME 1 (machine w))\<rparr>"
      by (auto simp: auto_semophore_new_def split: prod.splits sum.splits)
    then show "isolated view w w'"
      using sem_open_view by (intro isolated_same) simp_all
  qed
  show "preserves (isolated view) (auto_semophore_lock B g)"
  proof (rule preservesI)
    fix w :: "('os, 'z) world_scheme" and r w'
    assume "auto_semophore_lock B g w = (r, w')"
    then obtain ws where "w' = w\<lparr>machine := snd (sem_timed_wait B (semaphore g) (machine w)), warnings := ws\<rparr>"
      by (auto simp: auto_semophore_lock_def split: prod.splits)
    then show "isolated view w w'"
      using sem_wait_view by (intro isolated_same) simp_all
  qed
  show "isolated view w (auto_semophore_delete B g w)"
    by (rule isolated_same)
      (simp_all add: auto_semophore_delete_def Let_def sem_remove_view sem_delete_view sem_post_view)
qed

lemma isolated_open_counter [isolated_intros]: "preserves (isolated view) (open_counter B)"
  unfolding open_counter_def by (intro isolated_intros isolated_has_internal)

lemma isolated_initial_try: "preserves (isolated view) (initialPkgData_try B)"
  unfolding initialPkgData_try_def
proof (rule isolated.preserves_andThen [OF isolated_semophore(1)])
  fix g
  let ?body = "andThen (auto_semophore_lock B g) (\<lambda>_. andThen (open_counter B) (\<lambda>ptr w. (Inr (), w\<lparr>lastId := Some ptr\<rparr>)))"
  have set: "preserves (isolated view) (\<lambda>w. (Inr (), w\<lparr>lastId := Some ptr\<rparr>))" for ptr
    by (rule preservesI) (auto simp: isolated_fields)
  have body: "preserves (isolated view) ?body"
    by (intro isolated_intros isolated_semophore(2) set)
  show "preserves (isolated view) (\<lambda>w. case ?body w of (r, w') \<Rightarrow> (r, case r of
      Inl e \<Rightarrow> (case e of CppError _ \<Rightarrow> auto_semophore_delete B g w' | _ \<Rightarrow> w')
    | Inr _ \<Rightarrow> auto_semophore_delete B g w'))"
  proof (rule preservesI)
    fix w :: "('os, 'z) world_scheme" and r w2
    assume run: "(case ?body w of (r, w') \<Rightarrow> (r, case r of
      Inl e \<Rightarrow> (case e of CppError _ \<Rightarrow> auto_semophore_delete B g w' | _ \<Rightarrow> w')
    | Inr _ \<Rightarrow> auto_semophore_delete B g w')) = (r, w2)"
    obtain r1 w1 where one: "?body w = (r1, w1)"
      by (metis surj_pair)
    then have "w2 = w1 \<or> w2 = auto_semophore_delete B g w1"
      using run by (auto split: sum.splits so_error.splits)
    then show "isolated view w w2"
      using preservesD [OF body one] isolated.composes [OF preservesD [OF body one] isolated_semophore(3)] by auto
  qed
qed

lemma isolated_initialPkgData [isolated_intros]: "preserves (isolated view) (initialPkgData B)"
proof (rule preservesI)
  fix w :: "('os, 'z) world_scheme" and r w'
  assume run: "initialPkgData B w = (r, w')"
  obtain r1 w1 where tr: "initialPkgData_try B w = (r1, w1)"
    by (metis surj_pair)
  have one: "isolated view w w1"
    by (rule preservesD [OF isolated_initial_try tr])
  have "w' = w \<or> w' = w1 \<or> w' = w1\<lparr>lastId := None\<rparr>"
    using run tr
    by (auto simp: initialPkgData_def catchCpp_run throwError_run split: sum.splits so_error.splits if_splits)
  then show "isolated view w w'"
    using one isolated.stays isolated.composes [OF one isolated_fields(2)] by auto
qed

lemma isolated_getLastIndex [isolated_intros]: "preserves (isolated view) (getLastIndex B)"
  unfolding getLastIndex_def by (intro isolated_intros)

lemma isolated_release: "isolated view w (releasePkgData B w)"
  using isolated.composes [OF isolated_free isolated_fields(2)] by (simp add: releasePkgData_def)

end

subsection \<open>Vectors and strings\<close>

context shm_os
begin

lemma isolated_external_ptr [isolated_intros]: "preserves (isolated view) (make_external_ptr p ident)"
  by (rule preservesI) (auto simp: make_external_ptr_def isolated_session_fields)

lemma isolated_createEmpty [isolated_intros]: "preserves (isolated view) (createEmptySharedObject B type len cow sub cp a)"
  unfolding createEmptySharedObject_def Let_def by (intro isolated_intros)

lemma isolated_createFromSource [isolated_intros]:
  "preserves (isolated view) (createSharedObjectFromSource B x cow sub cp a)"
  unfolding createSharedObjectFromSource_def by (intro isolated_intros)

lemma isolated_read [isolated_intros]: "preserves (isolated view) (readSharedObject B info)"
  unfolding readSharedObject_def by (intro isolated_intros)

lemma isolated_copy_to_regular [isolated_intros]: "preserves (isolated view) (copy_to_regular B t len p n a)"
  unfolding copy_to_regular_def by (intro isolated_intros)

lemma isolated_unshare [isolated_intros]: "preserves (isolated view) (unshare B x a)"
  unfolding unshare_def Let_def by (intro isolated_intros)

lemma isolated_duplicate [isolated_intros]: "preserves (isolated view) (sharedVector_duplicate B x deep)"
  unfolding sharedVector_duplicate_def Let_def by (intro isolated_intros)

lemma isolated_serialize [isolated_intros]: "preserves (isolated view) (sharedVector_serialized_state B x)"
  unfolding sharedVector_serialized_state_def Let_def by (intro isolated_intros)

lemma isolated_unserialize [isolated_intros]: "preserves (isolated view) (sharedVector_unserialize B state)"
  by (cases state; simp only: sharedVector_unserialize_def serial.case; intro isolated_intros)

lemma isolated_subset_element [isolated_intros]: "preserves (isolated view) (subset_element B p indx n i)"
  unfolding subset_element_def by (intro isolated_intros)

lemma isolated_subset_bytes [isolated_intros]: "preserves (isolated view) (subset_bytes B p indx n is)"
  by (induction "is") (auto intro!: isolated_intros)

lemma isolated_subset [isolated_intros]: "preserves (isolated view) (sharedVector_subset B x indx)"
  unfolding sharedVector_subset_def Let_def by (intro isolated_intros)

lemma isolated_string_lists [isolated_intros]:
  "preserves (isolated view) (new_string_list d)" "preserves (isolated view) (get_string_list i)"
  "preserves (isolated view) (set_string_list i d)"
  by (rule preservesI; auto simp: new_string_list_def get_string_list_def set_string_list_def fail_run isolated.stays
      isolated_session_fields split: if_splits)+

lemma isolated_index_load [isolated_intros]: "preserves (isolated view) (index_load B ix off n)"
  by (cases ix) (auto simp: index_load_def intro: isolated_intros)

lemma isolated_index_store [isolated_intros]: "preserves (isolated view) (index_store B ix off bs)"
  by (cases ix) (auto simp: index_store_def intro: isolated_intros)

lemma isolated_STRING_ELT [isolated_intros]: "preserves (isolated view) (STRING_ELT vec i)"
  unfolding STRING_ELT_def by (intro isolated_intros)

lemma isolated_charset_elt [isolated_intros]: "preserves (isolated view) (charset_elt B d u i)"
  unfolding charset_elt_def by (intro isolated_intros)

lemma isolated_read_strings [isolated_intros]: "preserves (isolated view) (read_strings B d u is)"
  by (induction "is") (auto intro!: isolated_intros)

lemma isolated_check_dataptr [isolated_intros]: "preserves (isolated view) (check_dataptr ix)"
  unfolding check_dataptr_def by (intro isolated_intros)

lemma isolated_unshareString [isolated_intros]: "preserves (isolated view) (unshareString B x a)"
  unfolding unshareString_def by (intro isolated_intros)

lemma isolated_write_index [isolated_intros]: "preserves (isolated view) (write_index B p u m x)"
  unfolding write_index_def by (intro isolated_intros)

lemma isolated_createString [isolated_intros]: "preserves (isolated view) (createSharedStringFromSource B x cow a)"
  unfolding createSharedStringFromSource_def Let_def by (intro isolated_intros)

lemma isolated_string_dataptr [isolated_intros]: "preserves (isolated view) (sharedString_dataptr B x b)"
  unfolding sharedString_dataptr_def by (intro isolated_intros)

lemma isolated_string_elt [isolated_intros]: "preserves (isolated view) (sharedString_elt B x i)"
  unfolding sharedString_elt_def Let_def by (intro isolated_intros)

lemma isolated_string_set_elt [isolated_intros]: "preserves (isolated view) (sharedString_set_elt B x i v)"
  unfolding sharedString_set_elt_def Let_def by (intro isolated_intros)

lemma isolated_string_duplicate [isolated_intros]: "preserves (isolated view) (sharedString_duplicate B x deep)"
  unfolding sharedString_duplicate_def by (intro isolated_intros)

lemma isolated_string_serialized [isolated_intros]: "preserves (isolated view) (sharedString_serialized_state x)"
  unfolding sharedString_serialized_state_def by (intro isolated_intros)

lemma isolated_string_unserialize [isolated_intros]: "preserves (isolated view) (sharedString_unserialize s)"
  by (cases s) (auto simp: sharedString_unserialize_def intro!: isolated_intros)

lemma isolated_list_objects [isolated_intros]: "preserves (isolated view) (returns getSharedObjectList)"
  by (rule preservesI) (auto simp: returns_run getSharedObjectList_run enter_counters_def Let_def intro: isolated_counter)

section \<open>Steps of a session\<close>

lemma isolated_ignore [isolated_intros]: "preserves (isolated view) m \<Longrightarrow> preserves (isolated view) (ignore m)"
  unfolding ignore_def by (intro isolated_intros)

lemma isolated_serve: "preserves (isolated view) (serve B req)"
  by (cases req; simp only: serve.simps C_calls; intro isolated_intros)

lemma isolated_finalizer: "isolated view w (ptrFinalizer B pointer w)"
  using isolated.composes [OF isolated_unmap isolated_session_fields(1)] by (simp add: ptrFinalizer_def unmapSharedMemory_def)

lemma isolated_own_step: "own_step B w w' \<Longrightarrow> isolated view w w'"
  by (induction rule: own_step.induct) (auto simp: C_releasePkgData_def intro: preservesD [OF isolated_serve] isolated_finalizer isolated_release)

end

end
