(* ===== verification/Processes.thy ===== *)
theory Processes
  imports Isolation
begin

text \<open>
  Several R processes on one machine. A process starts with an empty session, its steps are those of
  a session on the shared machine, and it ends, when the operating system closes what it holds.
  The invariant: every process is a reachable session, holds what its registry says, and shares no
  handle and no mapping with another process.
\<close>

type_synonym 'os system = "'os \<times> (nat \<Rightarrow> 'os session option)"

text \<open>The end of a process: its own handles and mappings may go, nothing else does.\<close>

definition closes :: "('os \<Rightarrow> shm_view) \<Rightarrow> 'os session \<Rightarrow> 'os \<Rightarrow> bool" where
  "closes view w m \<longleftrightarrow>
     (\<forall>h. h \<notin> own_handles w \<longrightarrow> vhandles (view m) h = vhandles (view (machine w)) h) \<and>
     (\<forall>r. r \<notin> own_regions w \<longrightarrow> vregions (view m) r = vregions (view (machine w)) r)"

text \<open>A step and the process that takes it.\<close>

inductive system_step :: "'os boost \<Rightarrow> ('os \<Rightarrow> shm_view) \<Rightarrow> nat \<Rightarrow> 'os system \<Rightarrow> 'os system \<Rightarrow> bool" for B view i where
  starts: "ps i = None \<Longrightarrow> system_step B view i (m, ps) (m, ps(i \<mapsto> session_init m))"
| acts: "ps i = Some w \<Longrightarrow> own_step B (w\<lparr>machine := m\<rparr>) w' \<Longrightarrow> system_step B view i (m, ps) (machine w', ps(i \<mapsto> w'))"
| ends: "ps i = Some w \<Longrightarrow> closes view (w\<lparr>machine := m\<rparr>) m' \<Longrightarrow> system_step B view i (m, ps) (m', ps(i := None))"

inductive system_reachable :: "'os boost \<Rightarrow> ('os \<Rightarrow> shm_view) \<Rightarrow> 'os \<Rightarrow> 'os system \<Rightarrow> bool" for B view m0 where
  boot: "system_reachable B view m0 (m0, \<lambda>i. None)"
| step: "system_reachable B view m0 s \<Longrightarrow> system_step B view i s s' \<Longrightarrow> system_reachable B view m0 s'"

section \<open>The invariant\<close>

definition system_ok :: "'os boost \<Rightarrow> ('os \<Rightarrow> shm_view) \<Rightarrow> 'os system \<Rightarrow> bool" where
  "system_ok B view s \<longleftrightarrow> (case s of (m, ps) \<Rightarrow>
     (\<forall>i w. ps i = Some w \<longrightarrow> session_reachable B (w\<lparr>machine := m\<rparr>) \<and> attached view (w\<lparr>machine := m\<rparr>)) \<and>
     (\<forall>i j w v. ps i = Some w \<longrightarrow> ps j = Some v \<longrightarrow> i \<noteq> j \<longrightarrow>
        own_handles w \<inter> own_handles v = {} \<and> own_regions w \<inter> own_regions v = {}))"

lemma own_machine [simp]:
  "handles_at (w\<lparr>machine := m\<rparr>) = handles_at w" "regions_at (w\<lparr>machine := m\<rparr>) = regions_at w"
  "own_handles (w\<lparr>machine := m\<rparr>) = own_handles w" "own_regions (w\<lparr>machine := m\<rparr>) = own_regions w"
  by (simp_all add: held_cong [of "w\<lparr>machine := m\<rparr>" w])

lemma fresh_session:
  "own_handles (session_init m) = {}" "own_regions (session_init m) = {}" "machine (session_init m) = m"
  "attached view (session_init m)" "(session_init m)\<lparr>machine := m\<rparr> = session_init m"
  by (simp_all add: own_handles_def own_regions_def handles_at_def regions_at_def attached_def session_init_def
      world_init_def world.defs disjoint_family_on_def)

text \<open>A process that leaves alone what another one holds keeps the other one attached.\<close>

lemma attached_move:
  assumes "attached view (v\<lparr>machine := m\<rparr>)"
    and "\<And>h. h \<in> own_handles v \<Longrightarrow> vhandles (view m') h = vhandles (view m) h"
    and "\<And>r. r \<in> own_regions v \<Longrightarrow> vregions (view m') r = vregions (view m) r"
  shows "attached view (v\<lparr>machine := m'\<rparr>)"
  using assms by (auto simp: attached_def domIff subset_iff)

lemma session_moved: "session_reachable B (v\<lparr>machine := m\<rparr>) \<Longrightarrow> session_reachable B (v\<lparr>machine := m'\<rparr>)"
  using session_reachable.step [OF _ session_step.interference [of B "v\<lparr>machine := m\<rparr>" m']] by simp

lemma frame_other:
  assumes "frame H f H' f'" and "G \<inter> H = {}" and "G \<subseteq> dom f"
  shows "G \<inter> H' = {}" and "h \<in> G \<Longrightarrow> f' h = f h"
  using assms by (auto simp: frame_def)

context shm_os
begin

lemma system_acts:
  assumes "system_ok B view (m, ps)" and "ps i = Some w" and "own_step B (w\<lparr>machine := m\<rparr>) w'"
  shows "system_ok B view (machine w', ps(i \<mapsto> w'))"
    and "ps j = Some v \<Longrightarrow> j \<noteq> i \<Longrightarrow> r \<in> own_regions v \<Longrightarrow> vregions (view (machine w')) r = vregions (view m) r"
proof -
  have w: "session_reachable B (w\<lparr>machine := m\<rparr>)" "attached view (w\<lparr>machine := m\<rparr>)"
    using assms(1,2) by (auto simp: system_ok_def)
  have iso: "attached view w'" "frame (own_handles w) (vhandles (view m)) (own_handles w') (vhandles (view (machine w')))"
    "frame (own_regions w) (vregions (view m)) (own_regions w') (vregions (view (machine w')))"
    using isolated_own_step [OF assms(3)] w(2) by (simp_all add: isolated_def)
  have reach: "session_reachable B w'"
    by (rule session_reachable.step [OF w(1) session_step.own [OF assms(3)]])
  have other: "own_handles v \<inter> own_handles w = {}" "own_handles v \<subseteq> dom (vhandles (view m))"
    "own_regions v \<inter> own_regions w = {}" "own_regions v \<subseteq> dom (vregions (view m))"
    if "ps j = Some v" "j \<noteq> i" for j v
    using assms(1,2) that by (auto simp: system_ok_def attached_def)
  show stable: "vregions (view (machine w')) r = vregions (view m) r" if "ps j = Some v" "j \<noteq> i" "r \<in> own_regions v" for j v r
    using frame_other(2) [OF iso(3) other(3,4)] that by blast
  have stable_h: "vhandles (view (machine w')) h = vhandles (view m) h" if "ps j = Some v" "j \<noteq> i" "h \<in> own_handles v" for j v h
    using frame_other(2) [OF iso(2) other(1,2)] that by blast
  have apart: "own_handles v \<inter> own_handles w' = {} \<and> own_regions v \<inter> own_regions w' = {}" if "ps j = Some v" "j \<noteq> i" for j v
    using frame_other(1) [OF iso(2) other(1,2)] frame_other(1) [OF iso(3) other(3,4)] that by blast
  have each: "session_reachable B (v\<lparr>machine := machine w'\<rparr>) \<and> attached view (v\<lparr>machine := machine w'\<rparr>)"
    if "(ps(i \<mapsto> w')) j = Some v" for j v
  proof (cases "j = i")
    case True
    then show ?thesis
      using that reach iso(1) by simp
  next
    case False
    then have v: "ps j = Some v"
      using that by simp
    then have before: "session_reachable B (v\<lparr>machine := m\<rparr>)" "attached view (v\<lparr>machine := m\<rparr>)"
      using assms(1) by (auto simp: system_ok_def)
    then show ?thesis
      using attached_move [OF before(2) stable_h [OF v False] stable [OF v False]] by (simp add: session_moved)
  qed
  have pairs: "own_handles u \<inter> own_handles v = {} \<and> own_regions u \<inter> own_regions v = {}"
    if "(ps(i \<mapsto> w')) j = Some u" "(ps(i \<mapsto> w')) k = Some v" "j \<noteq> k" for j k u v
  proof -
    consider "j = i" | "k = i" | "j \<noteq> i" "k \<noteq> i"
      by blast
    then show ?thesis
    proof cases
      case 1
      then show ?thesis
        using apart [of k v] that by (auto simp: Int_commute)
    next
      case 2
      then show ?thesis
        using apart [of j u] that by auto
    next
      case 3
      then show ?thesis
        using assms(1) that by (auto simp: system_ok_def)
    qed
  qed
  show "system_ok B view (machine w', ps(i \<mapsto> w'))"
    unfolding system_ok_def prod.case using each pairs by blast
qed

lemma system_step_ok:
  assumes "system_step B view i s s'" and "system_ok B view s"
  shows "system_ok B view s'"
  using assms(1)
proof cases
  case (starts ps m)
  then show ?thesis
    using assms(2) session_reachable.start [of B m] by (auto simp: system_ok_def fresh_session split: if_splits)
next
  case (acts ps w m w')
  then show ?thesis
    using system_acts(1) assms(2) by blast
next
  case (ends ps w m m')
  have keep: "session_reachable B (v\<lparr>machine := m'\<rparr>) \<and> attached view (v\<lparr>machine := m'\<rparr>)" if "ps j = Some v" "j \<noteq> i" for j v
  proof -
    have v: "session_reachable B (v\<lparr>machine := m\<rparr>)" "attached view (v\<lparr>machine := m\<rparr>)"
      "own_handles v \<inter> own_handles w = {}" "own_regions v \<inter> own_regions w = {}"
      using assms(2) ends that by (auto simp: system_ok_def)
    have "vhandles (view m') h = vhandles (view m) h" if "h \<in> own_handles v" for h
      using ends(4) v(3) that by (auto simp: closes_def)
    moreover have "vregions (view m') r = vregions (view m) r" if "r \<in> own_regions v" for r
      using ends(4) v(4) that by (auto simp: closes_def)
    ultimately show ?thesis
      using attached_move [OF v(2)] by (simp add: session_moved [OF v(1)])
  qed
  then show ?thesis
    using assms(2) ends by (auto simp: system_ok_def split: if_splits)
qed

lemma system_reachable_ok: "system_reachable B view m0 s \<Longrightarrow> system_ok B view s"
  by (induction rule: system_reachable.induct) (auto intro: system_step_ok simp: system_ok_def [of B view "(m0, \<lambda>i. None)"])

text \<open>What a process holds stays as it is in the steps of the others.\<close>

lemma system_step_other:
  assumes "system_step B view k (m, ps) (m', ps')" and "system_ok B view (m, ps)" and "ps i = Some w" and "i \<noteq> k"
  shows "ps' i = Some w" and "r \<in> own_regions w \<Longrightarrow> vregions (view m') r = vregions (view m) r"
proof -
  have both: "ps' i = Some w \<and> (r \<in> own_regions w \<longrightarrow> vregions (view m') r = vregions (view m) r)"
    using assms(1)
  proof cases
    case starts
    then show ?thesis
      using assms(3,4) by simp
  next
    case (acts v w')
    then show ?thesis
      using system_acts(2) [OF assms(2) acts(3,4) assms(3,4)] assms(3,4) by simp
  next
    case (ends v)
    then have "own_regions w \<inter> own_regions v = {}"
      using assms(2-4) by (auto simp: system_ok_def)
    then show ?thesis
      using ends assms(3,4) by (auto simp: closes_def)
  qed
  show "ps' i = Some w" and "r \<in> own_regions w \<Longrightarrow> vregions (view m') r = vregions (view m) r"
    using both by blast+
qed

end

text \<open>A live pointer is the start of a mapping its process owns.\<close>

lemma live_region:
  assumes "session_ok w" and "(p, ident) \<in> set (extptrs w)"
  shows "ptr_off p = 0" and "ptr_block p \<in> own_regions w"
proof -
  have "mapped_at w (getKey ident) = Some p"
    by (rule session_mapped [OF assms])
  then obtain so where so: "sharedObjectList w (getKey ident) = Some so" "shared_ptr so = Some p"
    by (auto simp: mapped_at_def split: option.splits)
  have "so_inv so"
    using registry_okD(2) [OF counted_registry_ok [OF session_counted [OF assms(1)]] so(1)] .
  then obtain r where r: "mappedRegionHandle so = Some r" "p = region_address r"
    using so(2) by (cases "mappedRegionHandle so") (auto simp: so_inv_def)
  then show "ptr_off p = 0"
    by (simp add: region_address_def)
  have "r \<in> regions_at w (getKey ident)"
    using so(1) r(1) by (simp add: regions_at_def object_regions_def)
  then show "ptr_block p \<in> own_regions w"
    using r(2) by (auto simp: own_regions_def region_address_def)
qed

end
