(* ===== verification/SegmentMemory.thy ===== *)
theory SegmentMemory
  imports NumericAltrep
begin

text \<open>
  What the registry's functions and the vector operations do to the bytes in shared memory:
  a segment that is allocated and mapped is fresh and shows zeros, a mapping shows the object its
  name refers to, a load reads and a store changes the bytes of the vector.
\<close>

section \<open>Allocating, in terms of the object\<close>

definition requested_object :: "('os, 'z) world_scheme \<Rightarrow> string \<Rightarrow> u64 \<Rightarrow> shared_object" where
  "requested_object w key n =
     (case sharedObjectList w key of None \<Rightarrow> SharedObjectClass_new key n | Some so \<Rightarrow> so)"

lemma allocate_internal_Inr:
  assumes "allocateSharedMemoryInternal B key n w = (Inr u, w')"
  shows "\<exists>so' m'. SO_allocateSharedMemory B (requested_object w key n, machine w) = (Inr (), so', m') \<and>
    n \<le> so_size (requested_object w key n) \<and>
    w' = w\<lparr>machine := m', sharedObjectList := (sharedObjectList w)(key \<mapsto> so')\<rparr>"
  using assms
  by (auto simp: allocateSharedMemoryInternal_def on_object_def emplace_object_def exec_simps requested_object_def
      SO_getSize_def not_less split: prod.splits option.splits if_splits)

lemma requested_object_ok:
  "registry_ok w \<Longrightarrow> so_inv (requested_object w key n) \<and> so_key (requested_object w key n) = key"
  by (auto simp: requested_object_def registry_ok_def split: option.split)

text \<open>No object of the registry holds a handle of the segment.\<close>

definition unopened :: "('os, 'z) world_scheme \<Rightarrow> string \<Rightarrow> bool" where
  "unopened w key \<longleftrightarrow> (\<forall>so. sharedObjectList w key = Some so \<longrightarrow> sharedMemoryHandle so = None)"

lemma unopened_object: "unopened w key \<Longrightarrow> sharedMemoryHandle (requested_object w key n) = None"
  by (simp add: unopened_def requested_object_def split: option.split)

text \<open>
  The registry agrees with the machine: what it has open under a key is the object of that name.
  It holds until some process unlinks a name that is still open.
\<close>

definition in_sync :: "('os \<Rightarrow> shm_view) \<Rightarrow> ('os, 'z) world_scheme \<Rightarrow> bool" where
  "in_sync view w \<longleftrightarrow> (\<forall>key so. sharedObjectList w key = Some so \<longrightarrow>
     (\<forall>h. sharedMemoryHandle so = Some h \<longrightarrow>
        vhandles (view (machine w)) h \<noteq> None \<and> vhandles (view (machine w)) h = vnames (view (machine w)) key) \<and>
     (\<forall>r. mappedRegionHandle so = Some r \<longrightarrow>
        vregions (view (machine w)) r \<noteq> None \<and> vregions (view (machine w)) r = vnames (view (machine w)) key))"

lemma in_sync_cong:
  assumes "in_sync view w" and "sharedObjectList w' = sharedObjectList w"
    and "vnames (view (machine w')) = vnames (view (machine w))" and "vhandles (view (machine w')) = vhandles (view (machine w))"
    and "vregions (view (machine w')) = vregions (view (machine w))"
  shows "in_sync view w'"
  using assms(1) unfolding in_sync_def assms(2-5) .

lemma in_sync_unopened: "in_sync view w \<Longrightarrow> vnames (view (machine w)) key = None \<Longrightarrow> unopened w key"
  unfolding in_sync_def unopened_def by (metis option.exhaust)

section \<open>The bytes a vector shows\<close>

definition vector_object :: "('os \<Rightarrow> shm_view) \<Rightarrow> ('os, 'z) world_scheme \<Rightarrow> shared_vector \<Rightarrow> nat option" where
  "vector_object view w v = vregions (view (machine w)) (ptr_block (sv_address v))"

definition vector_bytes :: "('os \<Rightarrow> shm_view) \<Rightarrow> ('os, 'z) world_scheme \<Rightarrow> shared_vector \<Rightarrow> byte list option" where
  "vector_bytes view w v =
     (case vector_object view w v of
        None \<Rightarrow> None
      | Some j \<Rightarrow>
          (let n = unat (info_totalSize (sv_info v)) in
           if ptr_off (sv_address v) = 0 \<and> n \<le> length (vobjs (view (machine w)) j)
           then Some (take n (vobjs (view (machine w)) j)) else None))"

lemma vector_bytes_Some:
  "vector_bytes view w v = Some bs \<longleftrightarrow>
   (\<exists>j r. sv_address v = Ptr r 0 \<and> vregions (view (machine w)) r = Some j \<and>
      unat (info_totalSize (sv_info v)) \<le> length (vobjs (view (machine w)) j) \<and>
      bs = take (unat (info_totalSize (sv_info v))) (vobjs (view (machine w)) j))"
  by (cases "sv_address v") (auto simp: vector_bytes_def vector_object_def Let_def split: option.splits if_splits)

lemma vector_bytes_cong:
  assumes "machine w' = machine w"
  shows "vector_bytes view w' v = vector_bytes view w v" and "vector_object view w' v = vector_object view w v"
  unfolding vector_bytes_def vector_object_def assms by (rule refl)+

lemma vector_bytes_view:
  assumes "view (machine w') = view (machine w)"
  shows "vector_bytes view w' v = vector_bytes view w v" and "vector_object view w' v = vector_object view w v"
  unfolding vector_bytes_def vector_object_def assms by (rule refl)+

lemma vector_bytes_length: "vector_bytes view w v = Some bs \<Longrightarrow> length bs = unat (info_totalSize (sv_info v))"
  by (auto simp: vector_bytes_Some)

context shm_os
begin

lemma allocate_internal_fresh:
  assumes "allocateSharedMemoryInternal B key n w = (Inr u, w')" and "registry_ok w" and "unopened w key"
  obtains h j bs where "vnames (view (machine w)) key = None" and "vhandles (view (machine w)) h = None"
    and "unreferenced j (view (machine w))" and "unat n \<le> length bs" and "0 < length bs" and "length bs < max_object"
    and "(\<forall>os. signal_ok B os) \<longrightarrow> bs = replicate (length bs) 0"
    and "view (machine w') = (view (machine w))\<lparr>vnames := (vnames (view (machine w)))(key \<mapsto> j),
      vobjs := (vobjs (view (machine w)))(j := bs), vhandles := (vhandles (view (machine w)))(h \<mapsto> j)\<rparr>"
    and "w' = w\<lparr>machine := machine w', sharedObjectList := (sharedObjectList w)(key \<mapsto>
      (requested_object w key n)\<lparr>sharedMemoryHandle := Some h, so_size := of_nat (length bs)\<rparr>)\<rparr>"
proof -
  let ?so = "requested_object w key n"
  obtain so' m' where run: "SO_allocateSharedMemory B (?so, machine w) = (Inr (), so', m')"
    and le: "n \<le> so_size ?so" and w': "w' = w\<lparr>machine := m', sharedObjectList := (sharedObjectList w)(key \<mapsto> so')\<rparr>"
    using allocate_internal_Inr [OF assms(1)] by blast
  have key: "so_key ?so = key"
    using requested_object_ok [OF assms(2)] by simp
  have size: "unat n \<le> unat (so_size ?so)"
    using le by (simp add: word_le_nat_alt)
  obtain h j bs where new: "vnames (view (machine w)) key = None" "vhandles (view (machine w)) h = None"
    "unreferenced j (view (machine w))" "unat (so_size ?so) \<le> length bs" "0 < length bs" "length bs < max_object"
    "(\<forall>os. signal_ok B os) \<longrightarrow> bs = replicate (length bs) 0"
    "so' = ?so\<lparr>sharedMemoryHandle := Some h, so_size := of_nat (length bs)\<rparr>"
    "view m' = (view (machine w))\<lparr>vnames := (vnames (view (machine w)))(key \<mapsto> j),
      vobjs := (vobjs (view (machine w)))(j := bs), vhandles := (vhandles (view (machine w)))(h \<mapsto> j)\<rparr>"
    using SO_allocate_fresh [OF run unopened_object [OF assms(3)]] unfolding key by blast
  show thesis
    by (rule that [of h j bs]) (use new size in \<open>simp_all add: w'\<close>)
qed

lemma map_internal_new:
  assumes "mapSharedMemoryInternal B key w = (Inr p, w')" and "registry_ok w" and "unopened w key"
  obtains h j r so where "vnames (view (machine w)) key = Some j" and "vhandles (view (machine w)) h = None"
    and "vregions (view (machine w)) r = None" and "p = Ptr r 0"
    and "view (machine w') = (view (machine w))\<lparr>vhandles := (vhandles (view (machine w)))(h \<mapsto> j),
      vregions := (vregions (view (machine w)))(r \<mapsto> j)\<rparr>"
    and "sharedMemoryHandle so = Some h" and "mappedRegionHandle so = Some r" and "shared_ptr so = Some p"
    and "so_key so = key" and "ownData so = ownData (object_at w key)"
    and "w' = w\<lparr>machine := machine w', sharedObjectList := (sharedObjectList w)(key \<mapsto> so),
      mapCounter := (mapCounter w)(key \<mapsto> counter_before w key + 1)\<rparr>"
proof -
  obtain so' m' where run: "SO_mapSharedMemory B (object_at w key, machine w) = (Inr p, so', m')"
    and w': "w' = w\<lparr>machine := m', sharedObjectList := (sharedObjectList w)(key \<mapsto> so'),
      mapCounter := (mapCounter w)(key \<mapsto> counter_before w key + 1)\<rparr>"
    using map_internal_Inr [OF assms(1)] by blast
  have ok: "so_inv (object_at w key)" "so_key (object_at w key) = key"
    using object_at_ok [OF assms(2)] by simp_all
  have "sharedMemoryHandle (object_at w key) = None"
    using assms(3) by (simp add: unopened_def object_at_def split: option.split)
  from SO_map_closed [OF run ok(1) this] obtain h j r sz where new:
    "vnames (view (machine w)) key = Some j" "vhandles (view (machine w)) h = None"
    "vregions (view (machine w)) r = None" "p = region_address r"
    "so' = (object_at w key)\<lparr>sharedMemoryHandle := Some h, mappedRegionHandle := Some r, shared_ptr := Some p, so_size := sz\<rparr>"
    "view m' = (view (machine w))\<lparr>vhandles := (vhandles (view (machine w)))(h \<mapsto> j),
      vregions := (vregions (view (machine w)))(r \<mapsto> j)\<rparr>"
    unfolding ok(2) by blast
  show thesis
    by (rule that [of j h r so']) (use new ok(2) in \<open>simp_all add: w' region_address_def\<close>)
qed

lemma map_internal_open:
  assumes "mapSharedMemoryInternal B key w = (Inr p, w')" and "registry_ok w"
    and "sharedObjectList w key = Some so" and "sharedMemoryHandle so = Some h" and "mappedRegionHandle so = None"
  obtains j r where "vhandles (view (machine w)) h = Some j" and "vregions (view (machine w)) r = None" and "p = Ptr r 0"
    and "view (machine w') = (view (machine w))\<lparr>vregions := (vregions (view (machine w)))(r \<mapsto> j)\<rparr>"
    and "w' = w\<lparr>machine := machine w',
      sharedObjectList := (sharedObjectList w)(key \<mapsto> so\<lparr>mappedRegionHandle := Some r, shared_ptr := Some p\<rparr>),
      mapCounter := (mapCounter w)(key \<mapsto> counter_at w key + 1)\<rparr>"
proof -
  obtain so' m' where run: "SO_mapSharedMemory B (so, machine w) = (Inr p, so', m')"
    and w': "w' = w\<lparr>machine := m', sharedObjectList := (sharedObjectList w)(key \<mapsto> so'),
      mapCounter := (mapCounter w)(key \<mapsto> counter_at w key + 1)\<rparr>"
    using map_internal_Inr [OF assms(1)] assms(3) by (auto simp: object_at_def counter_before_def keyInMap_def)
  have ok: "so_inv so"
    using registry_okD(2) [OF assms(2,3)] .
  from SO_map_open [OF run ok assms(4,5)] obtain j r where new:
    "vhandles (view (machine w)) h = Some j" "vregions (view (machine w)) r = None" "p = region_address r"
    "so' = so\<lparr>mappedRegionHandle := Some r, shared_ptr := Some p\<rparr>"
    "view m' = (view (machine w))\<lparr>vregions := (vregions (view (machine w)))(r \<mapsto> j)\<rparr>"
    by blast
  show thesis
    by (rule that [of j r]) (use new in \<open>simp_all add: w' region_address_def\<close>)
qed

text \<open>Searching for an id changes the machine in the bytes of the counter only.\<close>

definition moves_counter :: "(('os, 'z) world_scheme, 'a) exec \<Rightarrow> bool" where
  "moves_counter m \<longleftrightarrow> (\<forall>w r w'. m w = (r, w') \<longrightarrow> counter_moved view w w')"

lemma moves_counter_andThen:
  assumes "moves_counter m" and "\<And>x. moves_counter (f x)"
  shows "moves_counter (andThen m f)"
  unfolding moves_counter_def
proof (intro allI impI)
  fix w r w'
  assume run: "andThen m f w = (r, w')"
  obtain r1 w1 where m: "m w = (r1, w1)"
    by fastforce
  then have "counter_moved view w w1"
    using assms(1) by (simp add: moves_counter_def)
  moreover have "counter_moved view w1 w'"
    using run m assms(2) by (cases r1) (auto simp: moves_counter_def counter_moved_refl)
  ultimately show "counter_moved view w w'"
    by (rule counter_moved_trans)
qed

lemma moves_counter_simple:
  "moves_counter (ok x)" "moves_counter (fail e)" "moves_counter (throwError msg)"
  "moves_counter m \<Longrightarrow> moves_counter m' \<Longrightarrow> moves_counter (if b then m else m')"
  by (auto simp: moves_counter_def ok_run fail_run throwError_run counter_moved_refl)

lemma moves_counter_read: "moves_counter (read_lastId B)"
  by (auto simp: moves_counter_def read_lastId_def fail_run counter_moved_refl split: option.splits)

lemma moves_counter_has: "moves_counter (hasSharedMemory B ident)"
  unfolding moves_counter_def hasSharedMemory_def
  using SO_has_view by (auto simp: counter_moved_def split: prod.splits) (metis snd_conv)+

lemma store_counter_moves:
  assumes "store_counter B p x w = (r, w')" and "lastId w = Some p"
  shows "counter_moved view w w'"
proof (cases "mem_store B p (le_bytes 8 (unat x)) (machine w)")
  case None
  then show ?thesis
    using assms by (simp add: store_counter_def sizeof_atomic_uint64_def fail_run counter_moved_refl)
next
  case (Some m)
  obtain b off where p: "p = Ptr b off"
    by (cases p)
  obtain j where j: "vregions (view (machine w)) b = Some j" "nat off + 8 \<le> length (vobjs (view (machine w)) j)"
    and v: "view m = (view (machine w))\<lparr>vobjs := (vobjs (view (machine w)))(j :=
      blit (nat off) (le_bytes 8 (unat x)) (vobjs (view (machine w)) j))\<rparr>"
    using store_Some [OF Some [unfolded p]] by (auto simp del: le_bytes.simps)
  have "w' = w\<lparr>machine := m\<rparr>"
    using assms(1) Some by (simp add: store_counter_def sizeof_atomic_uint64_def)
  then show ?thesis
    using j by (simp add: counter_moved_def v p assms(2) del: le_bytes.simps)
qed

lemma moves_counter_increment: "moves_counter (increment_lastId B)"
  unfolding increment_lastId_def
proof (rule moves_counter_andThen [OF moves_counter_read])
  fix x
  show "moves_counter (\<lambda>w. case lastId w of None \<Rightarrow> fail (Undefined ''null lastId'') w
      | Some p \<Rightarrow> andThen (store_counter B p (x + 1)) (\<lambda>_. ok (x + 1)) w)"
    unfolding moves_counter_def
    by (auto simp: fail_run ok_run andThen_run counter_moved_refl dest!: store_counter_moves
        split: option.splits prod.splits sum.splits)
qed

lemma moves_counter_loop: "moves_counter (getNextId_loop B start fuel)"
  by (induction fuel)
    (auto intro!: moves_counter_andThen moves_counter_simple moves_counter_increment moves_counter_has)

lemma moves_counter_getNextId: "moves_counter (getNextId B)"
  unfolding getNextId_def by (rule moves_counter_andThen [OF moves_counter_read moves_counter_loop])

lemma getNextId_moves: "getNextId B w = (r, w') \<Longrightarrow> counter_moved view w w'"
  using moves_counter_getNextId unfolding moves_counter_def by blast

end

context shm_os_live
begin

text \<open>The id that is found has no segment.\<close>

lemma hasSharedMemory_Inr:
  assumes "hasSharedMemory B ident w = (Inr b, w')"
  shows "b \<longleftrightarrow> vnames (view (machine w')) (getKey ident) \<noteq> None"
  using assms SO_has_iff [of "getKey ident" "machine w"] SO_has_view [of "getKey ident" "machine w"]
  by (auto simp: hasSharedMemory_def split: prod.splits)

lemma getNextId_loop_free:
  "getNextId_loop B start fuel w = (Inr ident, w') \<Longrightarrow> vnames (view (machine w')) (getKey ident) = None"
proof (induction fuel arbitrary: w)
  case 0
  then show ?case by (simp add: fail_run)
next
  case (Suc fuel)
  obtain x w1 b w2 where has: "hasSharedMemory B (to_string (unat x)) w1 = (Inr b, w2)"
    and rest: "(if \<not> b then ok (to_string (unat x)) else if x \<noteq> start then getNextId_loop B start fuel
      else throwError no_key_message) w2 = (Inr ident, w')"
    using Suc.prems by (auto elim!: andThen_InrE)
  show ?case
  proof (cases b)
    case True
    then have "getNextId_loop B start fuel w2 = (Inr ident, w')"
      using rest by (simp add: throwError_run split: if_splits)
    then show ?thesis
      by (rule Suc.IH)
  next
    case False
    then show ?thesis
      using rest hasSharedMemory_Inr [OF has] by (simp add: ok_run)
  qed
qed

lemma getNextId_free: "getNextId B w = (Inr ident, w') \<Longrightarrow> vnames (view (machine w')) (getKey ident) = None"
  using getNextId_loop_free by (auto simp: getNextId_def elim!: andThen_InrE)

end

section \<open>A new vector\<close>

text \<open>
  \<open>new_segment\<close>: from \<open>w\<close> to \<open>w'\<close> the segment \<open>key\<close> came into being, opened by handle \<open>h\<close> and mapped by
  \<open>r\<close>, as object \<open>j\<close> with the bytes \<open>bs\<close>; no other name, handle, mapping or byte changed.
\<close>

definition new_segment :: "('os \<Rightarrow> shm_view) \<Rightarrow> ('os, 'z) world_scheme \<Rightarrow> ('os, 'z) world_scheme \<Rightarrow>
    string \<Rightarrow> nat \<Rightarrow> nat \<Rightarrow> nat \<Rightarrow> byte list \<Rightarrow> bool" where
  "new_segment view w w' key h j r bs \<longleftrightarrow>
     vnames (view (machine w)) key = None \<and> vhandles (view (machine w)) h = None \<and>
     vregions (view (machine w)) r = None \<and> unreferenced j (view (machine w)) \<and>
     view (machine w') = (view (machine w))\<lparr>vnames := (vnames (view (machine w)))(key \<mapsto> j),
       vobjs := (vobjs (view (machine w)))(j := bs), vhandles := (vhandles (view (machine w)))(h \<mapsto> j),
       vregions := (vregions (view (machine w)))(r \<mapsto> j)\<rparr>"

text \<open>The object that allocating, mapping and owning a new segment leaves in the registry.\<close>

definition owned_object :: "shared_object \<Rightarrow> string \<Rightarrow> nat \<Rightarrow> nat \<Rightarrow> nat \<Rightarrow> bool" where
  "owned_object so key h r n \<longleftrightarrow> so_key so = key \<and> sharedMemoryHandle so = Some h \<and> mappedRegionHandle so = Some r \<and>
     shared_ptr so = Some (Ptr r 0) \<and> so_size so = of_nat n"

lemma in_sync_moved:
  assumes "in_sync view w" and "counter_moved view w w1"
  shows "in_sync view w1"
proof -
  obtain m where "w1 = w\<lparr>machine := m\<rparr>"
    using counter_moved_machine [OF assms(2)] by blast
  then show ?thesis
    using assms(2) by (intro in_sync_cong [OF assms(1)]) (simp_all add: counter_moved_def)
qed

text \<open>Opening one more segment, new or not, keeps the agreement of registry and machine.\<close>

lemma in_sync_opened:
  assumes "in_sync view w" and "sharedObjectList w' = (sharedObjectList w)(key \<mapsto> so)"
    and "vhandles (view (machine w)) h = None" and "vregions (view (machine w)) r = None"
    and "vhandles (view (machine w')) = (vhandles (view (machine w)))(h \<mapsto> j)"
    and "vregions (view (machine w')) = (vregions (view (machine w)))(r \<mapsto> j)"
    and "vnames (view (machine w')) = (vnames (view (machine w)))(key \<mapsto> j)"
    and "sharedMemoryHandle so = Some h" and "mappedRegionHandle so = Some r"
  shows "in_sync view w'"
  unfolding in_sync_def assms(2,5-7)
proof (intro allI impI)
  fix k so'
  assume entry: "((sharedObjectList w)(key \<mapsto> so)) k = Some so'"
  show "(\<forall>h'. sharedMemoryHandle so' = Some h' \<longrightarrow>
      ((vhandles (view (machine w)))(h \<mapsto> j)) h' \<noteq> None \<and>
      ((vhandles (view (machine w)))(h \<mapsto> j)) h' = ((vnames (view (machine w)))(key \<mapsto> j)) k) \<and>
    (\<forall>r'. mappedRegionHandle so' = Some r' \<longrightarrow>
      ((vregions (view (machine w)))(r \<mapsto> j)) r' \<noteq> None \<and>
      ((vregions (view (machine w)))(r \<mapsto> j)) r' = ((vnames (view (machine w)))(key \<mapsto> j)) k)"
  proof (cases "k = key")
    case True
    then show ?thesis
      using entry assms(8,9) by auto
  next
    case False
    then have "sharedObjectList w k = Some so'"
      using entry by simp
    then have old: "\<forall>h'. sharedMemoryHandle so' = Some h' \<longrightarrow> vhandles (view (machine w)) h' \<noteq> None \<and>
        vhandles (view (machine w)) h' = vnames (view (machine w)) k"
      "\<forall>r'. mappedRegionHandle so' = Some r' \<longrightarrow> vregions (view (machine w)) r' \<noteq> None \<and>
        vregions (view (machine w)) r' = vnames (view (machine w)) k"
      using assms(1) unfolding in_sync_def by blast+
    then show ?thesis
      using assms(3,4) False by (intro conjI allI impI) (metis fun_upd_apply option.distinct(1))+
  qed
qed

lemma in_sync_new_segment:
  assumes "in_sync view w" and "new_segment view w w' key h j r bs"
    and "sharedObjectList w' = (sharedObjectList w)(key \<mapsto> so)" and "owned_object so key h r n"
  shows "in_sync view w'"
  by (rule in_sync_opened [OF assms(1,3), of h r j]) (use assms(2,4) in \<open>simp_all add: new_segment_def owned_object_def\<close>)

context shm_os
begin

lemma allocate_map_Inr:
  assumes "allocateSharedMemoryInternal B key n w = (Inr u, w1)" and "mapSharedMemoryInternal B key w1 = (Inr p, w')"
    and "registry_ok w" and "unopened w key"
  obtains h j r bs so where "new_segment view w w' key h j r bs" and "p = Ptr r 0" and "unat n \<le> length bs"
    and "length bs < max_object" and "(\<forall>os. signal_ok B os) \<longrightarrow> bs = replicate (length bs) 0"
    and "owned_object so key h r (length bs)"
    and "w' = w\<lparr>machine := machine w', sharedObjectList := (sharedObjectList w)(key \<mapsto> so),
      mapCounter := (mapCounter w)(key \<mapsto> counter_at w key + 1)\<rparr>"
proof -
  let ?so0 = "requested_object w key n"
  obtain h j bs where new: "vnames (view (machine w)) key = None" "vhandles (view (machine w)) h = None"
    "unreferenced j (view (machine w))" "unat n \<le> length bs" "length bs < max_object"
    "(\<forall>os. signal_ok B os) \<longrightarrow> bs = replicate (length bs) 0"
    and v1: "view (machine w1) = (view (machine w))\<lparr>vnames := (vnames (view (machine w)))(key \<mapsto> j),
      vobjs := (vobjs (view (machine w)))(j := bs), vhandles := (vhandles (view (machine w)))(h \<mapsto> j)\<rparr>"
    and w1: "w1 = w\<lparr>machine := machine w1, sharedObjectList := (sharedObjectList w)(key \<mapsto>
      ?so0\<lparr>sharedMemoryHandle := Some h, so_size := of_nat (length bs)\<rparr>)\<rparr>"
    by (rule allocate_internal_fresh [OF assms(1,3,4)])
  define so1 where "so1 = ?so0\<lparr>sharedMemoryHandle := Some h, so_size := of_nat (length bs)\<rparr>"
  have so0: "so_inv ?so0" "so_key ?so0 = key"
    using requested_object_ok [OF assms(3)] by simp_all
  have unmapped: "mappedRegionHandle ?so0 = None"
    using so0(1) unopened_object [OF assms(4)] by (auto simp: so_inv_def)
  have list1: "sharedObjectList w1 = (sharedObjectList w)(key \<mapsto> so1)" and counter1: "counter_at w1 = counter_at w"
    "mapCounter w1 = mapCounter w"
    unfolding so1_def by (subst w1; simp add: counter_at_def fun_eq_iff)+
  have reg1: "registry_ok w1"
    using assms(3) so0 unmapped by (auto simp: registry_ok_def list1 so1_def so_inv_def)
  have h1: "sharedMemoryHandle so1 = Some h" "mappedRegionHandle so1 = None" "sharedObjectList w1 key = Some so1"
    by (simp_all add: so1_def unmapped list1)
  obtain j' r where map: "vhandles (view (machine w1)) h = Some j'" "vregions (view (machine w1)) r = None" "p = Ptr r 0"
    "view (machine w') = (view (machine w1))\<lparr>vregions := (vregions (view (machine w1)))(r \<mapsto> j')\<rparr>"
    and w': "w' = w1\<lparr>machine := machine w',
      sharedObjectList := (sharedObjectList w1)(key \<mapsto> so1\<lparr>mappedRegionHandle := Some r, shared_ptr := Some p\<rparr>),
      mapCounter := (mapCounter w1)(key \<mapsto> counter_at w1 key + 1)\<rparr>"
    by (rule map_internal_open [OF assms(2) reg1 h1(3,1,2)])
  have j': "j' = j"
    using map(1) by (simp add: v1)
  show thesis
  proof (rule that)
    show "new_segment view w w' key h j r bs"
      using new map by (simp add: new_segment_def v1 j')
    show "owned_object (so1\<lparr>mappedRegionHandle := Some r, shared_ptr := Some p\<rparr>) key h r (length bs)"
      using so0 map(3) by (simp add: owned_object_def so1_def)
    show "w' = w\<lparr>machine := machine w',
        sharedObjectList := (sharedObjectList w)(key \<mapsto> so1\<lparr>mappedRegionHandle := Some r, shared_ptr := Some p\<rparr>),
        mapCounter := (mapCounter w)(key \<mapsto> counter_at w key + 1)\<rparr>"
      by (subst w', subst (2) w1) (simp add: list1 counter1)
  qed (use new map in auto)
qed

end

text \<open>
  \<open>new_vector\<close>: from \<open>w\<close> to \<open>w'\<close> the session got the vector \<open>v\<close> of \<open>len\<close> elements, on a new segment that
  this process owns and an external pointer holds; nothing else changed but the counter of ids.
\<close>

definition new_vector :: "('os \<Rightarrow> shm_view) \<Rightarrow> 'os session \<Rightarrow> 'os session \<Rightarrow> shared_vector \<Rightarrow> int \<Rightarrow> u64 \<Rightarrow> nat \<Rightarrow>
    byte list \<Rightarrow> bool" where
  "new_vector view w w' v type len j bs \<longleftrightarrow> (\<exists>w1 h r so typeSize.
     counter_moved view w w1 \<and> new_segment view w1 w' (getKey (sv_tag v)) h j r bs \<and>
     owned_object so (getKey (sv_tag v)) h r (length bs) \<and> ownData so \<and>
     getTypeSize type = Inr typeSize \<and> unat (len * typeSize) \<le> length bs \<and> length bs < max_object \<and>
     sv_address v = Ptr r 0 \<and> class_type (sv_class v) = type \<and> info_dataId (sv_info v) = sv_tag v \<and>
     info_length (sv_info v) = len \<and> info_totalSize (sv_info v) = len * typeSize \<and> info_dataType (sv_info v) = type \<and>
     w' = w\<lparr>machine := machine w', sharedObjectList := (sharedObjectList w)(getKey (sv_tag v) \<mapsto> so),
            mapCounter := (mapCounter w)(getKey (sv_tag v) \<mapsto> counter_at w (getKey (sv_tag v)) + 1),
            extptrs := (Ptr r 0, sv_tag v) # extptrs w\<rparr>)"

context shm_os_live
begin

lemma allocate_auto_Inr:
  assumes "allocateSharedMemory B n '''' w = (Inr ident, w')"
  obtains w1 where "counter_moved view w w1" and "vnames (view (machine w1)) (getKey ident) = None"
    and "allocateSharedMemoryInternal B (getKey ident) n w1 = (Inr (), w')"
proof -
  obtain w1 where id: "getNextId B w = (Inr ident, w1)"
    and al: "allocateSharedMemoryInternal B (getKey ident) n w1 = (Inr (), w')"
    using assms by (auto simp: allocateSharedMemory_def ok_run elim!: andThen_InrE)
  show thesis
    by (rule that [OF getNextId_moves [OF id] getNextId_free [OF id] al])
qed

lemma createEmpty_Inr:
  assumes "createEmptySharedObject B type len cow sub cp a w = (Inr v, w')" and "registry_ok w" and "in_sync view w"
  shows "\<exists>j bs. new_vector view w w' v type len j bs \<and> ((\<forall>os. signal_ok B os) \<longrightarrow> bs = replicate (length bs) 0)"
proof -
  obtain typeSize ident wa p wb wc where ts: "getTypeSize type = Inr typeSize"
    and al: "allocateSharedMemory B (len * typeSize) '''' w = (Inr ident, wa)"
    and map: "mapSharedMemory B ident wa = (Inr p, wb)"
    and own: "autoReleaseAfterUse_set ident True wb = (Inr (), wc)"
    and fin: "w' = wc\<lparr>extptrs := (p, ident) # extptrs wc\<rparr>"
    and v: "sv_address v = p" "sv_tag v = ident" "class_type (sv_class v) = type"
      "sv_info v = \<lparr>info_dataId = ident, info_length = len, info_totalSize = len * typeSize,
         info_dataType = type, info_ownData = True, info_copyOnWrite = cow, info_sharedSubset = sub, info_sharedCopy = cp\<rparr>"
    using assms(1)
    by (auto simp: createEmptySharedObject_def Let_def of_sum_run make_external_ptr_def ok_run getAltClass_type
        elim!: andThen_InrE)
  obtain w1 where mv: "counter_moved view w w1" and free: "vnames (view (machine w1)) (getKey ident) = None"
    and al1: "allocateSharedMemoryInternal B (getKey ident) (len * typeSize) w1 = (Inr (), wa)"
    by (rule allocate_auto_Inr [OF al])
  obtain m where w1: "w1 = w\<lparr>machine := m\<rparr>"
    using counter_moved_machine [OF mv] by blast
  have reg1: "registry_ok w1"
    using assms(2) by (simp add: w1 registry_ok_def)
  have un1: "unopened w1 (getKey ident)"
    using in_sync_unopened [OF in_sync_moved [OF assms(3) mv] free] .
  obtain h j r bs so where new: "new_segment view w1 wb (getKey ident) h j r bs" "p = Ptr r 0"
    "unat (len * typeSize) \<le> length bs" "length bs < max_object" "(\<forall>os. signal_ok B os) \<longrightarrow> bs = replicate (length bs) 0"
    "owned_object so (getKey ident) h r (length bs)"
    and wb: "wb = w1\<lparr>machine := machine wb, sharedObjectList := (sharedObjectList w1)(getKey ident \<mapsto> so),
      mapCounter := (mapCounter w1)(getKey ident \<mapsto> counter_at w1 (getKey ident) + 1)\<rparr>"
    by (rule allocate_map_Inr [OF al1 map [unfolded mapSharedMemory_def] reg1 un1])
  have entry: "sharedObjectList wb (getKey ident) = Some so"
    by (subst wb) simp
  have wc: "wc = wb\<lparr>sharedObjectList := (sharedObjectList wb)(getKey ident \<mapsto> SO_setOwnership True so)\<rparr>"
    using own entry by (simp add: autoReleaseAfterUse_set_def emplace_object_def Let_def)
  have list_wb: "sharedObjectList wb = (sharedObjectList w)(getKey ident \<mapsto> so)"
    and counter_wb: "mapCounter wb = (mapCounter w)(getKey ident \<mapsto> counter_at w (getKey ident) + 1)"
    and ext_wb: "extptrs wb = extptrs w"
    by (subst wb; simp add: w1 counter_at_def)+
  have w': "w' = w\<lparr>machine := machine w', sharedObjectList := (sharedObjectList w)(getKey ident \<mapsto> SO_setOwnership True so),
      mapCounter := (mapCounter w)(getKey ident \<mapsto> counter_at w (getKey ident) + 1),
      extptrs := (Ptr r 0, ident) # extptrs w\<rparr>"
    unfolding fin wc by (subst wb) (simp add: w1 new(2) counter_at_def list_wb ext_wb)
  have "machine w' = machine wb"
    by (simp add: fin wc)
  then have "new_vector view w w' v type len j bs"
    unfolding new_vector_def v using mv new ts w' v
    by (intro exI [of _ w1] exI [of _ h] exI [of _ r] exI [of _ "SO_setOwnership True so"] exI [of _ typeSize])
      (auto simp: new_segment_def owned_object_def SO_setOwnership_def)
  then show ?thesis
    using new(5) by blast
qed

end

end
