(* ===== verification/VectorMemory.thy ===== *)
theory VectorMemory
  imports SegmentMemory
begin

text \<open>
  Loads, stores and loops over the bytes of a shared vector, and what the creation of vectors from
  a source, their reading in another process, duplication and subsetting do in terms of
  \<open>vector_bytes\<close>.
\<close>

section \<open>Writing one object\<close>

text \<open>From \<open>w\<close> to \<open>w'\<close> at most the bytes of object \<open>j\<close> changed, and not their number.\<close>

definition writes_object :: "('os \<Rightarrow> shm_view) \<Rightarrow> ('os, 'z) world_scheme \<Rightarrow> ('os, 'z) world_scheme \<Rightarrow> nat \<Rightarrow> bool" where
  "writes_object view w w' j \<longleftrightarrow> w' = w\<lparr>machine := machine w'\<rparr> \<and>
     vnames (view (machine w')) = vnames (view (machine w)) \<and>
     vhandles (view (machine w')) = vhandles (view (machine w)) \<and>
     vregions (view (machine w')) = vregions (view (machine w)) \<and>
     length (vobjs (view (machine w')) j) = length (vobjs (view (machine w)) j) \<and>
     (\<forall>i. i \<noteq> j \<longrightarrow> vobjs (view (machine w')) i = vobjs (view (machine w)) i)"

lemma writes_object_refl: "writes_object view w w j"
  by (simp add: writes_object_def)

lemma writes_object_machine: "writes_object view w w' j \<Longrightarrow> \<exists>m. w' = w\<lparr>machine := m\<rparr>"
  unfolding writes_object_def by blast

lemma writes_object_trans:
  assumes "writes_object view w w1 j" and "writes_object view w1 w2 j"
  shows "writes_object view w w2 j"
proof -
  obtain m1 where m1: "w1 = w\<lparr>machine := m1\<rparr>"
    using writes_object_machine [OF assms(1)] by blast
  obtain m2 where m2: "w2 = w1\<lparr>machine := m2\<rparr>"
    using writes_object_machine [OF assms(2)] by blast
  show ?thesis
    using assms by (simp add: writes_object_def m1 m2)
qed

lemma writes_object_registry:
  assumes "writes_object view w w' j"
  shows "registry_ok w \<Longrightarrow> registry_ok w'" and "in_sync view w \<Longrightarrow> in_sync view w'"
proof -
  obtain m where m: "w' = w\<lparr>machine := m\<rparr>"
    using writes_object_machine [OF assms] by blast
  show "registry_ok w \<Longrightarrow> registry_ok w'"
    by (simp add: m registry_ok_def)
  show "in_sync view w \<Longrightarrow> in_sync view w'"
    by (rule in_sync_cong) (use assms m in \<open>simp_all add: writes_object_def\<close>)
qed

lemma writes_object_vector: "writes_object view w w' j \<Longrightarrow> vector_object view w' v = vector_object view w v"
  by (simp add: writes_object_def vector_object_def)

lemma writes_object_other:
  assumes "writes_object view w w' j" and "vector_object view w v \<noteq> Some j"
  shows "vector_bytes view w' v = vector_bytes view w v"
proof (cases "vector_object view w v")
  case None
  then show ?thesis
    using writes_object_vector [OF assms(1), of v] by (simp add: vector_bytes_def)
next
  case (Some i)
  then have "i \<noteq> j"
    using assms(2) by simp
  then have "vobjs (view (machine w')) i = vobjs (view (machine w)) i"
    using assms(1) by (simp add: writes_object_def)
  then show ?thesis
    using Some writes_object_vector [OF assms(1), of v] by (simp add: vector_bytes_def Let_def)
qed

context shm_os
begin

lemma load_vector:
  assumes "vector_bytes view w v = Some bs" and "off + n \<le> length bs"
  shows "load_mem B (ptr_add (sv_address v) (int off)) n w = (Inr (slice off n bs), w)"
proof -
  obtain j r where v: "sv_address v = Ptr r 0" "vregions (view (machine w)) r = Some j"
    and len: "unat (info_totalSize (sv_info v)) \<le> length (vobjs (view (machine w)) j)"
    and bs: "bs = take (unat (info_totalSize (sv_info v))) (vobjs (view (machine w)) j)"
    using assms(1) by (auto simp: vector_bytes_Some)
  have fit: "off + n \<le> unat (info_totalSize (sv_info v))"
    using assms(2) vector_bytes_length [OF assms(1)] by simp
  then have "in_bounds (view (machine w)) (Ptr r (int off)) n"
    using len by (simp add: in_bounds_Ptr [OF v(2)])
  from load_ok [OF v(2) this] show ?thesis
    using fit by (simp add: load_mem_def v(1) bs slice_take)
qed

lemma load_vector_0:
  assumes "vector_bytes view w v = Some bs" and "n \<le> length bs"
  shows "load_mem B (sv_address v) n w = (Inr (take n bs), w)"
  using load_vector [OF assms(1), of 0 n] assms(2) by (cases "sv_address v") (simp add: slice_def)

lemma store_vector:
  assumes "vector_bytes view w v = Some bs" and "off + length xs \<le> length bs" and "vector_object view w v = Some j"
  obtains w' where "store_mem B (ptr_add (sv_address v) (int off)) xs w = (Inr (), w')"
    and "vector_bytes view w' v = Some (blit off xs bs)" and "writes_object view w w' j"
proof -
  obtain r where v: "sv_address v = Ptr r 0" "vregions (view (machine w)) r = Some j"
    and len: "unat (info_totalSize (sv_info v)) \<le> length (vobjs (view (machine w)) j)"
    and bs: "bs = take (unat (info_totalSize (sv_info v))) (vobjs (view (machine w)) j)"
    using assms(1,3) by (auto simp: vector_bytes_Some vector_object_def)
  let ?n = "unat (info_totalSize (sv_info v))" and ?obj = "vobjs (view (machine w)) j"
  have fit: "off + length xs \<le> ?n" "off + length xs \<le> length ?obj"
    using assms(2) len vector_bytes_length [OF assms(1)] by simp_all
  have "in_bounds (view (machine w)) (Ptr r (int off)) (length xs)"
    using fit by (simp add: in_bounds_Ptr [OF v(2)])
  from store_ok [OF v(2) this] obtain m where m: "mem_store B (Ptr r (int off)) xs (machine w) = Some m"
    and vm: "view m = (view (machine w))\<lparr>vobjs := (vobjs (view (machine w)))(j := blit off xs ?obj)\<rparr>"
    by auto
  have len': "length (blit off xs ?obj) = length ?obj"
    using fit by simp
  have "take ?n (blit off xs ?obj) = blit off xs (take ?n ?obj)"
    using fit len by (intro take_blit)
  then have "vector_bytes view (w\<lparr>machine := m\<rparr>) v = Some (blit off xs bs)"
    using v len len' by (auto simp: vector_bytes_Some vm bs)
  moreover have "writes_object view w (w\<lparr>machine := m\<rparr>) j"
    using len' by (simp add: writes_object_def vm)
  moreover have "store_mem B (ptr_add (sv_address v) (int off)) xs w = (Inr (), w\<lparr>machine := m\<rparr>)"
    using m by (simp add: store_mem_def v(1))
  ultimately show thesis
    using that by blast
qed

lemma store_vector_0:
  assumes "vector_bytes view w v = Some bs" and "length xs = length bs" and "vector_object view w v = Some j"
  obtains w' where "store_mem B (sv_address v) xs w = (Inr (), w')"
    and "vector_bytes view w' v = Some xs" and "writes_object view w w' j"
proof -
  obtain w' where w': "store_mem B (ptr_add (sv_address v) (int 0)) xs w = (Inr (), w')"
    "vector_bytes view w' v = Some (blit 0 xs bs)" "writes_object view w w' j"
    by (rule store_vector [OF assms(1) _ assms(3), of 0 xs]) (simp_all add: assms(2))
  then show thesis
    using that assms(2) by (cases "sv_address v") (simp add: blit_0_all)
qed

text \<open>A loop that fills the units of a vector one after another.\<close>

lemma fill_units_step:
  assumes "vector_bytes view w v = Some bs" and "vector_object view w v = Some j"
    and "\<And>i w'. i < n \<Longrightarrow> writes_object view w w' j \<Longrightarrow>
      body i w' = store_mem B (ptr_add (sv_address v) (int (i * u))) (f i) w'"
    and "\<And>i. i < n \<Longrightarrow> length (f i) = u" and "n * u \<le> length bs" and "m \<le> n"
  shows "\<exists>w'. forEach [0..<m] body w = (Inr (), w') \<and> vector_bytes view w' v = Some (write_units u f m bs) \<and>
    writes_object view w w' j"
  using assms(6)
proof (induction m)
  case 0
  then show ?case
    using assms(1) by (simp add: ok_run writes_object_refl)
next
  case (Suc m)
  then obtain w1 where w1: "forEach [0..<m] body w = (Inr (), w1)"
    "vector_bytes view w1 v = Some (write_units u f m bs)" "writes_object view w w1 j"
    by auto
  have "Suc m * u \<le> length bs"
    using Suc.prems assms(5) by (meson le_trans mult_le_mono1)
  moreover have "length (write_units u f m bs) = length bs"
    using Suc.prems assms(4) calculation by (intro length_write_units) auto
  ultimately obtain w2 where w2: "store_mem B (ptr_add (sv_address v) (int (m * u))) (f m) w1 = (Inr (), w2)"
    "vector_bytes view w2 v = Some (blit (m * u) (f m) (write_units u f m bs))" "writes_object view w1 w2 j"
    using store_vector [OF w1(2), of "m * u" "f m" j] assms(4) [of m] Suc.prems assms(2)
      writes_object_vector [OF w1(3), of v] by auto
  have "forEach ([0..<m] @ [m]) body w = (Inr (), w2)"
    using w1(1) w2(1) assms(3) [of m w1] w1(3) Suc.prems by (simp add: forEach_append andThen_run ok_run)
  then show ?case
    using w2 writes_object_trans [OF w1(3) w2(3)] by auto
qed

lemma fill_units:
  assumes "vector_bytes view w v = Some bs" and "vector_object view w v = Some j"
    and "\<And>i w'. i < n \<Longrightarrow> writes_object view w w' j \<Longrightarrow>
      body i w' = store_mem B (ptr_add (sv_address v) (int (i * u))) (f i) w'"
    and "\<And>i. i < n \<Longrightarrow> length (f i) = u" and "n * u = length bs"
  shows "\<exists>w'. forEach [0..<n] body w = (Inr (), w') \<and> vector_bytes view w' v = Some (concat (map f [0..<n])) \<and>
    writes_object view w w' j"
proof -
  have "\<exists>w'. forEach [0..<n] body w = (Inr (), w') \<and> vector_bytes view w' v = Some (write_units u f n bs) \<and>
    writes_object view w w' j"
    using assms by (intro fill_units_step [where n = n]) auto
  then show ?thesis
    using write_units_eq [of n f u bs] assms(4,5) by simp
qed

end

section \<open>New vectors\<close>

definition counter_object :: "('os \<Rightarrow> shm_view) \<Rightarrow> ('os, 'z) world_scheme \<Rightarrow> nat \<Rightarrow> bool" where
  "counter_object view w j \<longleftrightarrow> (\<exists>p. lastId w = Some p \<and> vregions (view (machine w)) (ptr_block p) = Some j)"

lemma new_vector_bytes:
  assumes "new_vector view w w' v type len j bs"
  shows "vector_object view w' v = Some j"
    and "vector_bytes view w' v = Some (take (unat (info_totalSize (sv_info v))) bs)"
    and "unat (info_totalSize (sv_info v)) \<le> length bs"
proof -
  obtain w1 h r so typeSize where new: "new_segment view w1 w' (getKey (sv_tag v)) h j r bs" "sv_address v = Ptr r 0"
    "unat (len * typeSize) \<le> length bs" "info_totalSize (sv_info v) = len * typeSize"
    using assms unfolding new_vector_def by blast
  show "vector_object view w' v = Some j"
    using new by (simp add: new_segment_def vector_object_def)
  show "unat (info_totalSize (sv_info v)) \<le> length bs"
    using new by simp
  then show "vector_bytes view w' v = Some (take (unat (info_totalSize (sv_info v))) bs)"
    using new by (simp add: new_segment_def vector_bytes_Some)
qed

text \<open>Older vectors keep their bytes; the counter of ids is the one exception.\<close>

lemma new_vector_keeps:
  assumes "new_vector view w w' v type len j bs" and "vector_object view w x = Some i" and "\<not> counter_object view w i"
  shows "vector_object view w' x = Some i" and "vector_bytes view w' x = vector_bytes view w x" and "i \<noteq> j"
proof -
  obtain w1 h r where mv: "counter_moved view w w1" and new: "new_segment view w1 w' (getKey (sv_tag v)) h j r bs"
    using assms(1) unfolding new_vector_def by blast
  have regions: "vregions (view (machine w1)) = vregions (view (machine w))"
    using mv by (simp add: counter_moved_def)
  have obj: "vobjs (view (machine w1)) i = vobjs (view (machine w)) i"
    using mv assms(3) unfolding counter_moved_def counter_object_def by blast
  have x: "vregions (view (machine w1)) (ptr_block (sv_address x)) = Some i"
    using assms(2) regions by (simp add: vector_object_def)
  then have "i \<in> ran (vregions (view (machine w1)))"
    by (rule ranI)
  then show ij: "i \<noteq> j"
    using new by (auto simp: new_segment_def unreferenced_def)
  have "ptr_block (sv_address x) \<noteq> r"
    using x new by (auto simp: new_segment_def)
  then show obj': "vector_object view w' x = Some i"
    using x new by (simp add: new_segment_def vector_object_def)
  have "vobjs (view (machine w')) i = vobjs (view (machine w)) i"
    using new ij obj by (simp add: new_segment_def)
  then show "vector_bytes view w' x = vector_bytes view w x"
    using obj' assms(2) by (simp add: vector_bytes_def Let_def)
qed

text \<open>The registry stays in good order.\<close>

lemma new_vector_registry:
  assumes "new_vector view w w' v type len j bs" and "registry_ok w"
  shows "registry_ok w'"
proof -
  let ?key = "getKey (sv_tag v)"
  obtain h r so where so: "owned_object so ?key h r (length bs)"
    and w': "w' = w\<lparr>machine := machine w', sharedObjectList := (sharedObjectList w)(?key \<mapsto> so),
      mapCounter := (mapCounter w)(?key \<mapsto> counter_at w ?key + 1), extptrs := (Ptr r 0, sv_tag v) # extptrs w\<rparr>"
    using assms(1) unfolding new_vector_def by blast
  have "sharedObjectList w' = (sharedObjectList w)(?key \<mapsto> so)"
    by (subst w') simp
  then show ?thesis
    using assms(2) so by (auto simp: registry_ok_def owned_object_def so_inv_def region_address_def)
qed

lemma new_vector_in_sync:
  assumes "new_vector view w w' v type len j bs" and "in_sync view w"
  shows "in_sync view w'"
proof -
  let ?key = "getKey (sv_tag v)"
  obtain w1 h r so where mv: "counter_moved view w w1" and new: "new_segment view w1 w' ?key h j r bs"
    and so: "owned_object so ?key h r (length bs)"
    and w': "w' = w\<lparr>machine := machine w', sharedObjectList := (sharedObjectList w)(?key \<mapsto> so),
      mapCounter := (mapCounter w)(?key \<mapsto> counter_at w ?key + 1), extptrs := (Ptr r 0, sv_tag v) # extptrs w\<rparr>"
    using assms(1) unfolding new_vector_def by blast
  have "sharedObjectList w1 = sharedObjectList w"
    using counter_moved_machine [OF mv] by auto
  moreover have "sharedObjectList w' = (sharedObjectList w)(?key \<mapsto> so)"
    by (subst w') simp
  ultimately show ?thesis
    using in_sync_new_segment [OF in_sync_moved [OF assms(2) mv] new _ so] by simp
qed

section \<open>Creating, reading, unsharing\<close>

text \<open>The sizes in the data information are those of the type.\<close>

definition vector_wf :: "shared_vector \<Rightarrow> bool" where
  "vector_wf v \<longleftrightarrow> (\<exists>ts. getTypeSize (class_type (sv_class v)) = Inr ts \<and>
     info_totalSize (sv_info v) = info_length (sv_info v) * ts)"

lemma new_vector_wf: "new_vector view w w' v type len j bs \<Longrightarrow> vector_wf v"
  unfolding new_vector_def vector_wf_def by force

lemma unat_mult_le: "unat (a * b :: u64) \<le> unat a * unat b"
  by (simp add: unat_word_ariths)

text \<open>What a vector to copy from delivers: \<open>n\<close> bytes \<open>xs\<close>.\<close>

definition source_bytes :: "('os \<Rightarrow> shm_view) \<Rightarrow> ('os, 'z) world_scheme \<Rightarrow> source_vector \<Rightarrow> nat \<Rightarrow> byte list \<Rightarrow> bool" where
  "source_bytes view w x n xs \<longleftrightarrow> length xs = n \<and>
     (case src_dataptr x of
        Some (In_heap bytes) \<Rightarrow> n \<le> length bytes \<and> xs = take n bytes
      | Some (In_mapping p) \<Rightarrow>
          (\<exists>v i. sv_address v = p \<and> vector_object view w v = Some i \<and> \<not> counter_object view w i \<and>
             vector_bytes view w v = Some xs)
      | None \<Rightarrow>
          (\<exists>ts. getTypeSize (src_type x) = Inr ts \<and> regions_of (unat ts) xs (src_regions x) \<and>
             (src_type x = INTSXP \<or> length (src_regions x) \<le> 1)))"

context shm_os
begin

lemma unshare_run:
  assumes "vector_bytes view w v = Some bs" and "vector_wf v"
  shows "unshare B v a w = (Inr \<lparr>rv_type = class_type (sv_class v), rv_length = info_length (sv_info v), rv_bytes = bs,
    rv_attributes = a\<rparr>, w)"
proof -
  obtain ts where ts: "getTypeSize (class_type (sv_class v)) = Inr ts"
    and total: "info_totalSize (sv_info v) = ts * info_length (sv_info v)"
    using assms(2) by (auto simp: vector_wf_def mult.commute)
  have len: "length bs = unat (ts * info_length (sv_info v))"
    using vector_bytes_length [OF assms(1)] by (simp add: total)
  have "\<not> unat (info_length (sv_info v)) * unat ts < unat (ts * info_length (sv_info v))"
    using unat_mult_le [of ts "info_length (sv_info v)"] by (simp add: mult.commute)
  moreover have "load_mem B (sv_address v) (unat (ts * info_length (sv_info v))) w = (Inr bs, w)"
    using load_vector_0 [OF assms(1), of "length bs"] len by simp
  ultimately show ?thesis
    by (simp add: unshare_def copy_to_regular_def getObjectSize_def ts Let_def of_sum_run andThen_run ok_run)
qed

lemma copy_regions_world:
  assumes "regions_of esize xs regions" and "vector_bytes view w v = Some bs" and "length xs = length bs"
    and "vector_object view w v = Some j" and "placed place 0 regions"
  shows "\<exists>w'. on_machine (copy_regions B (sv_address v) esize place 0 regions) w = (Inr (), w') \<and>
    vector_bytes view w' v = Some xs \<and> writes_object view w w' j"
proof -
  obtain r where v: "sv_address v = Ptr r 0" "vregions (view (machine w)) r = Some j"
    and len: "unat (info_totalSize (sv_info v)) \<le> length (vobjs (view (machine w)) j)"
    and bs: "bs = take (unat (info_totalSize (sv_info v))) (vobjs (view (machine w)) j)"
    using assms(2,4) by (auto simp: vector_bytes_Some vector_object_def)
  let ?n = "unat (info_totalSize (sv_info v))" and ?obj = "vobjs (view (machine w)) j"
  have n: "length xs = ?n"
    using assms(3) vector_bytes_length [OF assms(2)] by simp
  obtain m where m: "copy_regions B (Ptr r 0) esize (\<lambda>ind nbatch. ind) 0 regions (machine w) = (Inr (), m)"
    and vm: "view m = (view (machine w))\<lparr>vobjs := (vobjs (view (machine w)))(j := blit 0 xs ?obj)\<rparr>"
    using copy_regions_at_index [OF assms(1) v(2), of 0 0] len n by auto
  have "on_machine (copy_regions B (sv_address v) esize place 0 regions) w = (Inr (), w\<lparr>machine := m\<rparr>)"
    using m by (simp add: on_machine_def v(1) copy_regions_cong [OF assms(5)])
  moreover have "length (blit 0 xs ?obj) = length ?obj" "take ?n (blit 0 xs ?obj) = xs"
    using len n by (simp_all add: blit_def)
  then have "vector_bytes view (w\<lparr>machine := m\<rparr>) v = Some xs" "writes_object view w (w\<lparr>machine := m\<rparr>) j"
    using v len by (auto simp: vector_bytes_Some vm writes_object_def)
  ultimately show ?thesis
    by blast
qed

lemma copyData_type:
  assumes "getTypeSize type = Inr ts"
  shows "copyData B target type regions =
    copy_regions B target (unat ts) (if type = INTSXP then (\<lambda>ind nbatch. ind) else (\<lambda>ind nbatch. ind * nbatch)) 0 regions"
  using assms by (auto simp: getTypeSize_def copyData_def sexp_types split: if_splits)

lemma copyData_world:
  assumes "getTypeSize type = Inr ts" and "regions_of (unat ts) xs regions" and "type = INTSXP \<or> length regions \<le> 1"
    and "vector_bytes view w v = Some bs" and "length xs = length bs" and "vector_object view w v = Some j"
  shows "\<exists>w'. on_machine (copyData B (sv_address v) type regions) w = (Inr (), w') \<and>
    vector_bytes view w' v = Some xs \<and> writes_object view w w' j"
proof -
  have "placed (if type = INTSXP then (\<lambda>ind nbatch. ind) else (\<lambda>ind nbatch. ind * nbatch)) 0 regions"
  proof (cases "type = INTSXP")
    case False
    then have "regions = [] \<or> (\<exists>region. regions = [region])"
      using assms(3) by (cases regions) auto
    then show ?thesis
      using False by auto
  qed simp
  then show ?thesis
    unfolding copyData_type [OF assms(1)] by (rule copy_regions_world [OF assms(2,4-6)])
qed

end

context shm_os_live
begin

lemma createFromSource_Inr:
  assumes "createSharedObjectFromSource B x cow sub cp a w = (Inr v, w')" and "registry_ok w" and "in_sync view w"
    and "getObjectSize (src_type x) (src_length x) = Inr n" and "source_bytes view w x (unat n) xs"
  shows "\<exists>w1 j bs. new_vector view w w1 v (src_type x) (src_length x) j bs \<and> writes_object view w1 w' j \<and>
    vector_bytes view w' v = Some xs"
proof -
  obtain w1 where create: "createEmptySharedObject B (src_type x) (src_length x) cow sub cp a w = (Inr v, w1)"
    and copy: "(case src_dataptr x of
        Some d \<Rightarrow> andThen (read_data B d (unat n)) (store_mem B (sv_address v))
      | None \<Rightarrow> on_machine (copyData B (sv_address v) (src_type x) (src_regions x))) w1 = (Inr (), w')"
    using assms(1,4) by (auto simp: createSharedObjectFromSource_def of_sum_run ok_run elim!: andThen_InrE)
  obtain j bs where new: "new_vector view w w1 v (src_type x) (src_length x) j bs"
    using createEmpty_Inr [OF create assms(2,3)] by blast
  have total: "info_totalSize (sv_info v) = n"
    using assms(4) new by (auto simp: new_vector_def getObjectSize_def mult.commute)
  note obj = new_vector_bytes(1) [OF new] and bytes = new_vector_bytes(2) [OF new, unfolded total]
  have len: "length xs = length (take (unat n) bs)"
    using assms(5) new_vector_bytes(3) [OF new] by (simp add: source_bytes_def total)
  obtain w2 where store: "store_mem B (sv_address v) xs w1 = (Inr (), w2)"
    "vector_bytes view w2 v = Some xs" "writes_object view w1 w2 j"
    by (rule store_vector_0 [OF bytes len obj])
  have "vector_bytes view w' v = Some xs \<and> writes_object view w1 w' j"
  proof (cases "src_dataptr x")
    case None
    then show ?thesis
      using assms(5) copy copyData_world [OF _ _ _ bytes len obj] by (fastforce simp: source_bytes_def)
  next
    case (Some d)
    have "read_data B d (unat n) w1 = (Inr xs, w1)"
    proof (cases d)
      case (In_heap heap)
      then show ?thesis
        using assms(5) Some by (simp add: source_bytes_def read_data_def ok_run)
    next
      case (In_mapping p)
      then obtain v0 i where v0: "sv_address v0 = p" "vector_object view w v0 = Some i" "\<not> counter_object view w i"
        "vector_bytes view w v0 = Some xs"
        using assms(5) Some by (auto simp: source_bytes_def)
      have "vector_bytes view w1 v0 = Some xs"
        using new_vector_keeps(2) [OF new v0(2,3)] v0(4) by simp
      from load_vector_0 [OF this, of "unat n"] show ?thesis
        using In_mapping v0(1) assms(5) by (simp add: source_bytes_def read_data_def)
    qed
    then show ?thesis
      using copy Some store by (simp add: andThen_run)
  qed
  then show ?thesis
    using new by blast
qed

end

section \<open>Reading a segment by its id\<close>

text \<open>
  A process that has not opened the segment maps the object its name refers to; one that has it
  mapped already gets the same address again, and nothing else changes.
\<close>

lemma readSharedObject_Inr:
  assumes "readSharedObject B info w = (Inr v, w')"
  obtains w1 where "mapSharedMemoryInternal B (getKey (info_dataId info)) w = (Inr (sv_address v), w1)"
    and "w' = w1\<lparr>extptrs := (sv_address v, info_dataId info) # extptrs w1\<rparr>"
    and "sv_info v = info" and "sv_tag v = info_dataId info" and "class_type (sv_class v) = info_dataType info"
  using assms that
  by (auto simp: readSharedObject_def mapSharedMemory_def make_external_ptr_def of_sum_run ok_run getAltClass_type
      elim!: andThen_InrE)

lemma read_mapped:
  assumes "readSharedObject B info w = (Inr v, w')" and "counted w" and "mapped_at w (getKey (info_dataId info)) = Some p"
  shows "sv_address v = p \<and> machine w' = machine w \<and> sv_info v = info \<and> sv_tag v = info_dataId info \<and>
    class_type (sv_class v) = info_dataType info"
proof -
  obtain w1 where map: "mapSharedMemoryInternal B (getKey (info_dataId info)) w = (Inr (sv_address v), w1)"
    and v: "w' = w1\<lparr>extptrs := (sv_address v, info_dataId info) # extptrs w1\<rparr>"
      "sv_info v = info" "sv_tag v = info_dataId info" "class_type (sv_class v) = info_dataType info"
    by (rule readSharedObject_Inr [OF assms(1)])
  have addr: "sv_address v = p"
    using store.acquire_ok [OF assms(2) map] assms(3) by simp
  obtain so' m' where run: "SO_mapSharedMemory B (object_at w (getKey (info_dataId info)), machine w) = (Inr (sv_address v), so', m')"
    and w1: "w1 = w\<lparr>machine := m', sharedObjectList := (sharedObjectList w)(getKey (info_dataId info) \<mapsto> so'),
      mapCounter := (mapCounter w)(getKey (info_dataId info) \<mapsto> counter_before w (getKey (info_dataId info)) + 1)\<rparr>"
    using map_internal_Inr [OF map] by blast
  have "shared_ptr (object_at w (getKey (info_dataId info))) \<noteq> None"
    using assms(3) by (auto simp: mapped_at_def object_at_def split: option.splits)
  then have "m' = machine w"
    using SO_map_Inr [OF run conjunct1 [OF object_at_ok [OF counted_registry_ok [OF assms(2)]]]] by simp
  then show ?thesis
    using v addr by (simp add: w1)
qed

context shm_os
begin

lemma read_new:
  assumes "readSharedObject B info w = (Inr v, w')" and "registry_ok w" and "unopened w (getKey (info_dataId info))"
  obtains j where "vnames (view (machine w)) (getKey (info_dataId info)) = Some j" and "vector_object view w' v = Some j"
    and "ptr_off (sv_address v) = 0" and "sv_info v = info" and "sv_tag v = info_dataId info"
    and "class_type (sv_class v) = info_dataType info"
    and "vnames (view (machine w')) = vnames (view (machine w))" and "vobjs (view (machine w')) = vobjs (view (machine w))"
    and "\<And>r i. vregions (view (machine w)) r = Some i \<Longrightarrow> vregions (view (machine w')) r = Some i"
proof -
  obtain w1 where map: "mapSharedMemoryInternal B (getKey (info_dataId info)) w = (Inr (sv_address v), w1)"
    and v: "w' = w1\<lparr>extptrs := (sv_address v, info_dataId info) # extptrs w1\<rparr>"
      "sv_info v = info" "sv_tag v = info_dataId info" "class_type (sv_class v) = info_dataType info"
    by (rule readSharedObject_Inr [OF assms(1)])
  obtain h j r where new: "vnames (view (machine w)) (getKey (info_dataId info)) = Some j" "sv_address v = Ptr r 0"
    "vregions (view (machine w)) r = None"
    "view (machine w1) = (view (machine w))\<lparr>vhandles := (vhandles (view (machine w)))(h \<mapsto> j),
      vregions := (vregions (view (machine w)))(r \<mapsto> j)\<rparr>"
    by (rule map_internal_new [OF map assms(2,3)])
  show thesis
    by (rule that [of j]) (use new v in \<open>auto simp: vector_object_def\<close>)
qed

end

section \<open>Subsets\<close>

text \<open>Element \<open>i\<close> of the result is element \<open>f i\<close> of the vector, counted from 1.\<close>

definition selects :: "index_vector \<Rightarrow> u64 \<Rightarrow> nat \<Rightarrow> (nat \<Rightarrow> nat) \<Rightarrow> bool" where
  "selects indx ts n f \<longleftrightarrow> (\<forall>i < index_length indx.
     index_offset indx i ts = Inr (int (f i) * int (unat ts)) \<and> 1 \<le> f i \<and> f i \<le> n)"

lemma selects_Int:
  assumes "\<And>x. x \<in> set is \<Longrightarrow> 1 \<le> sint x \<and> sint x \<le> int n \<and> sint x * int (unat ts) < 2 ^ 31"
  shows "selects (Int_index is) ts n (\<lambda>i. nat (sint (is ! i)))"
  unfolding selects_def
proof (intro allI impI)
  fix i
  assume i: "i < index_length (Int_index is)"
  have x: "1 \<le> sint (is ! i)" "sint (is ! i) \<le> int n" "sint (is ! i) * int (unat ts) < 2 ^ 31"
    using assms [of "is ! i"] i by simp_all
  then have "0 \<le> sint (is ! i) * int (unat ts)"
    by (intro mult_nonneg_nonneg) simp_all
  then have "- (2 ^ 31) \<le> sint (is ! i) * int (unat ts)"
    by (rule order_trans [rotated]) simp
  moreover have "1 \<le> nat (sint (is ! i)) \<and> nat (sint (is ! i)) \<le> n"
    using x by linarith
  ultimately show "index_offset (Int_index is) i ts = Inr (int (nat (sint (is ! i))) * int (unat ts)) \<and>
      1 \<le> nat (sint (is ! i)) \<and> nat (sint (is ! i)) \<le> n"
    using x by (simp add: index_offset_def Let_def)
qed

lemma index_overflow:
  assumes "i < length is" and "2 ^ 31 \<le> sint (is ! i) * int (unat ts)"
  shows "index_offset (Int_index is) i ts = Inl (Undefined ''int overflow'')"
  using assms by (simp add: index_offset_def Let_def)

definition element :: "byte list \<Rightarrow> u64 \<Rightarrow> nat \<Rightarrow> byte list" where
  "element bs ts k = slice ((k - 1) * unat ts) (unat ts) bs"

lemma element_fits: "1 \<le> k \<Longrightarrow> k \<le> n \<Longrightarrow> (k - 1) * u + u \<le> n * (u::nat)"
  by (metis Suc_pred' add.commute less_eq_Suc_le mult_Suc mult_le_mono1 One_nat_def)

context shm_os
begin

lemma element_run:
  assumes "vector_bytes view w v = Some bs" and "n * unat ts \<le> length bs"
    and f: "index_offset indx i ts = Inr (int k * int (unat ts))" "1 \<le> k" "k \<le> n"
  shows "subset_element B (ptr_add (sv_address v) (- int (unat ts))) indx ts i w = (Inr (element bs ts k), w)"
proof -
  have "ptr_add (ptr_add (sv_address v) (- int (unat ts))) (int k * int (unat ts)) =
      ptr_add (sv_address v) (int ((k - 1) * unat ts))"
    using f(2) by (cases "sv_address v") (simp add: of_nat_diff algebra_simps)
  moreover have "(k - 1) * unat ts + unat ts \<le> length bs"
    using element_fits [OF f(2,3), of "unat ts"] assms(2) by linarith
  ultimately show ?thesis
    using load_vector [OF assms(1), of "(k - 1) * unat ts" "unat ts"]
    by (simp add: subset_element_def f(1) of_sum_run andThen_run element_def)
qed

lemma subset_element_run:
  assumes "vector_bytes view w v = Some bs" and "selects indx ts n f" and "n * unat ts \<le> length bs"
    and "i < index_length indx"
  shows "subset_element B (ptr_add (sv_address v) (- int (unat ts))) indx ts i w = (Inr (element bs ts (f i)), w)"
  using assms(2,4) by (intro element_run [OF assms(1,3)]) (auto simp: selects_def)

lemma subset_bytes_run:
  assumes "vector_bytes view w v = Some bs" and "selects indx ts n f" and "n * unat ts \<le> length bs"
    and "set is \<subseteq> {0..<index_length indx}"
  shows "subset_bytes B (ptr_add (sv_address v) (- int (unat ts))) indx ts is w =
    (Inr (concat (map (\<lambda>i. element bs ts (f i)) is)), w)"
  using assms(4)
proof (induction "is")
  case Nil
  then show ?case by (simp add: ok_run)
next
  case (Cons i "is")
  then show ?case
    using subset_element_run [OF assms(1-3), of i] by (simp add: andThen_run ok_run)
qed

text \<open>The first index whose product with the size of an element leaves \<open>int\<close> ends the loop.\<close>

lemma subset_bytes_fails:
  assumes "vector_bytes view w v = Some bs" and "n * unat ts \<le> length bs" and "indx = Int_index (pre @ x # rest)"
    and "\<And>y. y \<in> set pre \<Longrightarrow> 1 \<le> sint y \<and> sint y \<le> int n \<and> sint y * int (unat ts) < 2 ^ 31"
    and "2 ^ 31 \<le> sint x * int (unat ts)" and "k \<le> length pre"
  shows "subset_bytes B (ptr_add (sv_address v) (- int (unat ts))) indx ts [k..<index_length indx] w =
    (Inl (Undefined ''int overflow''), w)"
  using assms(6)
proof (induction "length pre - k" arbitrary: k)
  case 0
  then have k: "k = length pre"
    by simp
  have step: "[length pre..<index_length indx] = length pre # [Suc (length pre)..<index_length indx]"
    by (rule upt_conv_Cons) (simp add: assms(3))
  have "index_offset indx (length pre) ts = Inl (Undefined ''int overflow'')"
    unfolding assms(3) by (rule index_overflow) (use assms(5) in simp_all)
  then show ?case
    using step by (simp add: k subset_element_def of_sum_run andThen_run)
next
  case (Suc m)
  then have k: "k < length pre"
    by simp
  have step: "[k..<index_length indx] = k # [Suc k..<index_length indx]"
    by (rule upt_conv_Cons) (use k in \<open>simp add: assms(3)\<close>)
  have "selects (Int_index pre) ts n (\<lambda>i. nat (sint (pre ! i)))"
    using assms(4) by (intro selects_Int)
  then have "index_offset (Int_index pre) k ts = Inr (int (nat (sint (pre ! k))) * int (unat ts)) \<and>
      1 \<le> nat (sint (pre ! k)) \<and> nat (sint (pre ! k)) \<le> n"
    using k by (simp add: selects_def)
  moreover have "index_offset (Int_index pre) k ts = index_offset indx k ts"
    using k by (simp add: index_offset_def assms(3) nth_append)
  ultimately have "subset_element B (ptr_add (sv_address v) (- int (unat ts))) indx ts k w =
      (Inr (element bs ts (nat (sint (pre ! k)))), w)"
    by (intro element_run [OF assms(1,2)]) simp_all
  then show ?case
    using Suc.hyps(1) [of "Suc k"] Suc.hyps(2) k step by (simp add: andThen_run)
qed

lemma subset_regular:
  assumes "vector_bytes view w v = Some bs" and "getTypeSize (class_type (sv_class v)) = Inr ts"
    and "selects indx ts n f" and "n * unat ts \<le> length bs" and "\<not> info_sharedSubset (sv_info v)"
  shows "sharedVector_subset B v indx w =
    (Inr (Regular \<lparr>rv_type = class_type (sv_class v), rv_length = of_nat (index_length indx),
       rv_bytes = concat (map (\<lambda>i. element bs ts (f i)) [0..<index_length indx]), rv_attributes = R_NilValue\<rparr>), w)"
  using subset_bytes_run [OF assms(1,3,4), of "[0..<index_length indx]"] assms(2,5)
  by (simp add: sharedVector_subset_def Let_def of_sum_run andThen_run ok_run)

end

context shm_os_live
begin

lemma subset_shared:
  assumes "sharedVector_subset B v indx w = (Inr y, w')" and "registry_ok w" and "in_sync view w"
    and "vector_bytes view w v = Some bs" and "vector_object view w v = Some i0" and "\<not> counter_object view w i0"
    and "getTypeSize (class_type (sv_class v)) = Inr ts" and "selects indx ts n f" and "n * unat ts \<le> length bs"
    and "info_sharedSubset (sv_info v)" and "index_length indx * unat ts < 2 ^ 64"
  shows "\<exists>v' w1 j bs1. y = Shared v' \<and> new_vector view w w1 v' (class_type (sv_class v)) (of_nat (index_length indx)) j bs1 \<and>
    writes_object view w1 w' j \<and>
    vector_bytes view w' v' = Some (concat (map (\<lambda>i. element bs ts (f i)) [0..<index_length indx]))"
proof -
  let ?len = "index_length indx" and ?type = "class_type (sv_class v)" and ?info = "sv_info v"
  let ?body = "\<lambda>v' i. andThen (subset_element B (ptr_add (sv_address v) (- int (unat ts))) indx ts i)
    (\<lambda>bs. store_mem B (ptr_add (sv_address v') (int (i * unat ts))) bs)"
  obtain v' w1 where create: "createEmptySharedObject B ?type (of_nat ?len) (info_copyOnWrite ?info)
      (info_sharedSubset ?info) (info_sharedCopy ?info) R_NilValue w = (Inr v', w1)"
    and loop: "forEach [0..<?len] (?body v') w1 = (Inr (), w')" and y: "y = Shared v'"
    using assms(1,7,10)
    by (auto simp: sharedVector_subset_def Let_def of_sum_run ok_run elim!: andThen_InrE)
  obtain j bs1 where new: "new_vector view w w1 v' ?type (of_nat ?len) j bs1"
    using createEmpty_Inr [OF create assms(2,3)] by blast
  note keep = new_vector_keeps [OF new assms(5,6)]
  have ts_pos: "unat ts \<ge> 1"
    using unat_getTypeSize [OF assms(7)] by auto
  have len_small: "?len < 2 ^ 64"
    using assms(11) ts_pos by (metis le_less_trans mult_le_mono2 nat_mult_1_right)
  have total: "unat (info_totalSize (sv_info v')) = ?len * unat ts"
  proof -
    have "info_totalSize (sv_info v') = of_nat ?len * ts"
      using new assms(7) by (auto simp: new_vector_def)
    moreover have "unat (of_nat ?len :: u64) = ?len"
      using len_small by (simp add: unat_of_nat take_bit_eq_mod)
    ultimately show ?thesis
      using assms(11) by (simp add: unat_mult_lem [THEN iffD1])
  qed
  note obj' = new_vector_bytes(1) [OF new] and bytes' = new_vector_bytes(2) [OF new, unfolded total]
  have "\<exists>w'. forEach [0..<?len] (?body v') w1 = (Inr (), w') \<and>
    vector_bytes view w' v' = Some (concat (map (\<lambda>i. element bs ts (f i)) [0..<?len])) \<and> writes_object view w1 w' j"
  proof (rule fill_units [OF bytes' obj'])
    fix i w2
    assume i: "i < ?len" and w2: "writes_object view w1 w2 j"
    have "vector_bytes view w2 v = Some bs"
      using writes_object_other [OF w2, of v] keep assms(4) by simp
    from subset_element_run [OF this assms(8,9) i]
    show "?body v' i w2 = store_mem B (ptr_add (sv_address v') (int (i * unat ts))) (element bs ts (f i)) w2"
      by (simp add: andThen_run)
  next
    fix i
    assume i: "i < ?len"
    then have "1 \<le> f i" "f i \<le> n"
      using assms(8) by (auto simp: selects_def)
    then show "length (element bs ts (f i)) = unat ts"
      using element_fits [of "f i" n "unat ts"] assms(9) by (simp add: element_def)
  next
    show "?len * unat ts = length (take (?len * unat ts) bs1)"
      using new_vector_bytes(3) [OF new] total by simp
  qed
  then show ?thesis
    using loop y new by auto
qed

end

section \<open>Duplicating, serializing\<close>

context shm_os
begin

lemma copy_to_regular_run:
  assumes "vector_bytes view w v = Some bs" and "vector_wf v"
  shows "copy_to_regular B (class_type (sv_class v)) (info_length (sv_info v)) (sv_address v) (info_totalSize (sv_info v)) a w =
    (Inr \<lparr>rv_type = class_type (sv_class v), rv_length = info_length (sv_info v), rv_bytes = bs, rv_attributes = a\<rparr>, w)"
proof -
  obtain ts where ts: "getTypeSize (class_type (sv_class v)) = Inr ts"
    and total: "info_totalSize (sv_info v) = ts * info_length (sv_info v)"
    using assms(2) by (auto simp: vector_wf_def mult.commute)
  have "getObjectSize (class_type (sv_class v)) (info_length (sv_info v)) = Inr (info_totalSize (sv_info v))"
    by (simp add: getObjectSize_def ts total)
  then show ?thesis
    using unshare_run [OF assms, of a] by (simp add: unshare_def Let_def of_sum_run andThen_run)
qed

lemma duplicate_regular:
  assumes "vector_bytes view w v = Some bs" and "vector_wf v"
    and "info_copyOnWrite (sv_info v)" and "\<not> info_sharedCopy (sv_info v)"
  shows "sharedVector_duplicate B v deep w = (Inr (Regular \<lparr>rv_type = class_type (sv_class v),
    rv_length = info_length (sv_info v), rv_bytes = bs, rv_attributes = R_NilValue\<rparr>), w)"
  using copy_to_regular_run [OF assms(1,2)] assms(3,4)
  by (simp add: sharedVector_duplicate_def Let_def sharedVector_length_def sharedVector_dataptr_def andThen_run ok_run)

end

lemma duplicate_same:
  assumes "sharedVector_duplicate B v deep w = (Inr y, w')" and "counted w"
    and "mapped_at w (getKey (info_dataId (sv_info v))) = Some (sv_address v)" and "\<not> info_copyOnWrite (sv_info v)"
  shows "\<exists>v'. y = Shared v' \<and> sv_address v' = sv_address v \<and> sv_info v' = sv_info v \<and> machine w' = machine w"
  using assms read_mapped [OF _ assms(2,3)]
  by (auto simp: sharedVector_duplicate_def Let_def ok_run elim!: andThen_InrE)

context shm_os_live
begin

lemma duplicate_shared:
  assumes "sharedVector_duplicate B v deep w = (Inr y, w')" and "registry_ok w" and "in_sync view w"
    and "vector_bytes view w v = Some bs" and "vector_wf v" and "vector_object view w v = Some i" and "\<not> counter_object view w i"
    and "info_copyOnWrite (sv_info v)" and "info_sharedCopy (sv_info v)"
  shows "\<exists>v' j. y = Shared v' \<and> vector_bytes view w' v' = Some bs \<and> vector_bytes view w' v = Some bs \<and>
    vector_object view w' v' = Some j \<and> vector_object view w' v = Some i \<and> j \<noteq> i"
proof -
  obtain v' where dup: "createSharedObjectFromSource B (source_of_shared v) True (info_sharedSubset (sv_info v)) True
      R_NilValue w = (Inr v', w')" and y: "y = Shared v'"
    using assms(1,8,9) by (auto simp: sharedVector_duplicate_def Let_def ok_run elim!: andThen_InrE)
  obtain ts where ts: "getTypeSize (class_type (sv_class v)) = Inr ts"
    "info_totalSize (sv_info v) = ts * info_length (sv_info v)"
    using assms(5) by (auto simp: vector_wf_def mult.commute)
  have size: "getObjectSize (src_type (source_of_shared v)) (src_length (source_of_shared v)) = Inr (info_totalSize (sv_info v))"
    using ts by (simp add: source_of_shared_def sharedVector_length_def getObjectSize_def)
  have "source_bytes view w (source_of_shared v) (unat (info_totalSize (sv_info v))) bs"
    using assms(4,6,7) vector_bytes_length [OF assms(4)]
    by (auto simp: source_bytes_def source_of_shared_def sharedVector_dataptr_or_null_def sharedVector_dataptr_def)
  from createFromSource_Inr [OF dup assms(2,3) size this] obtain w1 j bs1 where
    new: "new_vector view w w1 v' (src_type (source_of_shared v)) (src_length (source_of_shared v)) j bs1"
    and wr: "writes_object view w1 w' j" and bytes: "vector_bytes view w' v' = Some bs"
    by blast
  note keep = new_vector_keeps [OF new assms(6,7)]
  have "vector_bytes view w' v = Some bs"
    using writes_object_other [OF wr, of v] keep assms(4) by simp
  moreover have "vector_object view w' v = Some i" "vector_object view w' v' = Some j"
    using writes_object_vector [OF wr] keep(1) new_vector_bytes(1) [OF new] by simp_all
  ultimately show ?thesis
    using y bytes keep(3) by blast
qed

lemma has_segment:
  assumes "b \<longleftrightarrow> vnames (view (machine w)) (getKey ident) \<noteq> None"
  obtains m where "hasSharedMemory B ident w = (Inr b, w\<lparr>machine := m\<rparr>)"
    and "view m = view (machine w)"
  using SO_has_iff [of "getKey ident" "machine w"] SO_has_view [of "getKey ident" "machine w"] that assms
  by (cases "SO_hasSharedMemory B (getKey ident) (machine w)") (auto simp: hasSharedMemory_def)

lemma serialize_live:
  assumes "vnames (view (machine w)) (getKey (info_dataId (sv_info v))) \<noteq> None"
  shows "\<exists>m. sharedVector_serialized_state B v w = (Inr (Serial_info (sv_info v)), w\<lparr>machine := m\<rparr>) \<and>
    view m = view (machine w)"
proof -
  obtain m where "hasSharedMemory B (info_dataId (sv_info v)) w = (Inr True, w\<lparr>machine := m\<rparr>)"
    "view m = view (machine w)"
    by (rule has_segment [of True w "info_dataId (sv_info v)"]) (use assms in simp)
  then show ?thesis
    by (auto simp: sharedVector_serialized_state_def Let_def andThen_run ok_run)
qed

lemma serialize_dead:
  assumes "vnames (view (machine w)) (getKey (info_dataId (sv_info v))) = None"
    and "vector_bytes view w v = Some bs" and "vector_wf v"
  shows "\<exists>msg w'. sharedVector_serialized_state B v w = (Inr (Serial_data \<lparr>rv_type = class_type (sv_class v),
      rv_length = info_length (sv_info v), rv_bytes = bs, rv_attributes = R_NilValue\<rparr>), w') \<and>
    warnings w' = warnings w @ [msg] \<and> view (machine w') = view (machine w)"
proof -
  obtain m where has: "hasSharedMemory B (info_dataId (sv_info v)) w = (Inr False, w\<lparr>machine := m\<rparr>)"
    "view m = view (machine w)"
    by (rule has_segment [of False w "info_dataId (sv_info v)"]) (use assms(1) in simp)
  let ?msg = "''The shared memory does not exist(id: '' @ info_dataId (sv_info v) @
    ''), the unshared data will be exported instead'' @ nl"
  let ?w = "w\<lparr>machine := m, warnings := warnings w @ [?msg]\<rparr>"
  have "vector_bytes view ?w v = Some bs"
    using assms(2) has(2) by (simp add: vector_bytes_Some)
  from unshare_run [OF this assms(3), of R_NilValue] show ?thesis
    using has by (simp add: sharedVector_serialized_state_def Let_def andThen_run ok_run warn_def)
qed

end

section \<open>Copies that go wrong\<close>

context shm_os
begin

text \<open>
  For every type but integers the second batch goes to element \<open>n1 * n2\<close>; unless it has a single
  element, it does not fit behind the vector.
\<close>

lemma copyData_second_batch:
  assumes "getTypeSize type = Inr ts" and "type \<noteq> INTSXP" and "0 < n1" and "1 < n2"
    and "length b1 = n1 * unat ts" and "length b2 = n2 * unat ts"
    and "vregions (view os) r = Some j" and "length (vobjs (view os) j) = (n1 + n2) * unat ts"
  shows "\<exists>os'. copyData B (Ptr r 0) type [(n1, b1), (n2, b2)] os = (Inl (Undefined ''memcpy''), os')"
proof -
  let ?u = "unat ts"
  have u: "0 < ?u"
    using unat_getTypeSize [OF assms(1)] by auto
  obtain os1 where os1: "memcpy_out B (Ptr r 0) 0 b1 os = (Inr (), os1)"
    and v1: "view os1 = (view os)\<lparr>vobjs := (vobjs (view os))(j := blit (nat 0 + 0) b1 (vobjs (view os) j))\<rparr>"
    by (rule memcpy_out_run [OF assms(7), of 0 0 b1]) (use assms(5,8) in \<open>simp_all add: algebra_simps\<close>)
  have len1: "length (vobjs (view os1) j) = (n1 + n2) * ?u"
    using assms(5,8) by (simp add: v1 algebra_simps)
  have "n1 + n2 < n1 * n2 + n2"
    using assms(3,4) by simp
  then have "(n1 + n2) * ?u < (n1 * n2 + n2) * ?u"
    using u by (rule mult_less_mono1)
  then have "length (vobjs (view os1) j) < nat 0 + n1 * n2 * ?u + length b2"
    by (simp add: len1 assms(6) algebra_simps)
  from memcpy_out_outside [OF _ _ this, of r] assms(7)
  have "memcpy_out B (Ptr r 0) (n1 * n2 * ?u) b2 os1 = (Inl (Undefined ''memcpy''), os1)"
    by (simp add: v1)
  then show ?thesis
    using os1 assms(2,5,6) by (simp add: copyData_type [OF assms(1)] andThen_run)
qed

end

end
