(* ===== verification/StringMemory.thy ===== *)
theory StringMemory
  imports SharedString VectorMemory
begin

text \<open>
  Shared strings over shared memory: the map of unique strings, the size of a unit, and what the
  operations on a shared string read and write. \<open>string_shows\<close> is the abstract value of a shared
  string, the list of strings it stands for.
\<close>

section \<open>The unique strings\<close>

definition unique_ok :: "(charsxp \<times> nat) list \<Rightarrow> bool" where
  "unique_ok m \<longleftrightarrow> distinct (map fst m) \<and> map snd m = [0..<length m]"

lemma unique_ok_insert: "unique_ok m \<Longrightarrow> unique_ok (insert_char c m)"
  by (auto simp: unique_ok_def insert_char_def map_of_eq_None_iff)

lemma insert_char_keys: "fst ` set (insert_char c m) = insert c (fst ` set m)"
  by (force simp: insert_char_def map_of_eq_None_iff dest: map_of_SomeD)

lemma fold_insert_char:
  "unique_ok m \<Longrightarrow> unique_ok (fold insert_char x m) \<and> fst ` set (fold insert_char x m) = set x \<union> fst ` set m"
  by (induction x arbitrary: m) (auto simp: unique_ok_insert insert_char_keys)

lemma find_unique_ok: "unique_ok (find_unique x)" "fst ` set (find_unique x) = set x"
  using fold_insert_char [of "[]" x] by (simp_all add: find_unique_def unique_ok_def)

lemma unique_index:
  assumes "unique_ok m" and "(c, i) \<in> set m"
  shows "i < length m" and "m ! i = (c, i)"
proof -
  obtain k where k: "k < length m" "m ! k = (c, i)"
    using assms(2) by (auto simp: in_set_conv_nth)
  moreover have "map snd m ! k = [0..<length m] ! k"
    using assms(1) by (simp add: unique_ok_def)
  ultimately have "k = i"
    by simp
  then show "i < length m" "m ! i = (c, i)"
    using k by simp_all
qed

lemma find_unique_length: "length (find_unique x) = card (set x)"
proof -
  have "distinct (map fst (find_unique x))"
    using find_unique_ok(1) by (simp add: unique_ok_def)
  then have "card (set (map fst (find_unique x))) = length (find_unique x)"
    by (metis distinct_card length_map)
  then show ?thesis
    using find_unique_ok(2) [of x] by simp
qed

text \<open>The character set inverts the map.\<close>

lemma fold_set_elt:
  assumes "\<And>c i. (c, i) \<in> set ps \<Longrightarrow> g i = c" and "length cs = n"
  shows "length (fold (\<lambda>(c, i) charSet. charSet[i := c]) ps cs) = n \<and>
    (\<forall>i < n. fold (\<lambda>(c, i) charSet. charSet[i := c]) ps cs ! i = (if i \<in> snd ` set ps then g i else cs ! i))"
  using assms
proof (induction ps arbitrary: cs)
  case Nil
  then show ?case by simp
next
  case (Cons p ps)
  obtain c k where p: "p = (c, k)"
    by fastforce
  have "g k = c"
    using Cons.prems(1) [of c k] by (simp add: p)
  moreover have IH: "length (fold (\<lambda>(c, i) charSet. charSet[i := c]) ps (cs[k := c])) = n \<and>
    (\<forall>i < n. fold (\<lambda>(c, i) charSet. charSet[i := c]) ps (cs[k := c]) ! i =
      (if i \<in> snd ` set ps then g i else cs[k := c] ! i))"
    using Cons.prems by (intro Cons.IH) auto
  ultimately show ?case
    using Cons.prems(2) by (auto simp: p nth_list_update)
qed

lemma char_set_nth:
  assumes "unique_ok m"
  shows "length (char_set m) = length m" and "i < length m \<Longrightarrow> char_set m ! i = fst (m ! i)"
proof -
  have g: "fst (m ! i) = c" if "(c, i) \<in> set (sort_key fst m)" for c i
    using unique_index [OF assms, of c i] that by simp
  have "snd ` set (sort_key fst m) = {0..<length m}"
    using assms unfolding unique_ok_def by (metis set_map set_sort set_upt)
  then show "length (char_set m) = length m" "i < length m \<Longrightarrow> char_set m ! i = fst (m ! i)"
    using fold_set_elt [of "sort_key fst m" "\<lambda>i. fst (m ! i)" "replicate (length m) R_BlankString" "length m"] g
    by (auto simp: char_set_def)
qed

lemma char_set_lookup:
  assumes "c \<in> set x"
  obtains i where "map_of (find_unique x) c = Some i" and "i < length (find_unique x)"
    and "char_set (find_unique x) ! i = c"
proof -
  have "c \<in> fst ` set (find_unique x)"
    using assms find_unique_ok(2) by simp
  then obtain i where i: "map_of (find_unique x) c = Some i"
    by (metis map_of_eq_None_iff not_None_eq)
  then have "(c, i) \<in> set (find_unique x)"
    by (rule map_of_SomeD)
  note ix = unique_index [OF find_unique_ok(1) this]
  show thesis
    using that [OF i ix(1)] char_set_nth(2) [OF find_unique_ok(1) ix(1)] ix(2) by simp
qed

section \<open>The size of a unit\<close>

lemma unit_bytes_le_iff:
  assumes "1 \<le> l"
  shows "unit_bytes n \<le> l \<longleftrightarrow> n \<le> 256 ^ l"
proof -
  let ?n = "if 1 < n then n else 2"
  have pow: "(2::real) ^ (8 * l) = real (256 ^ l)"
    by (simp add: power_mult)
  have "unit_bytes n \<le> l \<longleftrightarrow> log 2 (real ?n) / 8 \<le> real l"
    by (simp add: unit_bytes_def Let_def nat_le_iff ceiling_le_iff)
  also have "\<dots> \<longleftrightarrow> log 2 (real ?n) \<le> real (8 * l)"
    by (simp add: field_simps)
  also have "\<dots> \<longleftrightarrow> real ?n \<le> 2 powr real (8 * l)"
    by (subst log_le_iff) auto
  also have "\<dots> \<longleftrightarrow> ?n \<le> 256 ^ l"
    unfolding powr_realpow [OF zero_less_numeral] pow by (rule of_nat_le_iff)
  also have "\<dots> \<longleftrightarrow> n \<le> 256 ^ l"
  proof -
    have "(256::nat) ^ 1 \<le> 256 ^ l"
      using assms by (intro power_increasing) simp_all
    then show ?thesis
      by auto
  qed
  finally show ?thesis .
qed

lemma unit_bytes_pos: "1 \<le> unit_bytes n"
proof -
  let ?n = "if 1 < n then n else 2"
  have "0 < log 2 (real ?n)"
    by auto
  then have "0 < \<lceil>log 2 (real ?n) / 8\<rceil>"
    by simp
  then show ?thesis
    unfolding unit_bytes_def Let_def by linarith
qed

lemma unit_size_ceillog2: "unit_size n = 2 ^ ceillog2 (unit_bytes n)"
  using unit_bytes_pos [of n] by (simp add: unit_size_def ceillog2_def)

lemma unit_size_closed:
  "unit_size n = (if n \<le> 2 ^ 8 then 1 else if n \<le> 2 ^ 16 then 2 else if n \<le> 2 ^ 32 then 4
     else if n \<le> 2 ^ 64 then 8 else unit_size n)"
proof -
  have le: "ceillog2 (unit_bytes n) \<le> k \<longleftrightarrow> n \<le> 256 ^ (2 ^ k)" for k
    using ceillog2_le_iff [of "unit_bytes n" k] unit_bytes_pos [of n] unit_bytes_le_iff [of "2 ^ k" n] by simp
  have "ceillog2 (unit_bytes n) \<le> 0 \<longleftrightarrow> n \<le> 2 ^ 8" "ceillog2 (unit_bytes n) \<le> 1 \<longleftrightarrow> n \<le> 2 ^ 16"
    "ceillog2 (unit_bytes n) \<le> 2 \<longleftrightarrow> n \<le> 2 ^ 32" "ceillog2 (unit_bytes n) \<le> 3 \<longleftrightarrow> n \<le> 2 ^ 64"
    using le [of 0] le [of 1] le [of 2] le [of 3] by simp_all
  then have "n \<le> 2 ^ 8 \<Longrightarrow> ceillog2 (unit_bytes n) = 0"
    "\<not> n \<le> 2 ^ 8 \<Longrightarrow> n \<le> 2 ^ 16 \<Longrightarrow> ceillog2 (unit_bytes n) = 1"
    "\<not> n \<le> 2 ^ 16 \<Longrightarrow> n \<le> 2 ^ 32 \<Longrightarrow> ceillog2 (unit_bytes n) = 2"
    "\<not> n \<le> 2 ^ 32 \<Longrightarrow> n \<le> 2 ^ 64 \<Longrightarrow> ceillog2 (unit_bytes n) = 3"
    by linarith+
  then show ?thesis
    unfolding unit_size_ceillog2 by simp
qed

lemma unit_size_fits: "n \<le> 256 ^ unit_size n"
proof -
  have "unit_bytes n \<le> unit_size n"
    unfolding unit_size_ceillog2 by (rule le_two_power_ceillog2)
  then show ?thesis
    using unit_bytes_le_iff unit_bytes_pos by (metis le_trans)
qed

section \<open>What a shared string stands for\<close>

text \<open>
  The strings \<open>x\<close>, through the index: unit \<open>i\<close>, of \<open>u\<close> bytes, holds the position of \<open>x ! i\<close> in the character
  set. The cache is not looked at.
\<close>

definition string_shows :: "('os \<Rightarrow> shm_view) \<Rightarrow> 'os session \<Rightarrow> shared_string \<Rightarrow> charsxp list \<Rightarrow> bool" where
  "string_shows view w s x \<longleftrightarrow> (\<exists>d iv bs.
     ss_data s < length (string_lists w) \<and> string_lists w ! ss_data s = d \<and> STR_DATA_INDEX d = Shared iv \<and>
     vector_bytes view w iv = Some bs \<and> str_unitSize (ss_info s) \<in> {1, 2, 4, 8} \<and>
     unat (str_length (ss_info s)) = length x \<and> length x * unat (str_unitSize (ss_info s)) \<le> length bs \<and>
     (\<forall>i < length x. from_le (slice (i * unat (str_unitSize (ss_info s))) (unat (str_unitSize (ss_info s))) bs)
         < length (STR_DATA_CHARSET d) \<and>
       STR_DATA_CHARSET d ! from_le (slice (i * unat (str_unitSize (ss_info s))) (unat (str_unitSize (ss_info s))) bs) = x ! i))"

lemma unit_fits: "i < n \<Longrightarrow> n * u \<le> (m::nat) \<Longrightarrow> i * u + u \<le> m"
  by (metis Suc_leI add.commute le_trans mult_Suc mult_le_mono1)

context shm_os
begin

lemma charset_elt_run:
  assumes "STR_DATA_INDEX d = Shared iv" and "vector_bytes view w iv = Some bs" and "i * u + u \<le> length bs"
    and "from_le (slice (i * u) u bs) < length (STR_DATA_CHARSET d)"
  shows "charset_elt B d u i w = (Inr (STR_DATA_CHARSET d ! from_le (slice (i * u) u bs)), w)"
  using load_vector [OF assms(2,3)] assms(1,4)
  by (simp add: charset_elt_def index_load_def sharedVector_dataptr_def andThen_run STRING_ELT_def ok_run)

text \<open>The dispatch on the unit size, common to reading all strings and one.\<close>

lemma string_unit_run:
  assumes "string_shows view w s x" and "i < length x"
  shows "(if str_unitSize (ss_info s) = 1 then charset_elt B (string_lists w ! ss_data s) 1 i
     else if str_unitSize (ss_info s) = 2 then charset_elt B (string_lists w ! ss_data s) 2 i
     else if str_unitSize (ss_info s) = 4 then charset_elt B (string_lists w ! ss_data s) 4 i
     else if str_unitSize (ss_info s) = 8 then charset_elt B (string_lists w ! ss_data s) 8 i
     else m) w = (Inr (x ! i), w)"
proof -
  let ?u = "str_unitSize (ss_info s)" and ?d = "string_lists w ! ss_data s"
  obtain iv bs where iv: "STR_DATA_INDEX ?d = Shared iv" "vector_bytes view w iv = Some bs" "?u \<in> {1, 2, 4, 8}"
    "length x * unat ?u \<le> length bs" "from_le (slice (i * unat ?u) (unat ?u) bs) < length (STR_DATA_CHARSET ?d)"
    "STR_DATA_CHARSET ?d ! from_le (slice (i * unat ?u) (unat ?u) bs) = x ! i"
    using assms unfolding string_shows_def by blast
  have "charset_elt B ?d (unat ?u) i w = (Inr (x ! i), w)"
    using charset_elt_run [OF iv(1,2) unit_fits [OF assms(2) iv(4)] iv(5)] iv(6) by simp
  then show ?thesis
    using iv(3) by auto
qed

lemma read_strings_run:
  assumes "string_shows view w s x" and "set is \<subseteq> {0..<length x}"
  shows "read_strings B (string_lists w ! ss_data s) (str_unitSize (ss_info s)) is w = (Inr (map ((!) x) is), w)"
  using assms(2)
proof (induction "is")
  case Nil
  then show ?case by (simp add: ok_run)
next
  case (Cons i "is")
  then have "i < length x" "set is \<subseteq> {0..<length x}"
    by simp_all
  then show ?case
    unfolding read_strings.simps andThen_run [of _ _ w] string_unit_run [OF assms(1) \<open>i < length x\<close>]
    using Cons.IH by (simp add: andThen_run ok_run)
qed

lemma get_string_list_run:
  "string_shows view w s x \<Longrightarrow> get_string_list (ss_data s) w = (Inr (string_lists w ! ss_data s), w)"
  by (auto simp: string_shows_def get_string_list_def)

lemma check_dataptr_run:
  "string_shows view w s x \<Longrightarrow> check_dataptr (STR_DATA_INDEX (string_lists w ! ss_data s)) w = (Inr (), w)"
  by (auto simp: string_shows_def check_dataptr_def ok_run)

lemma unshareString_run:
  assumes "string_shows view w s x"
  shows "unshareString B s a w = (Inr \<lparr>rs_strings = x, rs_attributes = a\<rparr>, w)"
proof -
  have "unat (str_length (ss_info s)) = length x"
    using assms by (auto simp: string_shows_def)
  then show ?thesis
    using read_strings_run [OF assms, of "[0..<length x]"]
    by (simp add: unshareString_def andThen_run get_string_list_run [OF assms] check_dataptr_run [OF assms] ok_run map_nth)
qed

lemma sharedString_elt_run:
  assumes "string_shows view w s x" and "i < length x" and "STR_DATA_STRVEC (string_lists w ! ss_data s) = None"
  shows "sharedString_elt B s i w = (Inr (Some (x ! i)), w)"
proof -
  let ?u = "str_unitSize (ss_info s)" and ?d = "string_lists w ! ss_data s"
  have u: "?u \<in> {1, 2, 4, 8}"
    using assms(1) by (auto simp: string_shows_def)
  have "charset_elt B ?d (unat ?u) i w = (Inr (x ! i), w)"
    using string_unit_run [OF assms(1,2), of "charset_elt B ?d (unat ?u) i"] u by auto
  then show ?thesis
    using u
    by (auto simp: sharedString_elt_def Let_def andThen_run get_string_list_run [OF assms(1)]
        check_dataptr_run [OF assms(1)] assms(3) ok_run)
qed

end

section \<open>Creating\<close>

lemma unique_index_of:
  assumes "i < length x"
  obtains k where "map_of (find_unique x) (x ! i) = Some k" and "k < length (find_unique x)"
    and "char_set (find_unique x) ! k = x ! i"
  using char_set_lookup [OF nth_mem [OF assms]] .

definition index_at :: "charsxp list \<Rightarrow> nat \<Rightarrow> nat" where
  "index_at x i = the (map_of (find_unique x) (x ! i))"

lemma index_at:
  assumes "i < length x"
  shows "map_of (find_unique x) (x ! i) = Some (index_at x i)" and "index_at x i < length (find_unique x)"
    and "char_set (find_unique x) ! index_at x i = x ! i"
proof -
  obtain k where "map_of (find_unique x) (x ! i) = Some k" "k < length (find_unique x)"
    "char_set (find_unique x) ! k = x ! i"
    by (rule unique_index_of [OF assms])
  then show "map_of (find_unique x) (x ! i) = Some (index_at x i)" "index_at x i < length (find_unique x)"
    "char_set (find_unique x) ! index_at x i = x ! i"
    by (simp_all add: index_at_def)
qed

context shm_os
begin

lemma write_index_run:
  assumes "vector_bytes view w v = Some bs" and "vector_object view w v = Some j" and "length x * u = length bs"
  shows "\<exists>w'. write_index B (sharedVector_dataptr v True) u (find_unique x) x w = (Inr (), w') \<and>
    vector_bytes view w' v = Some (concat (map (\<lambda>i. le_bytes u (index_at x i)) [0..<length x])) \<and>
    writes_object view w w' j"
  unfolding write_index_def
  by (rule fill_units [OF assms(1,2) _ _ assms(3)]) (simp_all add: index_at sharedVector_dataptr_def)

end

context shm_os_live
begin

lemma createString_Inr:
  assumes "createSharedStringFromSource B x cow a w = (Inr s, w')" and "registry_ok w" and "in_sync view w"
    and "unit_size (length (find_unique x)) * length x < 2 ^ 64"
  shows "string_shows view w' s x \<and> STR_DATA_STRVEC (string_lists w' ! ss_data s) = Some x \<and>
    str_copyOnWrite (ss_info s) = cow \<and> ss_attributes s = a"
proof -
  let ?u = "unit_size (length (find_unique x))" and ?len = "of_nat (length x) :: u64"
  have u: "?u \<in> {1, 2, 4, 8}" and create: "\<exists>iv w1 w2.
      createEmptySharedObject B RAWSXP (of_nat ?u * ?len) True False False R_NilValue w = (Inr iv, w1) \<and>
      write_index B (sharedVector_dataptr iv True) ?u (find_unique x) x w1 = (Inr (), w2) \<and>
      w' = w2\<lparr>string_lists := string_lists w2 @ [\<lparr>STR_DATA_STRVEC = Some x, STR_DATA_INDEX = Shared iv,
        STR_DATA_CHARSET = char_set (find_unique x)\<rparr>]\<rparr> \<and>
      ss_data s = length (string_lists w2) \<and> str_length (ss_info s) = ?len \<and> str_unitSize (ss_info s) = of_nat ?u \<and>
      str_copyOnWrite (ss_info s) = cow \<and> ss_attributes s = a"
    using assms(1)
    by (auto simp: createSharedStringFromSource_def Let_def of_sum_run new_string_list_def ok_run fail_run
        split: if_splits elim!: andThen_InrE)
  then obtain iv w1 w2 where
    create: "createEmptySharedObject B RAWSXP (of_nat ?u * ?len) True False False R_NilValue w = (Inr iv, w1)"
    and wr: "write_index B (sharedVector_dataptr iv True) ?u (find_unique x) x w1 = (Inr (), w2)"
    and w': "w' = w2\<lparr>string_lists := string_lists w2 @ [\<lparr>STR_DATA_STRVEC = Some x, STR_DATA_INDEX = Shared iv,
        STR_DATA_CHARSET = char_set (find_unique x)\<rparr>]\<rparr>"
    and s: "ss_data s = length (string_lists w2)" "str_length (ss_info s) = ?len" "str_unitSize (ss_info s) = of_nat ?u"
      "str_copyOnWrite (ss_info s) = cow" "ss_attributes s = a"
    by blast
  obtain j bs where new: "new_vector view w w1 iv RAWSXP (of_nat ?u * ?len) j bs"
    using createEmpty_Inr [OF create assms(2,3)] by blast
  have "getTypeSize RAWSXP = Inr 1"
    by (simp add: getTypeSize_def sexp_types)
  then have "info_totalSize (sv_info iv) = of_nat (?u * length x)"
    using new by (auto simp: new_vector_def)
  then have total: "unat (info_totalSize (sv_info iv)) = ?u * length x"
    using assms(4) by (simp only: unat_of_nat take_bit_eq_mod) simp
  note bytes = new_vector_bytes(2) [OF new, unfolded total]
  have "length x * ?u = length (take (?u * length x) bs)"
    using new_vector_bytes(3) [OF new] by (simp add: total mult.commute)
  from write_index_run [OF bytes new_vector_bytes(1) [OF new] this] wr
  have bytes2: "vector_bytes view w2 iv = Some (concat (map (\<lambda>i. le_bytes ?u (index_at x i)) [0..<length x]))"
    by simp
  have uu: "unat (str_unitSize (ss_info s)) = ?u"
    using u s(3) by auto
  have "length x \<le> ?u * length x"
    using u by auto
  then have "length x < 2 ^ 64"
    using assms(4) by (rule le_less_trans)
  then have "unat (str_length (ss_info s)) = length x"
    by (simp add: s(2) unat_of_nat take_bit_eq_mod)
  moreover have "vector_bytes view w' iv = vector_bytes view w2 iv"
    by (rule vector_bytes_cong) (simp add: w')
  moreover have "from_le (slice (i * ?u) ?u (concat (map (\<lambda>i. le_bytes ?u (index_at x i)) [0..<length x]))) = index_at x i"
    if "i < length x" for i
  proof -
    have "index_at x i < 256 ^ ?u"
      using index_at(2) [OF that] unit_size_fits [of "length (find_unique x)"] by linarith
    then show ?thesis
      using slice_concat_units [of "length x" "\<lambda>i. le_bytes ?u (index_at x i)" ?u i "[]"] that
      by (simp add: from_le_bytes_id)
  qed
  moreover have "length (concat (map (\<lambda>i. le_bytes ?u (index_at x i)) [0..<length x])) = length x * ?u"
    by (rule length_concat_units) simp
  ultimately have "string_shows view w' s x"
    unfolding string_shows_def uu using u s bytes2 index_at char_set_nth(1) [OF find_unique_ok(1), of x]
    by (intro exI conjI) (auto simp: w')
  then show ?thesis
    using s by (simp add: w')
qed

end

section \<open>Setting an element\<close>

lemma find_char_mem:
  "v \<in> set cs \<Longrightarrow> find_char v cs < length cs \<and> cs ! find_char v cs = v"
  by (induction cs) auto

lemma find_char_absent: "v \<notin> set cs \<Longrightarrow> find_char v cs = length cs"
  by (induction cs) auto

text \<open>The parts of a shared string that its operations look at.\<close>

definition string_parts :: "('os \<Rightarrow> shm_view) \<Rightarrow> 'os session \<Rightarrow> shared_string \<Rightarrow> shared_vector \<Rightarrow> byte list \<Rightarrow> bool" where
  "string_parts view w s iv bs \<longleftrightarrow> ss_data s < length (string_lists w) \<and>
     STR_DATA_INDEX (string_lists w ! ss_data s) = Shared iv \<and> vector_bytes view w iv = Some bs"

lemma string_shows_parts:
  assumes "string_shows view w s x"
  obtains iv bs where "string_parts view w s iv bs" and "length x * unat (str_unitSize (ss_info s)) \<le> length bs"
  using assms unfolding string_shows_def string_parts_def by blast

lemma string_showsI:
  assumes "string_parts view w s iv bs" and "str_unitSize (ss_info s) \<in> {1, 2, 4, 8}"
    and "unat (str_length (ss_info s)) = length x" and "length x * unat (str_unitSize (ss_info s)) \<le> length bs"
    and "\<And>i. i < length x \<Longrightarrow>
      from_le (slice (i * unat (str_unitSize (ss_info s))) (unat (str_unitSize (ss_info s))) bs)
        < length (STR_DATA_CHARSET (string_lists w ! ss_data s)) \<and>
      STR_DATA_CHARSET (string_lists w ! ss_data s) !
        from_le (slice (i * unat (str_unitSize (ss_info s))) (unat (str_unitSize (ss_info s))) bs) = x ! i"
  shows "string_shows view w s x"
  using assms unfolding string_shows_def string_parts_def by blast

lemma string_showsD:
  assumes "string_shows view w s x" and "string_parts view w s iv bs"
  shows "str_unitSize (ss_info s) \<in> {1, 2, 4, 8}" and "unat (str_length (ss_info s)) = length x"
    and "length x * unat (str_unitSize (ss_info s)) \<le> length bs"
    and "i < length x \<Longrightarrow>
      from_le (slice (i * unat (str_unitSize (ss_info s))) (unat (str_unitSize (ss_info s))) bs)
        < length (STR_DATA_CHARSET (string_lists w ! ss_data s)) \<and>
      STR_DATA_CHARSET (string_lists w ! ss_data s) !
        from_le (slice (i * unat (str_unitSize (ss_info s))) (unat (str_unitSize (ss_info s))) bs) = x ! i"
  using assms unfolding string_shows_def string_parts_def by auto

context shm_os
begin

lemma set_elt_run:
  assumes "string_parts view w s iv bs" and "str_unitSize (ss_info s) \<in> {1, 2, 4, 8}" and "i < length bs"
    and "v \<in> set (STR_DATA_CHARSET (string_lists w ! ss_data s))"
  obtains w' where "sharedString_set_elt B s i v w = (Inr (), w')" and "string_lists w' = string_lists w"
    and "string_parts view w' s iv
      (blit i [of_nat (find_char v (STR_DATA_CHARSET (string_lists w ! ss_data s)))] bs)"
proof -
  let ?d = "string_lists w ! ss_data s"
  let ?k = "find_char v (STR_DATA_CHARSET ?d)"
  have parts: "ss_data s < length (string_lists w)" "STR_DATA_INDEX ?d = Shared iv" "vector_bytes view w iv = Some bs"
    using assms(1) by (simp_all add: string_parts_def)
  obtain j where j: "vector_object view w iv = Some j"
    using parts(3) by (auto simp: vector_bytes_def split: option.splits)
  obtain w1 where w1: "store_mem B (ptr_add (sv_address iv) (int i)) [of_nat ?k] w = (Inr (), w1)"
    "vector_bytes view w1 iv = Some (blit i [of_nat ?k] bs)" "writes_object view w w1 j"
    by (rule store_vector [OF parts(3) _ j, of i "[of_nat ?k]"]) (use assms(3) in auto)
  obtain m where m: "w1 = w\<lparr>machine := m\<rparr>"
    using writes_object_machine [OF w1(3)] by blast
  have same: "?d\<lparr>STR_DATA_INDEX := Shared iv\<rparr> = ?d"
    using parts(2) by (cases ?d) simp
  have k: "?k \<noteq> length (STR_DATA_CHARSET ?d)"
    using find_char_mem [OF assms(4)] by simp
  have unit: "str_unitSize (ss_info s) = 1 \<or> str_unitSize (ss_info s) = 2 \<or> str_unitSize (ss_info s) = 4 \<or>
      str_unitSize (ss_info s) = 8"
    using assms(2) by simp
  have "sharedString_set_elt B s i v w =
      (Inr (), w1\<lparr>string_lists := (string_lists w1)[ss_data s := ?d\<lparr>STR_DATA_INDEX := Shared iv\<rparr>]\<rparr>)"
    using parts(1) unit k w1(1)
    by (simp add: sharedString_set_elt_def Let_def andThen_run get_string_list_def check_dataptr_def parts(2) ok_run
        index_store_def sharedVector_dataptr_def set_string_list_def)
  also have "w1\<lparr>string_lists := (string_lists w1)[ss_data s := ?d\<lparr>STR_DATA_INDEX := Shared iv\<rparr>]\<rparr> = w1"
    unfolding same by (simp add: m)
  finally have "sharedString_set_elt B s i v w = (Inr (), w1)" .
  moreover have "string_lists w1 = string_lists w"
    by (simp add: m)
  ultimately show thesis
    using that w1(2) parts by (simp add: string_parts_def)
qed

text \<open>With units of one byte the assignment does what it should.\<close>

lemma set_elt_byte:
  assumes "string_shows view w s x" and "str_unitSize (ss_info s) = 1" and "i < length x"
    and "v \<in> set (STR_DATA_CHARSET (string_lists w ! ss_data s))"
    and "length (STR_DATA_CHARSET (string_lists w ! ss_data s)) \<le> 256"
  shows "\<exists>w'. sharedString_set_elt B s i v w = (Inr (), w') \<and> string_lists w' = string_lists w \<and>
    string_shows view w' s (x[i := v])"
proof -
  let ?cs = "STR_DATA_CHARSET (string_lists w ! ss_data s)"
  let ?k = "find_char v ?cs"
  obtain iv bs where parts: "string_parts view w s iv bs"
    by (rule string_shows_parts [OF assms(1)])
  note shown = string_showsD [OF assms(1) parts, unfolded assms(2), simplified]
  have i: "i < length bs"
    using assms(3) shown(3) by simp
  obtain w' where w': "sharedString_set_elt B s i v w = (Inr (), w')" "string_lists w' = string_lists w"
    "string_parts view w' s iv (blit i [of_nat ?k] bs)"
    by (rule set_elt_run [OF parts _ i assms(4)]) (simp add: assms(2))
  have k: "?k < length ?cs" "?cs ! ?k = v" "?k < 256"
    using find_char_mem [OF assms(4)] assms(5) by auto
  have byte: "unat (of_nat ?k :: byte) = ?k"
    using k(3) by (simp add: unat_of_nat take_bit_eq_mod)
  have unit: "from_le (slice l 1 (blit i [of_nat ?k] bs)) = (if l = i then ?k else from_le (slice l 1 bs))"
    if "l < length x" for l
  proof -
    have "slice l 1 (blit i [of_nat ?k] bs) = (if l = i then [of_nat ?k] else slice l 1 bs)"
    proof (cases "l = i")
      case True
      then show ?thesis
        using slice_blit_same [of i "[of_nat ?k]" bs] i by simp
    next
      case False
      then have "l + 1 \<le> i \<or> i + length [of_nat ?k :: byte] \<le> l"
        by auto
      then show ?thesis
        using slice_blit_other [of i "[of_nat ?k]" bs l 1] i that shown(3) False by simp
    qed
    then show ?thesis
      using byte by simp
  qed
  have "string_shows view w' s (x[i := v])"
  proof (rule string_showsI [OF w'(3)], unfold w'(2))
    show "length (x[i := v]) * unat (str_unitSize (ss_info s)) \<le> length (blit i [of_nat ?k] bs)"
      using shown(3) i by (simp add: assms(2))
    fix l
    assume l: "l < length (x[i := v])"
    then show "from_le (slice (l * unat (str_unitSize (ss_info s))) (unat (str_unitSize (ss_info s)))
          (blit i [of_nat ?k] bs)) < length ?cs \<and>
      ?cs ! from_le (slice (l * unat (str_unitSize (ss_info s))) (unat (str_unitSize (ss_info s)))
          (blit i [of_nat ?k] bs)) = x[i := v] ! l"
      using unit [of l] shown(4) [of l] k assms(3) by (simp add: assms(2) nth_list_update)
  qed (use assms(2) shown(2) in simp_all)
  then show ?thesis
    using w' by blast
qed

text \<open>With wider units it writes one byte of another unit, and element \<open>i\<close> keeps its value.\<close>

lemma set_elt_wide:
  assumes "string_shows view w s x" and "str_unitSize (ss_info s) \<noteq> 1" and "0 < i" and "i < length x"
    and "v \<in> set (STR_DATA_CHARSET (string_lists w ! ss_data s))"
    and "STR_DATA_STRVEC (string_lists w ! ss_data s) = None"
  shows "\<exists>w'. sharedString_set_elt B s i v w = (Inr (), w') \<and> sharedString_elt B s i w' = (Inr (Some (x ! i)), w')"
proof -
  let ?u = "unat (str_unitSize (ss_info s))" and ?cs = "STR_DATA_CHARSET (string_lists w ! ss_data s)"
  let ?k = "find_char v ?cs"
  obtain iv bs where parts: "string_parts view w s iv bs"
    by (rule string_shows_parts [OF assms(1)])
  note shown = string_showsD [OF assms(1) parts]
  have u: "?u \<in> {2, 4, 8}"
    using shown(1) assms(2) by auto
  then have "i < i * ?u"
    using assms(3) by auto
  moreover have fit: "i * ?u + ?u \<le> length bs"
    using unit_fits [OF assms(4) shown(3)] .
  ultimately have i: "i < length bs"
    by linarith
  obtain w' where w': "sharedString_set_elt B s i v w = (Inr (), w')" "string_lists w' = string_lists w"
    "string_parts view w' s iv (blit i [of_nat ?k] bs)"
    by (rule set_elt_run [OF parts shown(1) i assms(5)])
  have "i + length [of_nat ?k :: byte] \<le> i * ?u"
    unfolding list.size using \<open>i < i * ?u\<close> by linarith
  then have "slice (i * ?u) ?u (blit i [of_nat ?k] bs) = slice (i * ?u) ?u bs"
    using fit i by (intro slice_blit_other disjI2) simp_all
  then have same: "from_le (slice (i * ?u) ?u (blit i [of_nat ?k] bs)) < length ?cs"
    "?cs ! from_le (slice (i * ?u) ?u (blit i [of_nat ?k] bs)) = x ! i"
    using shown(4) [OF assms(4)] by simp_all
  have parts': "ss_data s < length (string_lists w)" "STR_DATA_INDEX (string_lists w ! ss_data s) = Shared iv"
    "vector_bytes view w' iv = Some (blit i [of_nat ?k] bs)"
    using w'(2,3) by (simp_all add: string_parts_def)
  have "charset_elt B (string_lists w ! ss_data s) ?u i w' = (Inr (x ! i), w')"
    using charset_elt_run [OF parts'(2,3) _ same(1)] same(2) fit i by simp
  then have "sharedString_elt B s i w' = (Inr (Some (x ! i)), w')"
    using shown(1) assms(2,6) parts'(1,2) w'(2)
    by (auto simp: sharedString_elt_def Let_def andThen_run get_string_list_def check_dataptr_def ok_run)
  then show ?thesis
    using w'(1) by blast
qed

text \<open>A string that still has its cache does not show the assignment.\<close>

lemma set_elt_cached:
  assumes "string_shows view w s x" and "i < length x" and "STR_DATA_STRVEC (string_lists w ! ss_data s) = Some c"
    and "i < length c" and "v \<in> set (STR_DATA_CHARSET (string_lists w ! ss_data s))"
  shows "\<exists>w'. sharedString_set_elt B s i v w = (Inr (), w') \<and> sharedString_elt B s i w' = (Inr (Some (c ! i)), w')"
proof -
  obtain iv bs where parts: "string_parts view w s iv bs"
    by (rule string_shows_parts [OF assms(1)])
  note shown = string_showsD [OF assms(1) parts]
  have "i * 1 \<le> i * unat (str_unitSize (ss_info s))" "1 \<le> unat (str_unitSize (ss_info s))"
    using shown(1) by (auto intro!: mult_le_mono2)
  then have i: "i < length bs"
    using unit_fits [OF assms(2) shown(3)] by linarith
  obtain w' where w': "sharedString_set_elt B s i v w = (Inr (), w')" "string_lists w' = string_lists w"
    by (rule set_elt_run [OF parts shown(1) i assms(5)])
  have "ss_data s < length (string_lists w)"
    using parts by (simp add: string_parts_def)
  then have "sharedString_elt B s i w' = (Inr (Some (c ! i)), w')"
    using assms(3,4) w'(2) by (simp add: sharedString_elt_def andThen_run get_string_list_def STRING_ELT_def ok_run)
  then show ?thesis
    using w'(1) by blast
qed

text \<open>A change of the cache alone, and a list added behind the others, change nothing that is shown.\<close>

lemma string_shows_cache:
  assumes "string_shows view w s x" and "d = (string_lists w ! ss_data s)\<lparr>STR_DATA_STRVEC := c\<rparr>"
  shows "string_shows view (w\<lparr>string_lists := (string_lists w)[ss_data s := d]\<rparr>) s x"
proof -
  obtain iv bs where parts: "string_parts view w s iv bs"
    by (rule string_shows_parts [OF assms(1)])
  note shown = string_showsD [OF assms(1) parts]
  have len: "ss_data s < length (string_lists w)"
    using parts by (simp add: string_parts_def)
  have "string_parts view (w\<lparr>string_lists := (string_lists w)[ss_data s := d]\<rparr>) s iv bs"
    using parts len vector_bytes_cong [of "w\<lparr>string_lists := (string_lists w)[ss_data s := d]\<rparr>" w view iv]
    by (simp add: string_parts_def assms(2))
  then show ?thesis
    by (rule string_showsI) (use shown len assms(2) in simp_all)
qed

lemma string_shows_copy:
  assumes "string_shows view w s x" and "d = (string_lists w ! ss_data s)\<lparr>STR_DATA_STRVEC := c\<rparr>"
    and "ss_data s' = length (string_lists w)" and "ss_info s' = ss_info s"
  shows "string_shows view (w\<lparr>string_lists := string_lists w @ [d]\<rparr>) s' x"
proof -
  obtain iv bs where parts: "string_parts view w s iv bs"
    by (rule string_shows_parts [OF assms(1)])
  note shown = string_showsD [OF assms(1) parts]
  have "string_parts view (w\<lparr>string_lists := string_lists w @ [d]\<rparr>) s' iv bs"
    using parts vector_bytes_cong [of "w\<lparr>string_lists := string_lists w @ [d]\<rparr>" w view iv]
    by (simp add: string_parts_def assms(2,3))
  then show ?thesis
    by (rule string_showsI) (use shown assms(2-4) in simp_all)
qed

lemma set_elt_absent:
  assumes "string_shows view w s x" and "v \<notin> set (STR_DATA_CHARSET (string_lists w ! ss_data s))"
  shows "\<exists>msg. sharedString_set_elt B s i v w = (Inl (RError msg), w)"
  using find_char_absent [OF assms(2)] check_dataptr_run [OF assms(1)]
  by (simp add: sharedString_set_elt_def Let_def andThen_run get_string_list_run [OF assms(1)] fail_run)

end

end
