(* ===== verification/PkgMemory.thy ===== *)
theory PkgMemory
  imports VectorMemory
begin

text \<open>
  What \<open>initialPkgData\<close> does to the shared memory: the first process creates the counter of ids with
  value 0, the others map the same counter and leave its value. Also what the finalizer of the last
  external pointer does.
\<close>

section \<open>The counter\<close>

text \<open>
  Process \<open>w\<close> has the counter: \<open>lastId\<close> points to the object named \<open>SHARED_OBJECT_COUNTER\<close>.
\<close>

definition counter_open :: "('os \<Rightarrow> shm_view) \<Rightarrow> ('os, 'z) world_scheme \<Rightarrow> ptr \<Rightarrow> nat \<Rightarrow> bool" where
  "counter_open view w p j \<longleftrightarrow> vnames (view (machine w)) SHARED_OBJECT_COUNTER = Some j \<and>
     (\<exists>r. p = Ptr r 0 \<and> vregions (view (machine w)) r = Some j)"

lemma counter_open_is:
  assumes "counter_open view w p j" and "lastId w = Some p" and "8 \<le> length (vobjs (view (machine w)) j)"
  shows "counter_is view w (of_nat (from_le (slice 0 8 (vobjs (view (machine w)) j))))"
proof -
  obtain r where r: "p = Ptr r 0" "vregions (view (machine w)) r = Some j"
    using assms(1) by (auto simp: counter_open_def)
  let ?v = "from_le (slice 0 8 (vobjs (view (machine w)) j))"
  have "length (slice 0 8 (vobjs (view (machine w)) j)) = 8"
    using assms(3) by simp
  then have "?v < 256 ^ 8"
    by (metis from_le_bound)
  then have "unat (of_nat ?v :: u64) = ?v"
    by (simp add: unat_of_nat take_bit_eq_mod)
  then show ?thesis
    using r assms(2,3) by (simp add: counter_is_def)
qed

context shm_os
begin

lemma store_counter_Inr:
  assumes "store_counter B (Ptr r 0) x w = (Inr (), w')"
  obtains j where "vregions (view (machine w)) r = Some j" and "8 \<le> length (vobjs (view (machine w)) j)"
    and "view (machine w') = (view (machine w))\<lparr>vobjs := (vobjs (view (machine w)))(j :=
      blit 0 (le_bytes 8 (unat x)) (vobjs (view (machine w)) j))\<rparr>"
    and "w' = w\<lparr>machine := machine w'\<rparr>"
proof -
  obtain m where m: "mem_store B (Ptr r 0) (le_bytes 8 (unat x)) (machine w) = Some m" and w': "w' = w\<lparr>machine := m\<rparr>"
    using assms by (auto simp: store_counter_def sizeof_atomic_uint64_def fail_run split: option.splits)
  then show thesis
    using store_Some [OF m] that by (auto simp del: le_bytes.simps)
qed

lemma open_counter_new:
  assumes "open_counter B w = (Inr p, w')" and "registry_ok w" and "in_sync view w"
    and "\<not> fst (SO_hasSharedMemory B SHARED_OBJECT_COUNTER (machine w))" and "unopened w SHARED_OBJECT_COUNTER"
  shows "\<exists>j. counter_open view w' p j \<and> 8 \<le> length (vobjs (view (machine w')) j) \<and>
    from_le (slice 0 8 (vobjs (view (machine w')) j)) = 0 \<and> registry_ok w' \<and> in_sync view w'"
proof -
  obtain m where has: "SO_hasSharedMemory B SHARED_OBJECT_COUNTER (machine w) = (False, m)"
    using assms(4) by (cases "SO_hasSharedMemory B SHARED_OBJECT_COUNTER (machine w)") simp
  let ?w = "w\<lparr>machine := m\<rparr>"
  have vm: "view m = view (machine w)"
    using SO_has_view [of SHARED_OBJECT_COUNTER "machine w"] has by simp
  have reg: "registry_ok ?w" and un: "unopened ?w SHARED_OBJECT_COUNTER"
    using assms(2,5) by (simp_all add: registry_ok_def unopened_def)
  have sync: "in_sync view ?w"
    by (rule in_sync_cong [OF assms(3)]) (simp_all add: vm)
  obtain w1 w2 where al: "allocateSharedMemoryInternal B SHARED_OBJECT_COUNTER (of_nat sizeof_atomic_uint64) ?w = (Inr (), w1)"
    and map: "mapSharedMemoryInternal B SHARED_OBJECT_COUNTER w1 = (Inr p, w2)"
    and st: "store_counter B p 0 w2 = (Inr (), w')"
    using assms(1) has by (auto simp: open_counter_def ok_run elim!: andThen_InrE split: prod.splits)
  obtain h j r bs so where new: "new_segment view ?w w2 SHARED_OBJECT_COUNTER h j r bs" "p = Ptr r 0"
    "owned_object so SHARED_OBJECT_COUNTER h r (length bs)"
    and w2: "w2 = ?w\<lparr>machine := machine w2, sharedObjectList := (sharedObjectList ?w)(SHARED_OBJECT_COUNTER \<mapsto> so),
      mapCounter := (mapCounter ?w)(SHARED_OBJECT_COUNTER \<mapsto> counter_at ?w SHARED_OBJECT_COUNTER + 1)\<rparr>"
    by (rule allocate_map_Inr [OF al map reg un])
  obtain j' where j': "vregions (view (machine w2)) r = Some j'" "8 \<le> length (vobjs (view (machine w2)) j')"
    "view (machine w') = (view (machine w2))\<lparr>vobjs := (vobjs (view (machine w2)))(j' :=
      blit 0 (le_bytes 8 (unat (0::u64))) (vobjs (view (machine w2)) j'))\<rparr>"
    and w': "w' = w2\<lparr>machine := machine w'\<rparr>"
    by (rule store_counter_Inr [OF st [unfolded new(2)]])
  have jj: "j' = j"
    using j'(1) new(1) by (simp add: new_segment_def)
  have list2: "sharedObjectList w2 = (sharedObjectList w)(SHARED_OBJECT_COUNTER \<mapsto> so)"
    by (subst w2) simp
  then have list': "sharedObjectList w' = (sharedObjectList w)(SHARED_OBJECT_COUNTER \<mapsto> so)"
    by (subst w') simp
  have "slice 0 8 (blit 0 (le_bytes 8 0) (vobjs (view (machine w2)) j)) = le_bytes 8 0"
    using slice_blit_same [of 0 "le_bytes 8 0" "vobjs (view (machine w2)) j"] j'(2) jj by (simp del: le_bytes.simps)
  moreover have "from_le (le_bytes 8 0) = 0"
    by (rule from_le_bytes_id) simp
  ultimately have zero: "from_le (slice 0 8 (vobjs (view (machine w')) j)) = 0"
    by (simp add: j'(3) jj del: le_bytes.simps)
  have open': "counter_open view w' p j"
    using new(1,2) j' jj by (simp add: counter_open_def new_segment_def del: le_bytes.simps)
  have len': "8 \<le> length (vobjs (view (machine w')) j)"
    using j'(2) by (simp add: j'(3) jj del: le_bytes.simps)
  have reg': "registry_ok w'"
    using assms(2) new(3) by (auto simp: registry_ok_def list' owned_object_def so_inv_def region_address_def)
  have sync2: "in_sync view w2"
    using in_sync_new_segment [OF sync new(1) _ new(3)] list2 by simp
  have "in_sync view w'"
    by (rule in_sync_cong [OF sync2]) (simp_all add: list' list2 j'(3) del: le_bytes.simps)
  then show ?thesis
    using open' len' zero reg' by blast
qed

lemma open_counter_existing:
  assumes "open_counter B w = (Inr p, w')" and "registry_ok w" and "in_sync view w"
    and "fst (SO_hasSharedMemory B SHARED_OBJECT_COUNTER (machine w))" and "unopened w SHARED_OBJECT_COUNTER"
  shows "\<exists>j. counter_open view w' p j \<and> vobjs (view (machine w')) = vobjs (view (machine w)) \<and>
    vnames (view (machine w')) = vnames (view (machine w)) \<and> registry_ok w' \<and> in_sync view w'"
proof -
  obtain m where has: "SO_hasSharedMemory B SHARED_OBJECT_COUNTER (machine w) = (True, m)"
    using assms(4) by (cases "SO_hasSharedMemory B SHARED_OBJECT_COUNTER (machine w)") simp
  let ?w = "w\<lparr>machine := m\<rparr>"
  have vm: "view m = view (machine w)"
    using SO_has_view [of SHARED_OBJECT_COUNTER "machine w"] has by simp
  have reg: "registry_ok ?w" and un: "unopened ?w SHARED_OBJECT_COUNTER"
    using assms(2,5) by (simp_all add: registry_ok_def unopened_def)
  have sync: "in_sync view ?w"
    by (rule in_sync_cong [OF assms(3)]) (simp_all add: vm)
  have map: "mapSharedMemoryInternal B SHARED_OBJECT_COUNTER ?w = (Inr p, w')"
    using assms(1) has by (simp add: open_counter_def andThen_run)
  obtain h j r so where j: "vnames (view (machine ?w)) SHARED_OBJECT_COUNTER = Some j" and p: "p = Ptr r 0"
    and fresh: "vhandles (view (machine ?w)) h = None" "vregions (view (machine ?w)) r = None"
    and v': "view (machine w') = (view (machine ?w))\<lparr>vhandles := (vhandles (view (machine ?w)))(h \<mapsto> j),
      vregions := (vregions (view (machine ?w)))(r \<mapsto> j)\<rparr>"
    and so: "sharedMemoryHandle so = Some h" "mappedRegionHandle so = Some r" "shared_ptr so = Some p"
      "so_key so = SHARED_OBJECT_COUNTER"
    and w': "w' = ?w\<lparr>machine := machine w', sharedObjectList := (sharedObjectList ?w)(SHARED_OBJECT_COUNTER \<mapsto> so),
      mapCounter := (mapCounter ?w)(SHARED_OBJECT_COUNTER \<mapsto> counter_before ?w SHARED_OBJECT_COUNTER + 1)\<rparr>"
    by (rule map_internal_new [OF map reg un])
  have list': "sharedObjectList w' = (sharedObjectList ?w)(SHARED_OBJECT_COUNTER \<mapsto> so)"
    by (subst w') simp
  have "in_sync view w'"
    by (rule in_sync_opened [OF sync list' fresh _ _ _ so(1,2)]) (use j in \<open>auto simp: v' fun_eq_iff\<close>)
  moreover have "registry_ok w'"
    using reg so p by (auto simp: registry_ok_def list' so_inv_def region_address_def)
  moreover have "counter_open view w' p j"
    using j p by (simp add: counter_open_def v')
  ultimately show ?thesis
    by (intro exI [of _ j]) (simp add: v' vm)
qed

end

section \<open>Initialising\<close>

context shm_os
begin

lemma semophore_views:
  "auto_semophore_new B w = (r, w') \<Longrightarrow>
     view (machine w') = view (machine w) \<and> sharedObjectList w' = sharedObjectList w \<and> lastId w' = lastId w"
  "auto_semophore_lock B g w = (r', w') \<Longrightarrow>
     view (machine w') = view (machine w) \<and> sharedObjectList w' = sharedObjectList w \<and> lastId w' = lastId w"
  "view (machine (auto_semophore_delete B g w)) = view (machine w) \<and>
     sharedObjectList (auto_semophore_delete B g w) = sharedObjectList w \<and> lastId (auto_semophore_delete B g w) = lastId w"
  using sem_open_view [of SEMAPHORE_NAME 1 "machine w"] sem_wait_view [of "semaphore g" "machine w"]
  by (auto simp: auto_semophore_new_def auto_semophore_lock_def auto_semophore_delete_def Let_def sem_remove_view
      sem_delete_view sem_post_view split: prod.splits sum.splits)

text \<open>The guard and the lock change nothing that is looked at here.\<close>

lemma initialPkgData_Inr:
  fixes w :: "('os, 'z) world_scheme"
  assumes "initialPkgData B w = (Inr (), w')" and "lastId w = None"
  obtains w1 w2 :: "('os, 'z) world_scheme" and p where "view (machine w1) = view (machine w)" and "sharedObjectList w1 = sharedObjectList w"
    and "open_counter B w1 = (Inr p, w2)" and "view (machine w') = view (machine w2)"
    and "sharedObjectList w' = sharedObjectList w2" and "lastId w' = Some p"
proof -
  have "initialPkgData_try B w = (Inr (), w')"
    using assms by (auto simp: initialPkgData_def catchCpp_run throwError_run split: prod.splits sum.splits so_error.splits)
  then obtain g w0 where new: "auto_semophore_new B w = (Inr g, w0)"
    and rest: "(case andThen (auto_semophore_lock B g)
        (\<lambda>_. andThen (open_counter B) (\<lambda>ptr w. (Inr (), w\<lparr>lastId := Some ptr\<rparr>))) w0 of
        (r, w'') \<Rightarrow> (r, case r of Inr _ \<Rightarrow> auto_semophore_delete B g w''
           | Inl e \<Rightarrow> (case e of CppError _ \<Rightarrow> auto_semophore_delete B g w'' | _ \<Rightarrow> w''))) = (Inr (), w')"
    by (auto simp: initialPkgData_try_def elim!: andThen_InrE)
  obtain r3 w3 where body: "andThen (auto_semophore_lock B g)
      (\<lambda>_. andThen (open_counter B) (\<lambda>ptr w. (Inr (), w\<lparr>lastId := Some ptr\<rparr>))) w0 = (r3, w3)"
    by fastforce
  then have r3: "r3 = Inr ()" and w': "w' = auto_semophore_delete B g w3"
    using rest by (auto split: sum.splits)
  obtain g' w1 p w2 where lock: "auto_semophore_lock B g w0 = (Inr g', w1)" and op: "open_counter B w1 = (Inr p, w2)"
    and w3: "w3 = w2\<lparr>lastId := Some p\<rparr>"
    using body r3 by (auto elim!: andThen_InrE)
  show thesis
    by (rule that [of w1 p w2])
      (use semophore_views(1) [OF new] semophore_views(2) [OF lock] semophore_views(3) [of g w3] op in
        \<open>simp_all add: w' w3\<close>)
qed

end

context shm_os_live
begin

text \<open>The first process sets the counter to 0; any other finds the value it has.\<close>

lemma initialPkgData_counter:
  fixes w :: "('a, 'z) world_scheme"
  assumes "initialPkgData B w = (Inr (), w')" and "lastId w = None" and "registry_ok w" and "in_sync view w"
    and "unopened w SHARED_OBJECT_COUNTER"
  shows "registry_ok w' \<and> in_sync view w' \<and>
    (case vnames (view (machine w)) SHARED_OBJECT_COUNTER of
       None \<Rightarrow> counter_is view w' 0
     | Some j \<Rightarrow> vnames (view (machine w')) = vnames (view (machine w)) \<and>
         vobjs (view (machine w')) = vobjs (view (machine w)) \<and> (\<exists>p. lastId w' = Some p \<and> counter_open view w' p j))"
proof -
  obtain w1 w2 :: "('a, 'z) world_scheme" and p where v1: "view (machine w1) = view (machine w)" "sharedObjectList w1 = sharedObjectList w"
    and op: "open_counter B w1 = (Inr p, w2)" and v': "view (machine w') = view (machine w2)"
    "sharedObjectList w' = sharedObjectList w2" "lastId w' = Some p"
    by (rule initialPkgData_Inr [OF assms(1,2)])
  have reg1: "registry_ok w1" and un1: "unopened w1 SHARED_OBJECT_COUNTER"
    using assms(3,5) v1 by (simp_all add: registry_ok_def unopened_def)
  have sync1: "in_sync view w1"
    by (rule in_sync_cong [OF assms(4)]) (simp_all add: v1)
  have has: "fst (SO_hasSharedMemory B SHARED_OBJECT_COUNTER (machine w1)) \<longleftrightarrow>
      vnames (view (machine w)) SHARED_OBJECT_COUNTER \<noteq> None"
    using SO_has_iff by (simp add: v1)
  have same: "registry_ok w' = registry_ok w2"
    by (simp add: registry_ok_def v')
  have sync': "in_sync view w'" if "in_sync view w2"
    by (rule in_sync_cong [OF that]) (simp_all add: v')
  have open': "counter_open view w' p j = counter_open view w2 p j" for j
    by (simp add: counter_open_def v')
  show ?thesis
  proof (cases "vnames (view (machine w)) SHARED_OBJECT_COUNTER")
    case None
    then obtain j where j: "counter_open view w2 p j" "8 \<le> length (vobjs (view (machine w2)) j)"
      "from_le (slice 0 8 (vobjs (view (machine w2)) j)) = 0" "registry_ok w2" "in_sync view w2"
      using open_counter_new [OF op reg1 sync1 _ un1] has by blast
    have "counter_is view w' 0"
      using counter_open_is [of view w' p j] open' j v' by simp
    then show ?thesis
      using None j same sync' by simp
  next
    case (Some j0)
    then obtain j where j: "counter_open view w2 p j" "vobjs (view (machine w2)) = vobjs (view (machine w1))"
      "vnames (view (machine w2)) = vnames (view (machine w1))" "registry_ok w2" "in_sync view w2"
      using open_counter_existing [OF op reg1 sync1 _ un1] has by blast
    have "j = j0"
      using j(1,3) Some by (simp add: counter_open_def v1)
    then show ?thesis
      using Some j same sync' open' by (simp add: v' v1)
  qed
qed

end

section \<open>The last finalizer\<close>

context shm_os
begin

text \<open>
  Releasing the last reference closes the handle and the mapping of the segment, and unlinks its
  name when this process owns the data; nothing else changes.
\<close>

lemma unmap_last:
  assumes "sharedObjectList w key = Some so" and "counter_at w key = 1" and "registry_ok w"
  shows "view (machine (unmapSharedMemoryInternal B key w)) = (view (machine w))\<lparr>
     vnames := (if ownData so then (vnames (view (machine w)))(key := None) else vnames (view (machine w))),
     vhandles := (case sharedMemoryHandle so of None \<Rightarrow> vhandles (view (machine w))
       | Some h \<Rightarrow> (vhandles (view (machine w)))(h := None)),
     vregions := (case mappedRegionHandle so of None \<Rightarrow> vregions (view (machine w))
       | Some r \<Rightarrow> (vregions (view (machine w)))(r := None))\<rparr>"
    and "sharedObjectList (unmapSharedMemoryInternal B key w) = (sharedObjectList w)(key := None)"
proof -
  obtain so' m' where un: "SO_unmapSharedMemory B (so, machine w) = (so', m')"
    by fastforce
  have so': "so' = so\<lparr>mappedRegionHandle := None, shared_ptr := None\<rparr>"
    using un by (simp add: SO_unmapSharedMemory_def freeMappedRegionHandle_def)
  have key: "so_key so = key"
    using registry_okD(1) [OF assms(3,1)] .
  have run: "unmapSharedMemoryInternal B key w = w\<lparr>machine := SharedObjectClass_delete B (so', m'),
      sharedObjectList := (sharedObjectList w)(key := None), mapCounter := (mapCounter w)(key \<mapsto> 0)\<rparr>"
    using assms(2) by (simp add: unmap_internal_run [OF assms(1)] un)
  have "view m' = (view (machine w))\<lparr>vregions := (case mappedRegionHandle so of None \<Rightarrow> vregions (view (machine w))
       | Some r \<Rightarrow> (vregions (view (machine w)))(r := None))\<rparr>"
    using SO_unmap_view [of so "machine w"] un by simp
  then show "view (machine (unmapSharedMemoryInternal B key w)) = (view (machine w))\<lparr>
     vnames := (if ownData so then (vnames (view (machine w)))(key := None) else vnames (view (machine w))),
     vhandles := (case sharedMemoryHandle so of None \<Rightarrow> vhandles (view (machine w))
       | Some h \<Rightarrow> (vhandles (view (machine w)))(h := None)),
     vregions := (case mappedRegionHandle so of None \<Rightarrow> vregions (view (machine w))
       | Some r \<Rightarrow> (vregions (view (machine w)))(r := None))\<rparr>"
    by (simp add: run SO_delete_view so' key split: option.split)
  show "sharedObjectList (unmapSharedMemoryInternal B key w) = (sharedObjectList w)(key := None)"
    by (simp add: run)
qed

end

end
