(* ===== verification/PosixShm.thy ===== *)
theory PosixShm
  imports BoostShm
begin

text \<open>
  A reference instance of the shared memory interface: one machine with finite tables of names,
  objects, handles, mappings and semaphores, and unlimited memory. It shows that the assumptions of
  \<open>shm_os\<close> and \<open>shm_os_live\<close> hold together, and the witnesses run the program on it. No
  property is about it.
\<close>

record posix =
  p_names :: "(string \<times> nat) list"
  p_objs :: "(nat \<times> byte list) list"
  p_handles :: "(nat \<times> nat) list"
  p_regions :: "(nat \<times> nat) list"
  p_sems :: "(nat \<times> nat) list"
  p_sem_names :: "(string \<times> nat) list"

definition posix_init :: posix where
  "posix_init = \<lparr>p_names = [], p_objs = [], p_handles = [], p_regions = [], p_sems = [], p_sem_names = []\<rparr>"

definition objs_of :: "(nat \<times> byte list) list \<Rightarrow> nat \<Rightarrow> byte list" where
  "objs_of t j = (case map_of t j of None \<Rightarrow> [] | Some bs \<Rightarrow> bs)"

definition posix_view :: "posix \<Rightarrow> shm_view" where
  "posix_view s = \<lparr>vnames = map_of (p_names s), vobjs = objs_of (p_objs s),
                   vhandles = map_of (p_handles s), vregions = map_of (p_regions s)\<rparr>"

definition drop_key :: "'k \<Rightarrow> ('k \<times> 'v) list \<Rightarrow> ('k \<times> 'v) list" where
  "drop_key k t = filter (\<lambda>(k', v). k' \<noteq> k) t"

definition fresh_id :: "nat list \<Rightarrow> nat" where
  "fresh_id ids = foldr (\<lambda>i m. max (Suc i) m) ids 0"

lemma fresh_id_gt: "i \<in> set ids \<Longrightarrow> i < fresh_id ids"
  by (induction ids) (auto simp: fresh_id_def)

lemma fresh_id_notin: "fresh_id ids \<notin> set ids"
  using fresh_id_gt by blast

lemma map_of_drop_key: "map_of (drop_key k t) = (map_of t)(k := None)"
  by (induction t) (auto simp: drop_key_def fun_eq_iff)

definition posix_open :: "string \<Rightarrow> posix \<Rightarrow> (string + nat) \<times> posix" where
  "posix_open k s = (case map_of (p_names s) k of
     None \<Rightarrow> (Inl ''No such file or directory'', s)
   | Some j \<Rightarrow> (let h = fresh_id (map fst (p_handles s)) in (Inr h, s\<lparr>p_handles := (h, j) # p_handles s\<rparr>)))"

definition posix_create :: "string \<Rightarrow> posix \<Rightarrow> (string + nat) \<times> posix" where
  "posix_create k s = (case map_of (p_names s) k of
     Some j \<Rightarrow> (Inl ''File exists'', s)
   | None \<Rightarrow> (let h = fresh_id (map fst (p_handles s));
                  j = fresh_id (map snd (p_names s) @ map snd (p_handles s) @ map snd (p_regions s))
              in (Inr h, s\<lparr>p_names := (k, j) # p_names s, p_objs := (j, []) # p_objs s,
                           p_handles := (h, j) # p_handles s\<rparr>)))"

definition posix_truncate :: "nat \<Rightarrow> u64 \<Rightarrow> posix \<Rightarrow> (string + unit) \<times> posix" where
  "posix_truncate h n s = (case map_of (p_handles s) h of
     None \<Rightarrow> (Inl ''Bad file descriptor'', s)
   | Some j \<Rightarrow>
       if unat n < max_object
       then (Inr (), s\<lparr>p_objs := (j, replicate (unat n) 0) # p_objs s\<rparr>)
       else (Inl ''Invalid argument'', s))"

definition posix_size :: "nat \<Rightarrow> posix \<Rightarrow> u64" where
  "posix_size h s = (case map_of (p_handles s) h of
     None \<Rightarrow> 0 | Some j \<Rightarrow> of_nat (length (objs_of (p_objs s) j)))"

definition posix_map :: "nat \<Rightarrow> posix \<Rightarrow> (string + nat) \<times> posix" where
  "posix_map h s = (case map_of (p_handles s) h of
     None \<Rightarrow> (Inl ''Bad file descriptor'', s)
   | Some j \<Rightarrow>
       if objs_of (p_objs s) j = [] then (Inl ''Invalid argument'', s)
       else (let r = fresh_id (map fst (p_regions s)) in (Inr r, s\<lparr>p_regions := (r, j) # p_regions s\<rparr>)))"

definition posix_load :: "ptr \<Rightarrow> nat \<Rightarrow> posix \<Rightarrow> byte list option" where
  "posix_load p n s = (case map_of (p_regions s) (ptr_block p) of
     None \<Rightarrow> None
   | Some j \<Rightarrow> (let bs = objs_of (p_objs s) j in
       if 0 \<le> ptr_off p \<and> nat (ptr_off p) + n \<le> length bs then Some (slice (nat (ptr_off p)) n bs) else None))"

definition posix_store :: "ptr \<Rightarrow> byte list \<Rightarrow> posix \<Rightarrow> posix option" where
  "posix_store p xs s = (case map_of (p_regions s) (ptr_block p) of
     None \<Rightarrow> None
   | Some j \<Rightarrow> (let bs = objs_of (p_objs s) j in
       if 0 \<le> ptr_off p \<and> nat (ptr_off p) + length xs \<le> length bs
       then Some (s\<lparr>p_objs := (j, blit (nat (ptr_off p)) xs bs) # p_objs s\<rparr>) else None))"

definition posix_sem_open :: "string \<Rightarrow> nat \<Rightarrow> posix \<Rightarrow> (string + nat) \<times> posix" where
  "posix_sem_open k n s = (case map_of (p_sem_names s) k of
     Some i \<Rightarrow> (Inr i, s)
   | None \<Rightarrow> (let i = fresh_id (map fst (p_sems s)) in
       (Inr i, s\<lparr>p_sems := (i, n) # p_sems s, p_sem_names := (k, i) # p_sem_names s\<rparr>)))"

definition posix_sem_wait :: "nat \<Rightarrow> posix \<Rightarrow> bool \<times> posix" where
  "posix_sem_wait i s = (case map_of (p_sems s) i of
     None \<Rightarrow> (False, s)
   | Some n \<Rightarrow> if n = 0 then (False, s) else (True, s\<lparr>p_sems := (i, n - 1) # p_sems s\<rparr>))"

definition posix_sem_post :: "nat \<Rightarrow> posix \<Rightarrow> posix" where
  "posix_sem_post i s = (case map_of (p_sems s) i of
     None \<Rightarrow> s | Some n \<Rightarrow> s\<lparr>p_sems := (i, Suc n) # p_sems s\<rparr>)"

definition posix_boost :: "posix boost" where
  "posix_boost = \<lparr>
     shm_open_only = posix_open,
     shm_create_only = posix_create,
     shm_truncate = posix_truncate,
     shm_get_size = posix_size,
     shm_delete = (\<lambda>h s. s\<lparr>p_handles := drop_key h (p_handles s)\<rparr>),
     shm_remove = (\<lambda>k s. s\<lparr>p_names := drop_key k (p_names s)\<rparr>),
     region_new = posix_map,
     region_delete = (\<lambda>r s. s\<lparr>p_regions := drop_key r (p_regions s)\<rparr>),
     region_flush = (\<lambda>r s. s),
     mem_load = posix_load,
     mem_store = posix_store,
     shm_directory = Some ''/dev/shm'',
     path_exists = (\<lambda>p s. p = ''/dev/shm''),
     stat_vfs = (\<lambda>p s. Some (4096, 1048576)),
     signal_ok = (\<lambda>s. True),
     sigbus_on_touch = (\<lambda>p n s. False),
     sem_open_or_create = posix_sem_open,
     sem_timed_wait = posix_sem_wait,
     sem_post = posix_sem_post,
     sem_delete = (\<lambda>i s. s),
     sem_remove = (\<lambda>k s. s\<lparr>p_sem_names := drop_key k (p_sem_names s)\<rparr>)\<rparr>"

lemmas posix_ops = posix_open_def posix_create_def posix_truncate_def posix_size_def posix_map_def
  posix_load_def posix_store_def posix_sem_open_def posix_sem_wait_def posix_sem_post_def

lemma posix_fresh_handle: "map_of t (fresh_id (map fst t)) = None"
  by (metis fresh_id_notin map_of_eq_None_iff image_set)

lemma ran_map_of_snd: "j \<in> ran (map_of t) \<Longrightarrow> j \<in> set (map snd t)"
  by (auto simp: ran_def dest!: map_of_SomeD intro: rev_image_eqI)

lemma posix_fresh_object:
  "unreferenced (fresh_id (map snd (p_names s) @ map snd (p_handles s) @ map snd (p_regions s))) (posix_view s)"
proof -
  let ?j = "fresh_id (map snd (p_names s) @ map snd (p_handles s) @ map snd (p_regions s))"
  have "?j \<notin> set (map snd (p_names s) @ map snd (p_handles s) @ map snd (p_regions s))"
    by (rule fresh_id_notin)
  then show ?thesis
    unfolding unreferenced_def posix_view_def set_append Un_iff de_Morgan_disj shm_view.simps
    by (blast dest: ran_map_of_snd)
qed

lemma objs_of_Cons: "objs_of ((j, bs) # t) = (objs_of t)(j := bs)"
  by (simp add: objs_of_def fun_eq_iff)

lemma posix_view_simps [simp]:
  "vnames (posix_view s) = map_of (p_names s)" "vobjs (posix_view s) = objs_of (p_objs s)"
  "vhandles (posix_view s) = map_of (p_handles s)" "vregions (posix_view s) = map_of (p_regions s)"
  by (simp_all add: posix_view_def)

lemma posix_open_law:
  assumes "posix_open k s = (Inr h, s')"
  shows "\<exists>j. map_of (p_names s) k = Some j \<and> map_of (p_handles s) h = None \<and>
    posix_view s' = (posix_view s)\<lparr>vhandles := (map_of (p_handles s))(h \<mapsto> j)\<rparr>"
  using assms by (auto simp: posix_open_def posix_view_def Let_def posix_fresh_handle split: option.splits)

lemma posix_create_law:
  assumes "posix_create k s = (Inr h, s')"
  shows "map_of (p_names s) k = None \<and> map_of (p_handles s) h = None \<and>
    (\<exists>j. unreferenced j (posix_view s) \<and>
      posix_view s' = (posix_view s)\<lparr>vnames := (map_of (p_names s))(k \<mapsto> j),
        vobjs := (objs_of (p_objs s))(j := []), vhandles := (map_of (p_handles s))(h \<mapsto> j)\<rparr>)"
proof -
  let ?j = "fresh_id (map snd (p_names s) @ map snd (p_handles s) @ map snd (p_regions s))"
  have none: "map_of (p_names s) k = None"
    using assms by (simp add: posix_create_def split: option.splits)
  have h: "h = fresh_id (map fst (p_handles s))"
    and s': "s' = s\<lparr>p_names := (k, ?j) # p_names s, p_objs := (?j, []) # p_objs s, p_handles := (h, ?j) # p_handles s\<rparr>"
    using assms none by (auto simp: posix_create_def Let_def)
  have "posix_view s' = (posix_view s)\<lparr>vnames := (map_of (p_names s))(k \<mapsto> ?j),
        vobjs := (objs_of (p_objs s))(?j := []), vhandles := (map_of (p_handles s))(h \<mapsto> ?j)\<rparr>"
    by (simp add: s' posix_view_def objs_of_Cons)
  then show ?thesis
    using none posix_fresh_object [of s] by (auto simp: h posix_fresh_handle)
qed

lemma posix_truncate_law:
  assumes "posix_truncate h sz s = (Inr u, s')"
  shows "\<exists>j bs. map_of (p_handles s) h = Some j \<and> unat sz \<le> length bs \<and> length bs < max_object \<and>
    posix_view s' = (posix_view s)\<lparr>vobjs := (objs_of (p_objs s))(j := bs)\<rparr>"
proof -
  obtain j where j: "map_of (p_handles s) h = Some j" and lt: "unat sz < max_object"
    and s': "s' = s\<lparr>p_objs := (j, replicate (unat sz) 0) # p_objs s\<rparr>"
    using assms by (simp add: posix_truncate_def split: option.splits if_splits)
  have "posix_view s' = (posix_view s)\<lparr>vobjs := (objs_of (p_objs s))(j := replicate (unat sz) 0)\<rparr>"
    by (simp add: s' posix_view_def objs_of_Cons)
  then show ?thesis
    using j lt by (metis length_replicate order_refl)
qed

lemma posix_map_law:
  assumes "posix_map h s = (Inr r, s')"
  shows "\<exists>j. map_of (p_handles s) h = Some j \<and> map_of (p_regions s) r = None \<and>
    posix_view s' = (posix_view s)\<lparr>vregions := (map_of (p_regions s))(r \<mapsto> j)\<rparr>"
  using assms
  by (auto simp: posix_map_def posix_view_def Let_def posix_fresh_handle split: option.splits if_splits)

lemma posix_load_law:
  "map_of (p_regions s) r = Some j \<Longrightarrow> in_bounds (posix_view s) (Ptr r off) n \<Longrightarrow>
   posix_load (Ptr r off) n s = Some (slice (nat off) n (objs_of (p_objs s) j))"
  by (simp add: posix_load_def in_bounds_def Let_def)

lemma posix_load_outside: "\<not> in_bounds (posix_view s) p n \<Longrightarrow> posix_load p n s = None"
  by (auto simp: posix_load_def in_bounds_def Let_def split: option.splits)

lemma posix_store_law:
  "map_of (p_regions s) r = Some j \<Longrightarrow> in_bounds (posix_view s) (Ptr r off) (length bs) \<Longrightarrow>
   \<exists>s'. posix_store (Ptr r off) bs s = Some s' \<and>
     posix_view s' = (posix_view s)\<lparr>vobjs := (objs_of (p_objs s))(j := blit (nat off) bs (objs_of (p_objs s) j))\<rparr>"
  by (simp add: posix_store_def in_bounds_def Let_def posix_view_def objs_of_Cons)

lemma posix_store_outside: "\<not> in_bounds (posix_view s) p (length bs) \<Longrightarrow> posix_store p bs s = None"
  by (auto simp: posix_store_def in_bounds_def Let_def split: option.splits)

lemma posix_size_law:
  "map_of (p_handles s) h = Some j \<Longrightarrow> posix_size h s = of_nat (length (objs_of (p_objs s) j))"
  by (simp add: posix_size_def)

lemma posix_sem_views:
  "posix_view (snd (posix_sem_open k n s)) = posix_view s"
  "posix_view (snd (posix_sem_wait i s)) = posix_view s"
  "posix_view (posix_sem_post i s) = posix_view s"
  by (simp_all add: posix_sem_open_def posix_sem_wait_def posix_sem_post_def posix_view_def Let_def
      split: option.split)

lemma posix_err_views:
  "posix_open k s = (Inl e, s') \<Longrightarrow> s' = s" "posix_create k s = (Inl e, s') \<Longrightarrow> s' = s"
  "posix_truncate h sz s = (Inl e, s') \<Longrightarrow> s' = s" "posix_map h s = (Inl e, s') \<Longrightarrow> s' = s"
  by (simp_all add: posix_open_def posix_create_def posix_truncate_def posix_map_def Let_def
      split: option.splits if_splits)

lemma posix_boost_simps [simp]:
  "shm_open_only posix_boost = posix_open" "shm_create_only posix_boost = posix_create"
  "shm_truncate posix_boost = posix_truncate" "shm_get_size posix_boost = posix_size"
  "shm_delete posix_boost h s = s\<lparr>p_handles := drop_key h (p_handles s)\<rparr>"
  "shm_remove posix_boost k s = s\<lparr>p_names := drop_key k (p_names s)\<rparr>"
  "region_new posix_boost = posix_map"
  "region_delete posix_boost r s = s\<lparr>p_regions := drop_key r (p_regions s)\<rparr>"
  "region_flush posix_boost r s = s" "mem_load posix_boost = posix_load"
  "mem_store posix_boost = posix_store" "shm_directory posix_boost = Some ''/dev/shm''"
  "stat_vfs posix_boost p s = Some (4096, 1048576)" "signal_ok posix_boost s"
  "\<not> sigbus_on_touch posix_boost q sz s" "sem_open_or_create posix_boost = posix_sem_open"
  "sem_timed_wait posix_boost = posix_sem_wait" "sem_post posix_boost = posix_sem_post"
  "sem_delete posix_boost i s = s"
  "sem_remove posix_boost k s = s\<lparr>p_sem_names := drop_key k (p_sem_names s)\<rparr>"
  by (simp_all add: posix_boost_def)

lemma posix_shm_os: "shm_os posix_boost posix_view"
proof (rule shm_os.intro, unfold posix_boost_simps posix_view_simps)
qed (drule posix_err_views; simp
    | erule posix_open_law posix_create_law posix_truncate_law posix_map_law
    | (rule posix_load_law posix_load_outside posix_store_law posix_store_outside posix_size_law; assumption)
    | (simp add: posix_sem_views finite_dom_map_of; fail)
    | (simp add: posix_view_def map_of_drop_key; fail))+

interpretation posix: shm_os_live posix_boost posix_view
proof (rule shm_os_live.intro [OF posix_shm_os])
  show "shm_os_live_axioms posix_boost posix_view"
    by unfold_locales
      (simp_all add: posix_open_def posix_create_def posix_truncate_def posix_map_def Let_def)
qed

end
