(* ===== verification/Example.thy ===== *)
theory Example
  imports Session StringMemory PkgMemory PosixShm "HOL-Library.Code_Target_Numeral"
begin

text \<open>
  A concrete run on the reference machine, which the witnesses of the properties use: a session
  initialises the package data and creates vectors and a string; a second session on the same
  machine reads what the first one made.
\<close>

lemma posix_live: "shm_os_live posix_boost posix_view"
  by (rule posix.shm_os_live_axioms)

lemma run_Inr: "\<not> isl (fst r) \<Longrightarrow> \<exists>x. r = (Inr x, snd r)"
  by (cases r; cases "fst r") auto

definition demo0 :: "posix session" where
  "demo0 = session_init posix_init"

definition demo1 :: "posix session" where
  "demo1 = snd (initialPkgData posix_boost demo0)"

definition demo_source :: "bool \<Rightarrow> source_vector" where
  "demo_source heap = \<lparr>src_type = INTSXP, src_length = 3,
     src_dataptr = (if heap then Some (In_heap [1, 0, 0, 0, 2, 0, 0, 0, 3, 0, 0, 0]) else None),
     src_regions = [(1, [1, 0, 0, 0]), (2, [2, 0, 0, 0, 3, 0, 0, 0])]\<rparr>"

definition demo_bytes :: "byte list" where
  "demo_bytes = [1, 0, 0, 0, 2, 0, 0, 0, 3, 0, 0, 0]"

definition demo_create :: "bool \<Rightarrow> (so_error + shared_vector) \<times> posix session" where
  "demo_create heap = createSharedObjectFromSource posix_boost (demo_source heap) True False False R_NilValue demo1"

definition demo_vector :: shared_vector where
  "demo_vector = \<lparr>sv_class = shared_integer_class, sv_address = Ptr 1 0, sv_tag = ''1'',
     sv_info = \<lparr>info_dataId = ''1'', info_length = 3, info_totalSize = 12, info_dataType = INTSXP, info_ownData = True,
       info_copyOnWrite = True, info_sharedSubset = False, info_sharedCopy = False\<rparr>,
     sv_attributes = R_NilValue\<rparr>"

definition demo2 :: "posix session" where
  "demo2 = snd (demo_create True)"

lemma demo1_init: "initialPkgData posix_boost demo0 = (Inr (), demo1)"
proof -
  have "fst (initialPkgData posix_boost demo0) = Inr ()"
    by code_simp
  then show ?thesis
    by (simp add: demo1_def prod_eq_iff)
qed

lemma demo0_simps [simp]:
  "sharedObjectList demo0 = Map.empty" "lastId demo0 = None" "extptrs demo0 = []" "machine demo0 = posix_init"
  "string_lists demo0 = []"
  by (simp_all add: demo0_def session_init_def world_init_def world.defs)

lemma demo1_ok: "registry_ok demo1" "in_sync posix_view demo1" "counter_is posix_view demo1 0"
proof -
  have "registry_ok demo0" "in_sync posix_view demo0" "unopened demo0 SHARED_OBJECT_COUNTER"
    "vnames (posix_view (machine demo0)) SHARED_OBJECT_COUNTER = None"
    by (simp_all add: registry_ok_def in_sync_def unopened_def posix_init_def)
  from shm_os_live.initialPkgData_counter [OF posix_live demo1_init _ this(1-3)] this(4)
  show "registry_ok demo1" "in_sync posix_view demo1" "counter_is posix_view demo1 0"
    by simp_all
qed

lemma demo1_step: "own_step posix_boost demo0 demo1"
  using own_step.served [of posix_boost Initial_pkg_data demo0 "Inr ()" demo1] demo1_init by (simp add: C_calls)

lemma demo1_reachable: "session_reachable posix_boost demo1"
  using session_reachable.step [OF session_reachable.start session_step.own] demo1_step by (simp add: demo0_def)

lemma demo_create_run: "fst (demo_create heap) = Inr demo_vector"
  by (cases heap; simp only:; code_simp)

lemma demo2_create: "createSharedObjectFromSource posix_boost (demo_source True) True False False R_NilValue demo1 =
    (Inr demo_vector, demo2)"
  using demo_create_run [of True] by (simp add: demo_create_def demo2_def prod_eq_iff)

lemma demo2_step: "own_step posix_boost demo1 demo2"
  using own_step.served [of posix_boost "Create_from (demo_source True) True False False R_NilValue" demo1 "Inr ()" demo2]
    demo2_create by (simp add: ignore_def C_calls andThen_run ok_run)

lemma demo2_reachable: "session_reachable posix_boost demo2"
  by (rule session_reachable.step [OF demo1_reachable session_step.own [OF demo2_step]])

lemma demo2_extptrs: "extptrs demo2 = [(Ptr 1 0, ''1'')]"
  by code_simp

lemma demo_source_bytes: "source_bytes posix_view demo1 (demo_source heap) 12 demo_bytes"
  by (simp add: source_bytes_def demo_source_def demo_bytes_def getTypeSize_def regions_of_def)

lemma demo_source_size: "getObjectSize (src_type (demo_source heap)) (src_length (demo_source heap)) = Inr 12"
  by (simp add: demo_source_def getObjectSize_def getTypeSize_def)

section \<open>Facts about the run\<close>

lemma demo2_machine [simp]:
  "p_names (machine demo2) = [(getKey ''1'', 1), (SHARED_OBJECT_COUNTER, 0)]"
  "p_handles (machine demo2) = [(1, 1), (0, 0)]" "p_regions (machine demo2) = [(1, 1), (0, 0)]"
  by code_simp+

lemma demo_vector_simps [simp]:
  "sv_address demo_vector = Ptr 1 0" "sv_tag demo_vector = ''1''" "sv_class demo_vector = shared_integer_class"
  "info_dataId (sv_info demo_vector) = ''1''" "info_totalSize (sv_info demo_vector) = 12"
  "info_length (sv_info demo_vector) = 3" "info_copyOnWrite (sv_info demo_vector)"
  "\<not> info_sharedCopy (sv_info demo_vector)" "\<not> info_sharedSubset (sv_info demo_vector)"
  by (simp_all add: demo_vector_def)

lemma demo2_shows:
  "vector_bytes posix_view demo2 demo_vector = Some demo_bytes" "vector_object posix_view demo2 demo_vector = Some 1"
  "registry_ok demo2" "in_sync posix_view demo2"
proof -
  obtain w1 j bs where new: "new_vector posix_view demo1 w1 demo_vector INTSXP 3 j bs"
    and wr: "writes_object posix_view w1 demo2 j" and bytes: "vector_bytes posix_view demo2 demo_vector = Some demo_bytes"
    using shm_os_live.createFromSource_Inr [OF posix_live demo2_create demo1_ok(1,2) demo_source_size, of demo_bytes]
      demo_source_bytes [of True] by (auto simp: demo_source_def)
  show "vector_bytes posix_view demo2 demo_vector = Some demo_bytes"
    by (rule bytes)
  show "vector_object posix_view demo2 demo_vector = Some 1"
    by (simp add: vector_object_def)
  show "registry_ok demo2" "in_sync posix_view demo2"
    using writes_object_registry [OF wr] new_vector_registry [OF new demo1_ok(1)] new_vector_in_sync [OF new demo1_ok(2)]
    by blast+
qed

lemma demo2_lastId: "lastId demo2 = Some (Ptr 0 0)"
  by code_simp

lemma demo2_not_counter: "\<not> counter_object posix_view demo2 1"
  by (simp add: counter_object_def demo2_lastId)

lemma demo_vector_wf: "vector_wf demo_vector"
  by (simp add: vector_wf_def getTypeSize_def sexp_types)

lemma demo2_counted: "counted demo2"
  using session_counted [OF session_reachable_ok [OF demo2_reachable]] .

lemma demo2_mapped: "mapped_at demo2 (getKey ''1'') = Some (Ptr 1 0)"
  by (rule session_mapped [OF session_reachable_ok [OF demo2_reachable]]) (simp add: demo2_extptrs)

subsection \<open>The vector read again, and in another process\<close>

definition demo3 :: "posix session" where
  "demo3 = snd (readSharedObject posix_boost (sv_info demo_vector) demo2)"

definition demo_other :: "posix session" where
  "demo_other = session_init (machine demo2)"

definition demo_other1 :: "posix session" where
  "demo_other1 = snd (readSharedObject posix_boost (sv_info demo_vector) demo_other)"

lemma demo3_read: "\<exists>v. readSharedObject posix_boost (sv_info demo_vector) demo2 = (Inr v, demo3) \<and> sv_address v = Ptr 1 0"
proof -
  have "\<not> isl (fst (readSharedObject posix_boost (sv_info demo_vector) demo2))"
    by code_simp
  from run_Inr [OF this] obtain v where "readSharedObject posix_boost (sv_info demo_vector) demo2 = (Inr v, demo3)"
    by (auto simp: demo3_def)
  then show ?thesis
    using read_mapped [OF _ demo2_counted, of posix_boost "sv_info demo_vector" v demo3 "Ptr 1 0"] demo2_mapped by simp
qed

lemma demo3_reachable: "session_reachable posix_boost demo3"
proof -
  have "own_step posix_boost demo2 demo3"
    using own_step.served [of posix_boost "Read (sv_info demo_vector)" demo2 "Inr ()" demo3] demo3_read
    by (auto simp: ignore_def C_calls andThen_run ok_run)
  then show ?thesis
    by (rule session_reachable.step [OF demo2_reachable session_step.own])
qed

lemma demo3_extptrs: "extptrs demo3 = [(Ptr 1 0, ''1''), (Ptr 1 0, ''1'')]"
  by code_simp

lemma demo_other_ok: "registry_ok demo_other" "unopened demo_other (getKey ''1'')" "machine demo_other = machine demo2"
  by (simp_all add: demo_other_def session_init_def world_init_def world.defs registry_ok_def unopened_def)

definition demo_other_vector :: shared_vector where
  "demo_other_vector = (case fst (readSharedObject posix_boost (sv_info demo_vector) demo_other) of
     Inr v \<Rightarrow> v | Inl e \<Rightarrow> demo_vector)"

lemma demo_other_read:
  "readSharedObject posix_boost (sv_info demo_vector) demo_other = (Inr demo_other_vector, demo_other1)"
proof -
  have "isl (fst (readSharedObject posix_boost (sv_info demo_vector) demo_other)) = False"
    by code_simp
  then show ?thesis
    by (auto simp: demo_other1_def demo_other_vector_def prod_eq_iff split: sum.split)
qed

subsection \<open>An empty vector\<close>

lemma demo_empty_run: "\<exists>v w'. createEmptySharedObject posix_boost INTSXP 3 True False False R_NilValue demo1 = (Inr v, w')"
proof -
  have "\<not> isl (fst (createEmptySharedObject posix_boost INTSXP 3 True False False R_NilValue demo1))"
    by code_simp
  from run_Inr [OF this] show ?thesis
    by blast
qed

subsection \<open>Duplicates, and the vector in transit\<close>

definition with_flags :: "bool \<Rightarrow> bool \<Rightarrow> bool \<Rightarrow> shared_vector \<Rightarrow> shared_vector" where
  "with_flags cow sub cp v = v\<lparr>sv_info := (sv_info v)\<lparr>info_copyOnWrite := cow, info_sharedSubset := sub, info_sharedCopy := cp\<rparr>\<rparr>"

lemma with_flags_simps [simp]:
  "sv_address (with_flags cow sub cp v) = sv_address v" "sv_class (with_flags cow sub cp v) = sv_class v"
  "sv_tag (with_flags cow sub cp v) = sv_tag v"
  "info_dataId (sv_info (with_flags cow sub cp v)) = info_dataId (sv_info v)"
  "info_length (sv_info (with_flags cow sub cp v)) = info_length (sv_info v)"
  "info_totalSize (sv_info (with_flags cow sub cp v)) = info_totalSize (sv_info v)"
  "info_copyOnWrite (sv_info (with_flags cow sub cp v)) = cow" "info_sharedSubset (sv_info (with_flags cow sub cp v)) = sub"
  "info_sharedCopy (sv_info (with_flags cow sub cp v)) = cp"
  by (simp_all add: with_flags_def)

lemma with_flags_shows [simp]:
  "vector_object view w (with_flags cow sub cp v) = vector_object view w v"
  "vector_bytes view w (with_flags cow sub cp v) = vector_bytes view w v"
  "vector_wf (with_flags cow sub cp v) = vector_wf v"
  by (simp_all add: vector_object_def vector_bytes_def vector_wf_def cong: option.case_cong)

lemma demo_duplicate_run:
  "\<exists>y w'. sharedVector_duplicate posix_boost (with_flags cow False True demo_vector) True demo2 = (Inr y, w')"
proof -
  have "\<not> isl (fst (sharedVector_duplicate posix_boost (with_flags cow False True demo_vector) True demo2))"
    by (cases cow; simp only:; code_simp)
  from run_Inr [OF this] show ?thesis
    by blast
qed

definition demo_travel :: "so_error + robj" where
  "demo_travel = (case sharedVector_serialized_state posix_boost demo_vector demo2 of
     (Inl e, w1) \<Rightarrow> Inl e
   | (Inr s, w1) \<Rightarrow> fst (sharedVector_unserialize posix_boost s (session_init (machine w1))))"

lemma demo_travel_run: "\<exists>v. demo_travel = Inr (Shared v)"
proof -
  have "(case demo_travel of Inr (Shared v) \<Rightarrow> True | _ \<Rightarrow> False)"
    by code_simp
  then show ?thesis
    by (auto split: sum.splits robj.splits)
qed

lemma demo_subset_run:
  "\<exists>y w'. sharedVector_subset posix_boost (with_flags True True False demo_vector) (Int_index [3, 1, 1]) demo2 = (Inr y, w')"
proof -
  have "\<not> isl (fst (sharedVector_subset posix_boost (with_flags True True False demo_vector) (Int_index [3, 1, 1]) demo2))"
    by code_simp
  from run_Inr [OF this] show ?thesis
    by blast
qed

subsection \<open>A string\<close>

definition demo_strings :: "charsxp list" where
  "demo_strings = [7, 9, 7, 8]"

definition demo_string :: "bool \<Rightarrow> (so_error + shared_string) \<times> posix session" where
  "demo_string cow = createSharedStringFromSource posix_boost demo_strings cow R_NilValue demo1"

lemma demo_string_run: "\<exists>s w'. createSharedStringFromSource posix_boost demo_strings cow R_NilValue demo1 = (Inr s, w')"
proof -
  have "length (find_unique demo_strings) = 3"
    by (simp add: find_unique_length demo_strings_def card_insert_if numeral_3_eq_3)
  then have "unit_size (length (find_unique demo_strings)) = 1"
    using unit_size_closed [of 3] by simp
  moreover have "\<exists>v w1. createEmptySharedObject posix_boost RAWSXP 4 True False False R_NilValue demo1 = (Inr v, w1)"
  proof -
    have "\<not> isl (fst (createEmptySharedObject posix_boost RAWSXP 4 True False False R_NilValue demo1))"
      by code_simp
    from run_Inr [OF this] show ?thesis
      by blast
  qed
  then obtain v w1 where create: "createEmptySharedObject posix_boost RAWSXP 4 True False False R_NilValue demo1 = (Inr v, w1)"
    by blast
  obtain j bs where new: "new_vector posix_view demo1 w1 v RAWSXP 4 j bs"
    using shm_os_live.createEmpty_Inr [OF posix_live create demo1_ok(1,2)] by blast
  have total: "info_totalSize (sv_info v) = 4"
    using new by (auto simp: new_vector_def getTypeSize_def sexp_types)
  obtain w2 where "write_index posix_boost (sharedVector_dataptr v True) 1 (find_unique demo_strings) demo_strings w1 = (Inr (), w2)"
    using shm_os.write_index_run [OF posix_shm_os new_vector_bytes(2,1) [OF new], of demo_strings 1]
      new_vector_bytes(3) [OF new] by (auto simp: total demo_strings_def)
  ultimately show ?thesis
    using create
    by (simp add: createSharedStringFromSource_def Let_def demo_strings_def andThen_run new_string_list_def of_sum_run ok_run
        getAltClass_def sexp_types)
qed

text \<open>
  A string over the bytes of \<open>demo_vector\<close>, 12 units of one byte or 3 units of four, with a cached
  vector or without.
\<close>

definition demo_lists :: "charsxp list option \<Rightarrow> str_data" where
  "demo_lists cache = \<lparr>STR_DATA_STRVEC = cache, STR_DATA_INDEX = Shared demo_vector, STR_DATA_CHARSET = [40, 41, 42, 43]\<rparr>"

definition demo_words :: "charsxp list option \<Rightarrow> posix session" where
  "demo_words cache = demo2\<lparr>string_lists := [demo_lists cache]\<rparr>"

definition demo_word :: "nat \<Rightarrow> shared_string" where
  "demo_word u = \<lparr>ss_class = shared_string_class, ss_data = 0, ss_info = \<lparr>str_length = of_nat (12 div u),
     str_unitSize = of_nat u, str_totalSize = 12, str_dataType = STRSXP, str_uniqueChar = 4, str_copyOnWrite = True\<rparr>,
     ss_attributes = R_NilValue\<rparr>"

lemma demo_word_simps [simp]:
  "string_lists (demo_words cache) = [demo_lists cache]" "machine (demo_words cache) = machine demo2"
  "ss_data (demo_word u) = 0" "str_unitSize (ss_info (demo_word u)) = of_nat u"
  "str_length (ss_info (demo_word u)) = of_nat (12 div u)" "str_copyOnWrite (ss_info (demo_word u))"
  "STR_DATA_STRVEC (demo_lists cache) = cache" "STR_DATA_INDEX (demo_lists cache) = Shared demo_vector"
  "STR_DATA_CHARSET (demo_lists cache) = [40, 41, 42, 43]"
  by (simp_all add: demo_words_def demo_lists_def demo_word_def)

definition demo_text :: "charsxp list" where
  "demo_text = [41, 40, 40, 40, 42, 40, 40, 40, 43, 40, 40, 40]"

lemma demo_words_show:
  "string_shows posix_view (demo_words cache) (demo_word 1) demo_text"
  "string_shows posix_view (demo_words cache) (demo_word 4) [41, 42, 43]"
proof -
  have bytes: "vector_bytes posix_view (demo_words cache) demo_vector = Some demo_bytes"
    using demo2_shows(1) vector_bytes_view [of posix_view "demo_words cache" demo2 demo_vector] by simp
  have len: "length demo_text = 12" "length demo_bytes = 12" "length [40, 41, 42, 43 :: nat] = 4"
    "length [41, 42, 43 :: nat] = 3"
    by (simp_all add: demo_text_def demo_bytes_def)
  have each: "\<forall>i < 12. from_le (slice i 1 demo_bytes) < 4 \<and> [40, 41, 42, 43 :: nat] ! from_le (slice i 1 demo_bytes) = demo_text ! i"
    "\<forall>i < 3. from_le (slice (i * 4) 4 demo_bytes) < 4 \<and> [40, 41, 42, 43 :: nat] ! from_le (slice (i * 4) 4 demo_bytes) = [41, 42, 43] ! i"
    by code_simp+
  show "string_shows posix_view (demo_words cache) (demo_word 1) demo_text"
    unfolding string_shows_def
    by (rule exI [of _ "demo_lists cache"], rule exI [of _ demo_vector], rule exI [of _ demo_bytes])
      (use bytes each(1) len in \<open>simp del: list.size\<close>)
  show "string_shows posix_view (demo_words cache) (demo_word 4) [41, 42, 43]"
    unfolding string_shows_def
    by (rule exI [of _ "demo_lists cache"], rule exI [of _ demo_vector], rule exI [of _ demo_bytes])
      (use bytes each(2) len in \<open>simp del: list.size\<close>)
qed

end
