(* ===== verification/ProcessProps.thy ===== *)
theory ProcessProps
  imports Processes Example
begin

text \<open>
  Properties of several R processes on one machine, C3 and C4, and the run of two processes their
  witnesses use.
\<close>

section \<open>Two processes on the reference machine\<close>

text \<open>Process 0 makes the shared counter and a vector; process 1 starts and reads the vector.\<close>

definition demo_processes :: "nat \<Rightarrow> posix session option" where
  "demo_processes = [0 \<mapsto> demo2, 1 \<mapsto> demo_other]"

definition demo_system :: "posix system" where
  "demo_system = (machine demo_other1, demo_processes(1 \<mapsto> demo_other1))"

lemma machine_same [simp]: "machine w = m \<Longrightarrow> w\<lparr>machine := m\<rparr> = w"
  by (cases w) simp

lemma demo_started: "system_reachable posix_boost posix_view posix_init (machine demo2, demo_processes)"
proof -
  let ?run = "system_reachable posix_boost posix_view posix_init"
  note acts = system_step.acts [where i = 0]
  have "?run (posix_init, [0 \<mapsto> demo0])"
    using system_reachable.step [OF system_reachable.boot system_step.starts [where i = 0]] by (simp add: demo0_def)
  then have "?run (machine demo1, [0 \<mapsto> demo1])"
    using system_reachable.step [OF _ acts [where w = demo0 and w' = demo1]] demo1_step by fastforce
  then have "?run (machine demo2, [0 \<mapsto> demo2])"
    using system_reachable.step [OF _ acts [where w = demo1 and w' = demo2]] demo2_step by fastforce
  then show ?thesis
    using system_reachable.step [OF _ system_step.starts [where i = 1]] by (fastforce simp: demo_processes_def demo_other_def)
qed

lemma demo_other_step: "own_step posix_boost demo_other demo_other1"
  using own_step.served [of posix_boost "Read (sv_info demo_vector)" demo_other "Inr ()" demo_other1] demo_other_read
  by (simp add: ignore_def C_calls andThen_run ok_run)

lemma demo_system_step: "system_step posix_boost posix_view 1 (machine demo2, demo_processes) demo_system"
  using system_step.acts [of demo_processes 1 demo_other posix_boost "machine demo2" demo_other1] demo_other_step
  by (simp add: demo_system_def demo_processes_def demo_other_ok(3))

lemma demo_other1_extptrs: "extptrs demo_other1 = [(Ptr 2 0, ''1'')]"
  by code_simp

section \<open>Properties\<close>

text \<open>
  C3. No dangling pointer in any process that leaves mappings to the package: whatever any number of R processes on one
  machine have done in any order, starts and ends of processes included, every live external pointer of every
  running process is the start of a mapping that exists on the machine and that this process alone holds. As in
  C1, only calls that manage mappings by hand (\<open>C_mapSharedMemory\<close>, \<open>C_unmapSharedMemory\<close>,
  \<open>C_freeSharedMemory\<close>) and undefined behaviour are excepted.
\<close>

theorem no_dangling_pointer:
  assumes "shm_os B view" and "system_reachable B view m0 (m, ps)" and "ps i = Some w" and "(p, ident) \<in> set (extptrs w)"
  shows "ptr_off p = 0 \<and> (\<exists>j. vregions (view m) (ptr_block p) = Some j) \<and>
    (\<forall>k v q l. ps k = Some v \<and> (q, l) \<in> set (extptrs v) \<and> ptr_block q = ptr_block p \<longrightarrow> k = i)"
proof -
  have ok: "system_ok B view (m, ps)"
    using shm_os.system_reachable_ok [OF assms(1,2)] .
  have owned: "ptr_off q = 0 \<and> ptr_block q \<in> own_regions v \<and> own_regions v \<subseteq> dom (vregions (view m))"
    if "ps k = Some v" "(q, l) \<in> set (extptrs v)" for k v q l
  proof -
    have v: "session_reachable B (v\<lparr>machine := m\<rparr>)" "attached view (v\<lparr>machine := m\<rparr>)"
      using ok that(1) by (auto simp: system_ok_def)
    show ?thesis
      using live_region [OF session_reachable_ok [OF v(1)], of q l] that(2) v(2) by (auto simp: attached_def)
  qed
  have "k = i" if "ps k = Some v" "(q, l) \<in> set (extptrs v)" "ptr_block q = ptr_block p" for k v q l
  proof (rule ccontr)
    assume "k \<noteq> i"
    then have "own_regions v \<inter> own_regions w = {}"
      using ok assms(3) that(1) by (auto simp: system_ok_def)
    then show False
      using owned [OF that(1,2)] owned [OF assms(3,4)] that(3) by auto
  qed
  then show ?thesis
    using owned [OF assms(3,4)] by blast
qed

theorem no_dangling_pointer_witness:
  "\<exists>j. vregions (posix_view (fst demo_system)) 2 = Some j"
  using no_dangling_pointer [OF posix_shm_os, of posix_init "fst demo_system" "snd demo_system" 1 demo_other1 "Ptr 2 0" "''1''"]
    system_reachable.step [OF demo_started demo_system_step]
  by (simp add: demo_system_def demo_other1_extptrs del: posix_view_simps)

text \<open>
  C4. Nothing another process does, whether it maps, unmaps or frees segments, starts or ends, moves or
  replaces a mapping behind a live pointer: after a step of process \<open>k\<close>, the mappings behind the live pointers
  of every other process are the mappings of the same objects as before.
\<close>

theorem other_process_keeps:
  assumes "shm_os B view" and "system_reachable B view m0 (m, ps)" and "system_step B view k (m, ps) (m', ps')"
    and "ps i = Some w" and "i \<noteq> k" and "(p, ident) \<in> set (extptrs w)"
  shows "ps' i = Some w \<and> vregions (view m') (ptr_block p) = vregions (view m) (ptr_block p)"
proof -
  have ok: "system_ok B view (m, ps)"
    using shm_os.system_reachable_ok [OF assms(1,2)] .
  then have "session_reachable B (w\<lparr>machine := m\<rparr>)"
    using assms(4) by (auto simp: system_ok_def)
  then have "ptr_block p \<in> own_regions w"
    using live_region(2) [OF session_reachable_ok, of B "w\<lparr>machine := m\<rparr>" p ident] assms(6) by simp
  then show ?thesis
    using shm_os.system_step_other [OF assms(1,3) ok assms(4,5)] by blast
qed

theorem other_process_keeps_witness:
  "vregions (posix_view (fst demo_system)) 1 = vregions (posix_view (machine demo2)) 1"
  using other_process_keeps [OF posix_shm_os demo_started, where k = 1 and m' = "fst demo_system" and ps' = "snd demo_system"
      and i = 0 and w = demo2 and p = "Ptr 1 0" and ident = "''1''"] demo_system_step
  by (simp add: demo_processes_def demo2_extptrs del: posix_view_simps)

end
