(* ===== verification/ProcessLock.thy ===== *)
theory ProcessLock
  imports PkgData PosixShm
begin

text \<open>
  The process lock \<open>auto_semophore\<close> of \<open>src/sharedMemory.cpp\<close> used by several processes at once:
  an interleaving of its constructor, \<open>lock\<close> and destructor on one machine. What the code relies on
  of a named semaphore is the locale \<open>named_semaphores\<close>. The lemmas say what the lock gives (one
  holder per semaphore) and what it does not (a semaphore is never given back, and its name is
  removed under those who wait for it).
\<close>

section \<open>Named semaphores\<close>

text \<open>The name of each semaphore, the semaphores created so far and their counts.\<close>

record sem_view =
  sem_names :: "string \<Rightarrow> nat option"
  sem_count :: "nat \<Rightarrow> nat option"

locale named_semaphores =
  fixes B :: "'os boost" and sview :: "'os \<Rightarrow> sem_view"
  assumes open_existing: "sem_names (sview os) k = Some s \<Longrightarrow> sem_open_or_create B k n os = (Inr s', os') \<Longrightarrow>
      s' = s \<and> sview os' = sview os"
    and open_new: "sem_names (sview os) k = None \<Longrightarrow> sem_open_or_create B k n os = (Inr s', os') \<Longrightarrow>
      sem_count (sview os) s' = None \<and>
      sview os' = (sview os)\<lparr>sem_names := (sem_names (sview os))(k \<mapsto> s'), sem_count := (sem_count (sview os))(s' \<mapsto> n)\<rparr>"
    and wait_True: "sem_timed_wait B s os = (True, os') \<Longrightarrow>
      \<exists>c. sem_count (sview os) s = Some (Suc c) \<and>
          sview os' = (sview os)\<lparr>sem_count := (sem_count (sview os))(s \<mapsto> c)\<rparr>"
    and wait_False: "sem_timed_wait B s os = (False, os') \<Longrightarrow> sview os' = sview os"
    and post_count: "sem_count (sview os) s = Some c \<Longrightarrow>
      sview (sem_post B s os) = (sview os)\<lparr>sem_count := (sem_count (sview os))(s \<mapsto> Suc c)\<rparr>"
    and delete_same: "sview (sem_delete B s os) = sview os"
    and remove_sem: "sview (sem_remove B k os) = (sview os)\<lparr>sem_names := (sem_names (sview os))(k := None)\<rparr>"

definition posix_sview :: "posix \<Rightarrow> sem_view" where
  "posix_sview s = \<lparr>sem_names = map_of (p_sem_names s), sem_count = map_of (p_sems s)\<rparr>"

interpretation posix_sems: named_semaphores posix_boost posix_sview
  by unfold_locales
    (auto simp: posix_sview_def posix_sem_open_def posix_sem_wait_def posix_sem_post_def Let_def posix_fresh_handle
      map_of_drop_key split: option.splits if_splits nat.splits elim: less_natE)

section \<open>Processes\<close>

text \<open>
  Where a process is in \<open>initialPkgData\<close>: before or after it, after the constructor of the guard, or
  past \<open>lock\<close>, with the lock or without it.
\<close>

datatype lock_pc = Outside | Waiting auto_semophore | Inside auto_semophore bool

type_synonym 'os lock_state = "'os \<times> (nat \<Rightarrow> lock_pc)"

definition guard_new :: "'os boost \<Rightarrow> 'os \<Rightarrow> (so_error + auto_semophore) \<times> 'os" where
  "guard_new B m = (case auto_semophore_new B (world_init m) of (r, w) \<Rightarrow> (r, machine w))"

text \<open>The lock is held when no warning was given.\<close>

definition guard_lock :: "'os boost \<Rightarrow> auto_semophore \<Rightarrow> 'os \<Rightarrow> (auto_semophore \<times> bool) \<times> 'os" where
  "guard_lock B g m = (case auto_semophore_lock B g (world_init m) of
     (r, w) \<Rightarrow> ((case r of Inl e \<Rightarrow> g | Inr g' \<Rightarrow> g', warnings w = []), machine w))"

definition guard_delete :: "'os boost \<Rightarrow> auto_semophore \<Rightarrow> 'os \<Rightarrow> 'os" where
  "guard_delete B g m = machine (auto_semophore_delete B g (world_init m))"

inductive lock_step :: "'os boost \<Rightarrow> 'os lock_state \<Rightarrow> 'os lock_state \<Rightarrow> bool" for B where
  construct: "pcs i = Outside \<Longrightarrow> guard_new B m = (Inr g, m') \<Longrightarrow> lock_step B (m, pcs) (m', pcs(i := Waiting g))"
| lock: "pcs i = Waiting g \<Longrightarrow> guard_lock B g m = ((g', status), m') \<Longrightarrow>
    lock_step B (m, pcs) (m', pcs(i := Inside g' status))"
| leave: "pcs i = Inside g status \<Longrightarrow> lock_step B (m, pcs) (guard_delete B g m, pcs(i := Outside))"

inductive lock_reachable :: "'os boost \<Rightarrow> 'os \<Rightarrow> 'os lock_state \<Rightarrow> bool" for B m0 where
  start: "lock_reachable B m0 (m0, \<lambda>i. Outside)"
| step: "lock_reachable B m0 st \<Longrightarrow> lock_step B st st' \<Longrightarrow> lock_reachable B m0 st'"

lemma guard_new_run:
  "guard_new B m = (case sem_open_or_create B SEMAPHORE_NAME 1 m of
     (Inl what, m') \<Rightarrow> (Inl (CppError what), m') | (Inr s, m') \<Rightarrow> (Inr \<lparr>semaphore = s, locked = False\<rparr>, m'))"
  by (auto simp: guard_new_def auto_semophore_new_def world_init_def split: prod.split sum.split)

lemma guard_lock_run:
  "guard_lock B g m = (case sem_timed_wait B (semaphore g) m of (status, m') \<Rightarrow> ((g, status), m'))"
  by (auto simp: guard_lock_def auto_semophore_lock_def world_init_def split: prod.split)

lemma guard_delete_run:
  "guard_delete B g m = sem_remove B SEMAPHORE_NAME (sem_delete B (semaphore g)
     (if locked g then sem_post B (semaphore g) m else m))"
  by (simp add: guard_delete_def auto_semophore_delete_def world_init_def Let_def)

section \<open>What the lock gives\<close>

text \<open>
  The invariant, for the semaphores created since the start (those not in \<open>old\<close>): no guard is ever
  marked as locked; a count is at most 1, and 0 while the semaphore has a holder; there is at most
  one holder.
\<close>

definition guard_of :: "lock_pc \<Rightarrow> auto_semophore option" where
  "guard_of pc = (case pc of Outside \<Rightarrow> None | Waiting g \<Rightarrow> Some g | Inside g status \<Rightarrow> Some g)"

definition holds :: "lock_pc \<Rightarrow> nat \<Rightarrow> bool" where
  "holds pc s \<longleftrightarrow> (\<exists>g. pc = Inside g True \<and> semaphore g = s)"

definition lock_inv :: "('os \<Rightarrow> sem_view) \<Rightarrow> nat set \<Rightarrow> 'os \<Rightarrow> (nat \<Rightarrow> lock_pc) \<Rightarrow> bool" where
  "lock_inv sview old m pcs \<longleftrightarrow>
     (\<forall>i g. guard_of (pcs i) = Some g \<longrightarrow> \<not> locked g \<and> semaphore g \<notin> old) \<and>
     (\<forall>s. sem_names (sview m) SEMAPHORE_NAME = Some s \<longrightarrow> s \<notin> old \<and> sem_count (sview m) s \<noteq> None) \<and>
     (\<forall>s \<in> old. sem_count (sview m) s \<noteq> None) \<and>
     (\<forall>s c. s \<notin> old \<longrightarrow> sem_count (sview m) s = Some c \<longrightarrow> c \<le> 1) \<and>
     (\<forall>i s. holds (pcs i) s \<longrightarrow> sem_count (sview m) s = Some 0) \<and>
     (\<forall>i j s. holds (pcs i) s \<longrightarrow> holds (pcs j) s \<longrightarrow> i = j)"

lemma guard_of_simps [simp]:
  "guard_of Outside = None" "guard_of (Waiting g) = Some g" "guard_of (Inside g status) = Some g"
  by (simp_all add: guard_of_def)

lemma holds_simps [simp]:
  "\<not> holds Outside s" "\<not> holds (Waiting g) s" "holds (Inside g status) s \<longleftrightarrow> status \<and> semaphore g = s"
  by (auto simp: holds_def)

lemma lock_inv_guard:
  assumes "lock_inv sview old m pcs" and "guard_of (pcs i) = Some g"
  shows "\<not> locked g" and "semaphore g \<notin> old"
  using assms unfolding lock_inv_def by blast+

context named_semaphores
begin

text \<open>Counts never go up: nobody posts.\<close>

lemma count_step:
  assumes "lock_step B (m, pcs) (m', pcs')" and "lock_inv sview old m pcs" and "sem_count (sview m) s = Some c"
  shows "\<exists>c' \<le> c. sem_count (sview m') s = Some c'"
  using assms(1)
proof cases
  case (construct i g)
  then have op: "sem_open_or_create B SEMAPHORE_NAME 1 m = (Inr (semaphore g), m')"
    by (auto simp: guard_new_run split: prod.splits sum.splits)
  show ?thesis
  proof (cases "sem_names (sview m) SEMAPHORE_NAME")
    case None
    then show ?thesis
      using open_new [OF _ op] assms(3) by auto
  next
    case (Some s')
    then show ?thesis
      using open_existing [OF _ op] assms(3) by auto
  qed
next
  case (lock i g g' status)
  then have w: "sem_timed_wait B (semaphore g) m = (status, m')"
    by (auto simp: guard_lock_run split: prod.splits)
  show ?thesis
  proof (cases status)
    case True
    then obtain c0 where "sem_count (sview m) (semaphore g) = Some (Suc c0)"
      "sview m' = (sview m)\<lparr>sem_count := (sem_count (sview m))(semaphore g \<mapsto> c0)\<rparr>"
      using wait_True [of "semaphore g" m m'] w by auto
    then show ?thesis
      using assms(3) by (cases "s = semaphore g") auto
  next
    case False
    then show ?thesis
      using wait_False [of "semaphore g" m m'] w assms(3) by auto
  qed
next
  case (leave i g status)
  then have "\<not> locked g"
    using lock_inv_guard(1) [OF assms(2), of i g] by simp
  then show ?thesis
    using leave assms(3) by (simp add: guard_delete_run remove_sem delete_same)
qed

lemma lock_inv_step:
  assumes "lock_step B (m, pcs) (m', pcs')" and inv: "lock_inv sview old m pcs"
  shows "lock_inv sview old m' pcs'"
  using assms(1)
proof cases
  case (construct i g)
  then have op: "sem_open_or_create B SEMAPHORE_NAME 1 m = (Inr (semaphore g), m')" and unlocked: "\<not> locked g"
    by (auto simp: guard_new_run split: prod.splits sum.splits)
  show ?thesis
  proof (cases "sem_names (sview m) SEMAPHORE_NAME")
    case None
    note new = open_new [OF None op]
    have "semaphore g \<notin> old"
      using inv new by (auto simp: lock_inv_def)
    then show ?thesis
      using inv construct(1) new unlocked by (auto simp: lock_inv_def)
  next
    case (Some s)
    note same = open_existing [OF Some op]
    have "semaphore g \<notin> old"
      using inv same Some by (auto simp: lock_inv_def)
    then show ?thesis
      using inv construct(1) same unlocked by (auto simp: lock_inv_def)
  qed
next
  case (lock i g g' status)
  then have w: "sem_timed_wait B (semaphore g) m = (status, m')" and g': "g' = g"
    by (auto simp: guard_lock_run split: prod.splits)
  have mine: "\<not> locked g" "semaphore g \<notin> old"
    using lock_inv_guard [OF inv, of i g] lock by simp_all
  show ?thesis
  proof (cases status)
    case True
    then obtain c where c: "sem_count (sview m) (semaphore g) = Some (Suc c)"
      "sview m' = (sview m)\<lparr>sem_count := (sem_count (sview m))(semaphore g \<mapsto> c)\<rparr>"
      using wait_True [of "semaphore g" m m'] w by auto
    have "Suc c \<le> 1"
      using inv c(1) mine(2) unfolding lock_inv_def by blast
    then have c0: "c = 0"
      by simp
    have nobody: "\<not> holds (pcs j) (semaphore g)" for j
      using inv c(1) unfolding lock_inv_def by force
    show ?thesis
      using inv lock(1) True g' mine c(2) c0 nobody unfolding lock_inv_def
      by (auto split: if_splits)
  next
    case False
    then show ?thesis
      using inv lock(1) g' mine wait_False [of "semaphore g" m m'] w unfolding lock_inv_def
      by (auto split: if_splits)
  qed
next
  case (leave i g status)
  then have "\<not> locked g"
    using lock_inv_guard(1) [OF inv, of i g] by simp
  then have "sview m' = (sview m)\<lparr>sem_names := (sem_names (sview m))(SEMAPHORE_NAME := None)\<rparr>"
    using leave by (simp add: guard_delete_run remove_sem delete_same)
  then show ?thesis
    using inv leave(2) unfolding lock_inv_def leave(1) [symmetric] by (auto split: if_splits)
qed

lemma lock_reachable_inv:
  assumes "lock_reachable B m0 st" and "sem_names (sview m0) SEMAPHORE_NAME = None"
  shows "lock_inv sview (dom (sem_count (sview m0))) (fst st) (snd st)"
  using assms(1)
proof induction
  case start
  then show ?case
    using assms(2) by (auto simp: lock_inv_def)
next
  case (step st st')
  then show ?case
    using lock_inv_step by (cases st; cases st') auto
qed

lemma count_never_up:
  assumes "(lock_step B)\<^sup>*\<^sup>* (m, pcs) (m', pcs')" and "lock_inv sview old m pcs" and "sem_count (sview m) s = Some 0"
  shows "sem_count (sview m') s = Some 0"
proof -
  have "lock_inv sview old (fst st) (snd st) \<and> sem_count (sview (fst st)) s = Some 0"
    if "(lock_step B)\<^sup>*\<^sup>* (m, pcs) st" for st
    using that
  proof induction
    case base
    then show ?case
      using assms(2,3) by simp
  next
    case (step y z)
    then show ?case
      using lock_inv_step count_step by (cases y; cases z) fastforce
  qed
  from this [OF assms(1)] show ?thesis
    by simp
qed

end

end
