(* ===== verification/RegistryFacts.thy ===== *)
theory RegistryFacts
  imports SegmentMemory
begin

text \<open>
  The registry on its less happy paths: segments that exist already or do not exist, objects left
  behind by a failed call, counters of segments that were never mapped, and the functions that
  query or destroy a segment.
\<close>

section \<open>Segments that exist or do not\<close>

text \<open>\<open>allocateSharedMemory\<close> of an id whose segment another process made.\<close>

context shm_os
begin

lemma SO_allocate_existing:
  assumes "vnames (view os) (so_key so) \<noteq> None" and "sharedMemoryHandle so = None"
  shows "\<exists>msg os'. SO_allocateSharedMemory B (so, os) = (Inl (CppError msg), so, os') \<and> view os' = view os"
proof -
  obtain r os1 where c: "shm_create_only B (so_key so) os = (r, os1)"
    by fastforce
  then obtain what where r: "r = Inl what"
    using create_ok [of "so_key so" os] assms(1) by (cases r) auto
  then have "SO_allocate_try B (so, os) = (Inl (CppError what), so, os1)"
    using c by (simp add: SO_allocate_try_def)
  then show ?thesis
    using create_err c r assms(2) by (simp add: SO_allocate_run SO_allocate_catch_run)
qed

lemma allocate_existing:
  assumes "vnames (view (machine w)) key \<noteq> None" and "sharedObjectList w key = None"
  shows "\<exists>msg m. allocateSharedMemoryInternal B key n w = (Inl (CppError msg),
      w\<lparr>machine := m, sharedObjectList := (sharedObjectList w)(key \<mapsto> SharedObjectClass_new key n)\<rparr>) \<and>
    view m = view (machine w)"
proof -
  obtain msg m where "SO_allocateSharedMemory B (SharedObjectClass_new key n, machine w) =
      (Inl (CppError msg), SharedObjectClass_new key n, m)" "view m = view (machine w)"
    using SO_allocate_existing [of "machine w" "SharedObjectClass_new key n"] assms(1) by auto
  then show ?thesis
    using assms(2)
    by (intro exI [of _ msg] exI [of _ m])
      (simp add: allocateSharedMemoryInternal_def andThen_run emplace_object_def on_object_def)
qed

text \<open>Mapping a segment that does not exist fails and leaves an object of size 0.\<close>

lemma SO_map_missing:
  assumes "vnames (view os) key = None"
  shows "\<exists>msg os'. SO_mapSharedMemory B (SharedObjectClass_new key sz, os) =
      (Inl (CppError msg), SharedObjectClass_new key sz, os') \<and> view os' = view os"
proof -
  obtain r os1 where c: "shm_open_only B key os = (r, os1)"
    by fastforce
  then obtain what where r: "r = Inl what"
    using open_ok [of key os] assms by (cases r) auto
  then show ?thesis
    using open_err c
    by (simp add: SO_mapSharedMemory_def SO_map_try_def openSharedMemoryHandle_def so_has_defs exec_simps
        freeSharedMemoryHandle_def freeMappedRegionHandle_def handle_restored SharedObjectClass_new_def)
qed

lemma map_missing:
  assumes "vnames (view (machine w)) key = None" and "sharedObjectList w key = None"
  shows "\<exists>msg m. mapSharedMemoryInternal B key w = (Inl (CppError msg),
      w\<lparr>machine := m, sharedObjectList := (sharedObjectList w)(key \<mapsto> SharedObjectClass_new key 0),
        mapCounter := (mapCounter w)(key \<mapsto> 0)\<rparr>) \<and> view m = view (machine w)"
proof -
  obtain msg m where "SO_mapSharedMemory B (SharedObjectClass_new key 0, machine w) =
      (Inl (CppError msg), SharedObjectClass_new key 0, m)" "view m = view (machine w)"
    using SO_map_missing [OF assms(1), of 0] by blast
  then show ?thesis
    using assms(2)
    by (intro exI [of _ msg] exI [of _ m])
      (simp add: mapSharedMemoryInternal_def andThen_run emplace_object_def on_object_def keyInMap_def Let_def)
qed

end

text \<open>What such an object does to later calls.\<close>

lemma allocate_too_small:
  assumes "sharedObjectList w key = Some so" and "so_size so < n"
  shows "allocateSharedMemoryInternal B key n w = (Inl (CppError (take (BUFFER_SIZE - 1)
    (''The shared memory exists and its size is smaller than your request'' @
     ''(reqeust: '' @ to_string (unat n) @ '', actual:'' @ to_string (unat (so_size so)) @ '')''))), w)"
  using assms by (simp add: allocateSharedMemoryInternal_def andThen_run SO_getSize_def throwError_run)

lemma getSize_registered:
  "sharedObjectList w key = Some so \<Longrightarrow> getSharedMemorySizeInternal B key w = (Inr (so_size so), w)"
  by (simp add: getSharedMemorySizeInternal_def SO_getSize_def)

section \<open>Counters of segments that were not mapped\<close>

lemma unmap_not_mapped:
  assumes "sharedObjectList w key = Some so" and "counter_at w key = 0"
  shows "counter_at (unmapSharedMemoryInternal B key w) key = - 1 \<and>
    sharedObjectList (unmapSharedMemoryInternal B key w) key = None"
  using assms by (simp add: unmap_internal_run [OF assms(1)] counter_at_def split: prod.split)

lemma counter_after_map:
  assumes "mapSharedMemoryInternal B key w = (Inr p, w')" and "keyInMap (sharedObjectList w) key"
  shows "counter_at w' key = counter_at w key + 1 \<and> keyInMap (sharedObjectList w') key"
  using map_internal_Inr [OF assms(1)] assms(2) by (auto simp: counter_before_def counter_at_def keyInMap_def)

lemma allocate_object:
  assumes "allocateSharedMemoryInternal B key n w = (Inr (), w')" and "sharedObjectList w key = None"
  shows "(\<exists>so. sharedObjectList w' key = Some so \<and> so_inv so) \<and> counter_at w' = counter_at w"
proof -
  obtain so m where so: "SO_allocateSharedMemory B (SharedObjectClass_new key n, machine w) = (Inr (), so, m)"
    and w': "w' = w\<lparr>machine := m, sharedObjectList := (sharedObjectList w)(key \<mapsto> so)\<rparr>"
    using assms by (auto simp: allocateSharedMemoryInternal_def andThen_run emplace_object_def on_object_def split: prod.splits)
  have "so_inv so"
    using SO_allocate_Inr [OF so] so_inv_new [of key n] by (auto simp: so_inv_def)
  then show ?thesis
    by (simp add: w')
qed

text \<open>Two mappings of a known segment: the same memory, counted twice.\<close>

lemma map_twice:
  assumes "sharedObjectList w key = Some so" and "so_inv so" and "mapSharedMemoryInternal B key w = (Inr p, w1)"
    and "mapSharedMemoryInternal B key w1 = (Inr q, w2)"
  shows "q = p \<and> mapped_at w2 key = Some p \<and> keyInMap (sharedObjectList w2) key \<and> counter_at w2 key = counter_at w key + 2"
proof -
  obtain so1 m1 where so1: "SO_mapSharedMemory B (so, machine w) = (Inr p, so1, m1)" "sharedObjectList w1 key = Some so1"
    using map_internal_Inr [OF assms(3)] assms(1) by (auto simp: object_at_def)
  note ok1 = SO_map_Inr [OF so1(1) assms(2)]
  obtain so2 m2 where so2: "SO_mapSharedMemory B (so1, machine w1) = (Inr q, so2, m2)" "sharedObjectList w2 key = Some so2"
    using map_internal_Inr [OF assms(4)] so1(2) by (auto simp: object_at_def)
  have "shared_ptr so2 = Some q" "so2 = so1"
    using SO_map_Inr [OF so2(1)] ok1 by (metis option.distinct(1))+
  moreover have "counter_at w2 key = counter_at w key + 2"
    using counter_after_map [OF assms(3)] counter_after_map [OF assms(4)] assms(1) by (simp add: keyInMap_def)
  ultimately show ?thesis
    using ok1 so2(2) by (simp add: mapped_at_def keyInMap_def)
qed

lemma unmap_at_zero:
  assumes "keyInMap (sharedObjectList w) key" and "counter_at w key \<le> 1"
  shows "mapped_at (unmapSharedMemoryInternal B key w) key = None"
proof -
  obtain so where so: "sharedObjectList w key = Some so"
    using assms(1) by (auto simp: keyInMap_def)
  show ?thesis
    using assms(2) by (simp add: unmap_internal_run [OF so] mapped_at_def split: prod.split)
qed

section \<open>Querying and destroying\<close>

context shm_os
begin

text \<open>The temporary object that finds the size of an unknown segment leaves no trace.\<close>

lemma getSize_unknown:
  assumes "getSharedMemorySizeInternal B key w = (Inr sz, w')" and "sharedObjectList w key = None"
  shows "\<exists>j. vnames (view (machine w)) key = Some j \<and>
    (length (vobjs (view (machine w)) j) < max_object \<longrightarrow> sz = of_nat (length (vobjs (view (machine w)) j))) \<and>
    w' = w\<lparr>machine := machine w'\<rparr> \<and> view (machine w') = view (machine w)"
proof -
  obtain p so m where map: "SO_mapSharedMemory B (SharedObjectClass_new key 0, machine w) = (Inr p, so, m)"
    and sz: "sz = so_size so" and w': "w' = w\<lparr>machine := SharedObjectClass_delete B (so, m)\<rparr>"
    using assms by (auto simp: getSharedMemorySizeInternal_def SO_getSize_def split: prod.splits sum.splits)
  obtain h j r sz' where j: "vnames (view (machine w)) key = Some j" "vhandles (view (machine w)) h = None"
    "vregions (view (machine w)) r = None"
    "length (vobjs (view (machine w)) j) < max_object \<longrightarrow> sz' = of_nat (length (vobjs (view (machine w)) j))"
    "so = (SharedObjectClass_new key 0)\<lparr>sharedMemoryHandle := Some h, mappedRegionHandle := Some r, shared_ptr := Some p,
       so_size := sz'\<rparr>"
    "view m = (view (machine w))\<lparr>vhandles := (vhandles (view (machine w)))(h \<mapsto> j),
       vregions := (vregions (view (machine w)))(r \<mapsto> j)\<rparr>"
    using SO_map_closed [OF map] by auto
  have "view (machine w') = view (machine w)"
    using j(2,3) by (simp add: w' SO_delete_view j(5,6) fun_upd_idem)
  then show ?thesis
    using j sz by (simp add: w')
qed

lemma free_run:
  "vnames (view (machine (freeSharedMemoryInternal B key w))) key = None"
  "sharedObjectList (freeSharedMemoryInternal B key w) key = None"
  by (simp_all add: freeSharedMemoryInternal_def keyInMap_def erase_object_def SO_static_freeSharedMemory_def remove_name
      Let_def split: option.split)

text \<open>After a \<open>SIGBUS\<close> the temporary mapping of the validation stays: R's error jumps over its destructor.\<close>

lemma validate_RError:
  assumes "validate_shared_memory B key h os = (Inl (RError msg), os')"
  shows "\<exists>r j. vregions (view os) r = None \<and> vhandles (view os) h = Some j \<and>
    view os' = (view os)\<lparr>vregions := (vregions (view os))(r \<mapsto> j)\<rparr>"
proof -
  obtain r where "region_new B h os = (Inr r, os')"
    using assms
    by (auto simp: validate_shared_memory_def Let_def exec_simps split: prod.splits sum.splits if_splits option.splits)
  then show ?thesis
    using region_ok by blast
qed

end

end
