(* ===== verification/VectorTypes.thy ===== *)
theory VectorTypes
  imports VectorMemory
begin

text \<open>
  The types of R objects: what a shared vector, a regular vector and a serialized state promise of
  their class, length and size, and rules that follow a type through the calls of
  \<open>NumericAltrep\<close>. A call has to return a typed value whatever the state is.
\<close>

section \<open>Typed objects\<close>

definition info_typed :: "data_info \<Rightarrow> bool" where
  "info_typed info \<longleftrightarrow> (\<exists>ts. getTypeSize (info_dataType info) = Inr ts \<and> info_totalSize info = info_length info * ts)"

definition vector_typed :: "int \<Rightarrow> shared_vector \<Rightarrow> bool" where
  "vector_typed type v \<longleftrightarrow> info_typed (sv_info v) \<and> info_dataType (sv_info v) = type \<and>
     getAltClass type = Inr (sv_class v) \<and> sv_tag v = info_dataId (sv_info v)"

definition regular_typed :: "int \<Rightarrow> regular_vector \<Rightarrow> bool" where
  "regular_typed type r \<longleftrightarrow> rv_type r = type \<and>
     (\<exists>ts. getTypeSize type = Inr ts \<and> of_nat (length (rv_bytes r)) = rv_length r * ts)"

fun robj_typed :: "int \<Rightarrow> robj \<Rightarrow> bool" where
  "robj_typed type (Shared v) = vector_typed type v"
| "robj_typed type (Regular r) = regular_typed type r"
| "robj_typed type Nil_object = False"

fun serial_typed :: "int \<Rightarrow> serial \<Rightarrow> bool" where
  "serial_typed type (Serial_info info) = (info_typed info \<and> info_dataType info = type)"
| "serial_typed type (Serial_data r) = regular_typed type r"

lemma vector_typedD:
  assumes "vector_typed type v"
  shows "class_type (sv_class v) = type" and "info_dataType (sv_info v) = type"
    and "\<exists>ts. getTypeSize type = Inr ts \<and> info_totalSize (sv_info v) = info_length (sv_info v) * ts"
  using assms getAltClass_type by (auto simp: vector_typed_def info_typed_def)

section \<open>Calls that return a value with a property\<close>

definition yields :: "('s, 'a) exec \<Rightarrow> ('a \<Rightarrow> bool) \<Rightarrow> bool" where
  "yields m Q \<longleftrightarrow> (\<forall>s x s'. m s = (Inr x, s') \<longrightarrow> Q x)"

lemma yieldsI: "(\<And>s x s'. m s = (Inr x, s') \<Longrightarrow> Q x) \<Longrightarrow> yields m Q"
  unfolding yields_def by blast

lemma yieldsD: "yields m Q \<Longrightarrow> m s = (Inr x, s') \<Longrightarrow> Q x"
  unfolding yields_def by blast

lemma yields_ok: "Q x \<Longrightarrow> yields (ok x) Q"
  by (simp add: yields_def ok_run)

lemma yields_fail: "yields (fail e) Q"
  by (simp add: yields_def fail_run)

lemma yields_of_sum: "(\<And>x. r = Inr x \<Longrightarrow> Q x) \<Longrightarrow> yields (of_sum r) Q"
  by (simp add: yields_def of_sum_run)

lemma yields_andThen:
  assumes "yields m P" and "\<And>x. P x \<Longrightarrow> yields (f x) Q"
  shows "yields (andThen m f) Q"
  using assms unfolding yields_def by (blast elim: andThen_InrE)

lemma yields_andThen_any: "(\<And>x. yields (f x) Q) \<Longrightarrow> yields (andThen m f) Q"
  by (rule yields_andThen [where P = "\<lambda>_. True"]) (simp_all add: yields_def)

lemma yields_bind_sum: "(\<And>x. r = Inr x \<Longrightarrow> yields (f x) Q) \<Longrightarrow> yields (andThen (of_sum r) f) Q"
  by (auto simp: yields_def andThen_run of_sum_run split: sum.splits)

lemma yields_catch:
  assumes "yields m Q" and "\<And>what. yields (h what) Q"
  shows "yields (catchCpp m h) Q"
  using assms by (fastforce simp: yields_def catchCpp_run split: prod.splits sum.splits so_error.splits)

lemma yields_if: "(b \<Longrightarrow> yields m Q) \<Longrightarrow> (\<not> b \<Longrightarrow> yields m' Q) \<Longrightarrow> yields (if b then m else m') Q"
  by simp

lemma yields_weaken: "yields m P \<Longrightarrow> (\<And>x. P x \<Longrightarrow> Q x) \<Longrightarrow> yields m Q"
  by (simp add: yields_def)

section \<open>The calls of a shared vector\<close>

lemma yields_createEmpty:
  "yields (createEmptySharedObject B type len cow sub cp a) (\<lambda>v. vector_typed type v \<and> info_length (sv_info v) = len)"
  unfolding createEmptySharedObject_def Let_def
  by (intro yields_bind_sum yields_andThen_any yields_ok) (auto simp: vector_typed_def info_typed_def)

lemma yields_createFromSource:
  "yields (createSharedObjectFromSource B x cow sub cp a)
     (\<lambda>v. vector_typed (src_type x) v \<and> info_length (sv_info v) = src_length x)"
  unfolding createSharedObjectFromSource_def
  by (intro yields_bind_sum yields_andThen [OF yields_createEmpty] yields_andThen_any yields_ok)

lemma yields_read:
  "info_typed info \<Longrightarrow> yields (readSharedObject B info) (vector_typed (info_dataType info))"
  unfolding readSharedObject_def
  by (intro yields_andThen_any yields_bind_sum yields_ok) (simp add: vector_typed_def)

context shm_os
begin

lemma yields_load: "yields (load_mem B p n) (\<lambda>bs. length bs = n)"
proof (rule yieldsI)
  fix w :: "('os, 'z) world_scheme" and bs w'
  assume "load_mem B p n w = (Inr bs, w')"
  moreover obtain r off where "p = Ptr r off"
    by (cases p)
  ultimately show "length bs = n"
    using load_Some [of r off n "machine w" bs] by (auto simp: load_mem_def fail_run split: option.splits)
qed

lemma yields_copy_to_regular:
  assumes "getTypeSize type = Inr ts" and "n = len * ts"
  shows "yields (copy_to_regular B type len p n a) (regular_typed type)"
  unfolding copy_to_regular_def
  by (intro yields_bind_sum yields_if yields_fail yields_andThen [OF yields_load] yields_ok)
    (simp add: regular_typed_def assms)

lemma yields_subset_bytes: "yields (subset_bytes B p indx ts is) (\<lambda>bs. length bs = length is * unat ts)"
proof (induction "is")
  case Nil
  then show ?case
    by (simp add: yields_ok)
next
  case (Cons i "is")
  have "yields (subset_element B p indx ts i) (\<lambda>bs. length bs = unat ts)"
    unfolding subset_element_def by (intro yields_bind_sum yields_load)
  then show ?case
    unfolding subset_bytes.simps
    by (rule yields_andThen, intro yields_andThen [OF Cons.IH] yields_ok) simp
qed

lemma yields_unshare:
  assumes "vector_typed type v"
  shows "yields (unshare B v a) (regular_typed type)"
proof -
  obtain ts where ts: "getTypeSize type = Inr ts"
    using vector_typedD(3) [OF assms] by blast
  show ?thesis
    unfolding unshare_def Let_def vector_typedD(1) [OF assms] getObjectSize_def ts sum.case
  proof (rule yields_bind_sum)
    fix n :: u64
    assume "Inr (ts * info_length (sv_info v)) = Inr n"
    then have "n = info_length (sv_info v) * ts"
      by (metis sum.inject(2) mult.commute)
    then show "yields (copy_to_regular B type (info_length (sv_info v)) (sv_address v) n a) (regular_typed type)"
      by (rule yields_copy_to_regular [OF ts])
  qed
qed

lemma yields_duplicate:
  assumes "vector_typed type v"
  shows "yields (sharedVector_duplicate B v deep) (robj_typed type)"
proof -
  obtain ts where ts: "getTypeSize type = Inr ts" "info_totalSize (sv_info v) = info_length (sv_info v) * ts"
    using vector_typedD(3) [OF assms] by blast
  have shared: "yields (createSharedObjectFromSource B (source_of_shared v) cow sub cp a) (vector_typed type)" for cow sub cp a
    by (rule yields_weaken [OF yields_createFromSource]) (simp add: source_of_shared_def vector_typedD(1) [OF assms])
  have regular: "yields (copy_to_regular B (class_type (sv_class v)) (sharedVector_length v) p (info_totalSize (sv_info v)) a)
      (regular_typed type)" for p a
    using yields_copy_to_regular [OF ts(1), of "info_totalSize (sv_info v)" "info_length (sv_info v)"] ts(2)
    by (simp add: vector_typedD(1) [OF assms] sharedVector_length_def)
  have reread: "yields (readSharedObject B (sv_info v)) (vector_typed type)"
    using yields_read [of "sv_info v"] assms by (simp add: vector_typed_def)
  show ?thesis
    unfolding sharedVector_duplicate_def Let_def
    by (intro yields_if yields_andThen [OF shared] yields_andThen [OF regular] yields_andThen [OF reread] yields_ok) simp_all
qed

lemma yields_subset:
  assumes "vector_typed type v"
  shows "yields (sharedVector_subset B v indx) (robj_typed type)"
proof -
  have shared: "yields (createEmptySharedObject B type len cow sub cp a) (vector_typed type)" for len cow sub cp a
    by (rule yields_weaken [OF yields_createEmpty]) simp
  have bytes: "yields (subset_bytes B p indx ts [0..<n]) (\<lambda>bs. length bs = n * unat ts)" for p ts n
    using yields_subset_bytes [of p indx ts "[0..<n]"] by simp
  show ?thesis
    unfolding sharedVector_subset_def Let_def vector_typedD(1) [OF assms]
  proof (intro yields_if)
    show "yields (andThen (createEmptySharedObject B type (of_nat (index_length indx)) (info_copyOnWrite (sv_info v))
        (info_sharedSubset (sv_info v)) (info_sharedCopy (sv_info v)) R_NilValue)
      (\<lambda>subVector. andThen (of_sum (getTypeSize type)) (\<lambda>typeSize.
         andThen (forEach [0..<index_length indx] (\<lambda>i.
             andThen (subset_element B (ptr_add (sv_address v) (- int (unat typeSize))) indx typeSize i)
               (\<lambda>bs. store_mem B (ptr_add (sv_address subVector) (int (i * unat typeSize))) bs)))
           (\<lambda>_. ok (Shared subVector))))) (robj_typed type)"
      by (intro yields_andThen [OF shared] yields_andThen_any yields_ok) simp
    show "yields (andThen (of_sum (getTypeSize type)) (\<lambda>typeSize.
        andThen (subset_bytes B (ptr_add (sv_address v) (- int (unat typeSize))) indx typeSize [0..<index_length indx])
          (\<lambda>bytes. ok (Regular \<lparr>rv_type = type, rv_length = of_nat (index_length indx), rv_bytes = bytes,
             rv_attributes = R_NilValue\<rparr>)))) (robj_typed type)"
      by (intro yields_bind_sum yields_andThen [OF bytes] yields_ok) (simp add: regular_typed_def)
  qed
qed

lemma yields_serialize:
  assumes "vector_typed type v"
  shows "yields (sharedVector_serialized_state B v) (serial_typed type)"
proof -
  have "info_typed (sv_info v)"
    using assms by (simp add: vector_typed_def)
  then show ?thesis
    unfolding sharedVector_serialized_state_def Let_def
    by (auto intro!: yields_andThen_any yields_ok yields_andThen [OF yields_unshare [OF assms]] simp: vector_typedD(2) [OF assms])
qed

end

text \<open>The value of a failed unserialization is \<open>NULL\<close>.\<close>

lemma yields_unserialize:
  assumes "serial_typed type s"
  shows "yields (sharedVector_unserialize B s) (\<lambda>y. y = Nil_object \<or> robj_typed type y)"
proof (cases s)
  case (Serial_info info)
  then have "info_typed info" "info_dataType info = type"
    using assms by simp_all
  then show ?thesis
    unfolding sharedVector_unserialize_def Serial_info serial.case
    using yields_read [of info B]
    by (intro yields_catch yields_andThen [where P = "vector_typed type"] yields_andThen_any yields_ok) auto
next
  case (Serial_data r)
  then show ?thesis
    using assms unfolding sharedVector_unserialize_def by (auto intro!: yields_andThen_any yields_ok)
qed

end
