(* ===== verification/VectorProps.thy ===== *)
theory VectorProps
  imports Example RegistryFacts VectorTypes
begin

text \<open>
  The properties of shared vectors: creation, reading in another process, writes, duplication,
  serialization and subsets.
\<close>

section \<open>Creating, reading, writing\<close>

text \<open>
  C12. \<open>createEmptySharedObject\<close> makes a vector on a segment of its own that no other vector shows,
  filled with zeros when the memory is validated, and changes the bytes of no other vector; the registry
  stays consistent with the shared memory.
\<close>

theorem createEmpty_fresh:
  assumes "shm_os_live B view" and "registry_ok w" and "in_sync view w" and "getTypeSize type = Inr ts"
    and "createEmptySharedObject B type len cow sub cp a w = (Inr v, w')"
  shows "\<exists>j bs. new_vector view w w' v type len j bs \<and> registry_ok w' \<and> in_sync view w' \<and>
    ((\<forall>os. signal_ok B os) \<longrightarrow> vector_bytes view w' v = Some (replicate (unat (len * ts)) 0)) \<and>
    (\<forall>x i. vector_object view w x = Some i \<longrightarrow> \<not> counter_object view w i \<longrightarrow>
       i \<noteq> j \<and> vector_bytes view w' x = vector_bytes view w x)"
proof -
  obtain j bs where new: "new_vector view w w' v type len j bs"
    and zero: "(\<forall>os. signal_ok B os) \<longrightarrow> bs = replicate (length bs) 0"
    using shm_os_live.createEmpty_Inr [OF assms(1,5,2,3)] by blast
  have total: "info_totalSize (sv_info v) = len * ts"
    using new assms(4) by (auto simp: new_vector_def)
  have le: "unat (len * ts) \<le> length bs"
    using new_vector_bytes(3) [OF new] by (simp add: total)
  have "vector_bytes view w' v = Some (replicate (unat (len * ts)) 0)" if "\<forall>os. signal_ok B os"
  proof -
    have "bs = replicate (length bs) 0"
      using zero that by blast
    then have "take (unat (len * ts)) bs = replicate (unat (len * ts)) 0"
      using le by (metis min.absorb1 take_replicate)
    then show ?thesis
      using new_vector_bytes(2) [OF new] by (simp add: total)
  qed
  then show ?thesis
    using new new_vector_registry [OF new assms(2)] new_vector_in_sync [OF new assms(3)]
      new_vector_keeps [OF new] by blast
qed

theorem createEmpty_fresh_witness:
  "\<exists>v w'. createEmptySharedObject posix_boost INTSXP 3 True False False R_NilValue demo1 = (Inr v, w') \<and>
     vector_bytes posix_view w' v = Some (replicate 12 0)"
proof -
  obtain v w' where run: "createEmptySharedObject posix_boost INTSXP 3 True False False R_NilValue demo1 = (Inr v, w')"
    using demo_empty_run by blast
  have "getTypeSize INTSXP = Inr 4" "\<forall>os. signal_ok posix_boost os"
    by (simp_all add: getTypeSize_def)
  then show ?thesis
    using createEmpty_fresh [OF posix_live demo1_ok(1,2) _ run, of 4] run by auto
qed

text \<open>
  C13. Round trip: unsharing a vector created from a source gives back the type, the length and the
  bytes of the source, and leaves the session as it is. The bytes of a source are those at its data pointer; a
  source without one must be an integer vector or deliver its elements in one batch (\<open>source_bytes\<close>), since
  the other types are misplaced by \<open>copyData\<close> from the second batch on (C32).
\<close>

theorem create_unshare:
  assumes "shm_os_live B view" and "registry_ok w" and "in_sync view w"
    and "getObjectSize (src_type x) (src_length x) = Inr n" and "source_bytes view w x (unat n) xs"
    and "createSharedObjectFromSource B x cow sub cp a w = (Inr v, w')"
  shows "unshare B v a' w' =
    (Inr \<lparr>rv_type = src_type x, rv_length = src_length x, rv_bytes = xs, rv_attributes = a'\<rparr>, w')"
proof -
  obtain w1 j bs where new: "new_vector view w w1 v (src_type x) (src_length x) j bs"
    and bytes: "vector_bytes view w' v = Some xs"
    using shm_os_live.createFromSource_Inr [OF assms(1,6,2-5)] by blast
  have "class_type (sv_class v) = src_type x" "info_length (sv_info v) = src_length x"
    using new by (auto simp: new_vector_def)
  then show ?thesis
    using shm_os.unshare_run [OF shm_os_live.axioms(1) [OF assms(1)] bytes new_vector_wf [OF new]] by simp
qed

theorem create_unshare_witness:
  "unshare posix_boost demo_vector R_NilValue demo2 =
     (Inr \<lparr>rv_type = INTSXP, rv_length = 3, rv_bytes = demo_bytes, rv_attributes = R_NilValue\<rparr>, demo2)"
  using create_unshare [OF posix_live demo1_ok(1,2) demo_source_size _ demo2_create, of demo_bytes R_NilValue]
    demo_source_bytes [of True] by (simp add: demo_source_def)

text \<open>
  C14. Another process that reads the data information of a vector maps the same object and sees the
  same bytes; the first process still sees them too.
\<close>

theorem read_elsewhere:
  fixes w u :: "'os session"
  assumes "shm_os B view" and "vector_object view w v = Some j" and "vector_bytes view w v = Some bs"
    and "vnames (view (machine w)) (getKey (info_dataId (sv_info v))) = Some j"
    and "machine u = machine w" and "registry_ok u" and "unopened u (getKey (info_dataId (sv_info v)))"
    and "readSharedObject B (sv_info v) u = (Inr v', u')"
  shows "vector_object view u' v' = Some j \<and> vector_bytes view u' v' = Some bs \<and>
    vector_object view (w\<lparr>machine := machine u'\<rparr>) v = Some j \<and>
    vector_bytes view (w\<lparr>machine := machine u'\<rparr>) v = Some bs"
proof -
  obtain j' where read: "vnames (view (machine u)) (getKey (info_dataId (sv_info v))) = Some j'"
    "vector_object view u' v' = Some j'" "ptr_off (sv_address v') = 0" "sv_info v' = sv_info v"
    "vobjs (view (machine u')) = vobjs (view (machine u))"
    "\<And>r i. vregions (view (machine u)) r = Some i \<Longrightarrow> vregions (view (machine u')) r = Some i"
    by (rule shm_os.read_new [OF assms(1,8,6,7)]) blast
  have j': "j' = j"
    using read(1) assms(4,5) by simp
  have obj: "vector_object view (w\<lparr>machine := machine u'\<rparr>) v = Some j"
    using assms(2,5) read(6) by (simp add: vector_object_def)
  show ?thesis
    using assms(2,3,5) read(2-5) obj by (auto simp: vector_bytes_def j' Let_def split: if_splits)
qed

theorem read_elsewhere_witness:
  "vector_bytes posix_view demo_other1 demo_other_vector = Some demo_bytes"
  using read_elsewhere [OF posix_shm_os demo2_shows(2,1) _ demo_other_ok(3,1) _ demo_other_read] demo_other_ok(2)
  by simp

text \<open>
  C15. A write through the data pointer of one vector is seen by every vector on the same object, in
  the same process or in another, and by no vector on another object.
\<close>

theorem write_visible:
  fixes w u :: "'os session"
  assumes "shm_os B view" and "vector_bytes view w v = Some bs" and "off + length xs \<le> length bs"
    and "vector_object view w v = Some j" and "machine u = machine w" and "vector_object view u v' = Some j"
    and "ptr_off (sv_address v') = 0" and "info_totalSize (sv_info v') = info_totalSize (sv_info v)"
  shows "\<exists>w'. store_mem B (ptr_add (sharedVector_dataptr v True) (int off)) xs w = (Inr (), w') \<and>
    vector_bytes view w' v = Some (blit off xs bs) \<and>
    vector_bytes view (u\<lparr>machine := machine w'\<rparr>) v' = Some (blit off xs bs) \<and>
    (\<forall>x. vector_object view w x \<noteq> Some j \<longrightarrow> vector_bytes view w' x = vector_bytes view w x)"
proof -
  obtain w' where w': "store_mem B (ptr_add (sv_address v) (int off)) xs w = (Inr (), w')"
    "vector_bytes view w' v = Some (blit off xs bs)" "writes_object view w w' j"
    by (rule shm_os.store_vector [OF assms(1-4)])
  have "vector_object view w' v = Some j"
    using writes_object_vector [OF w'(3)] assms(4) by simp
  moreover have "vector_object view (u\<lparr>machine := machine w'\<rparr>) v' = Some j"
    using w'(3) assms(5,6) by (simp add: writes_object_def vector_object_def)
  ultimately have "vector_bytes view (u\<lparr>machine := machine w'\<rparr>) v' = Some (blit off xs bs)"
    using w'(2) assms(7,8) by (auto simp: vector_bytes_def Let_def split: if_splits)
  then show ?thesis
    using w' writes_object_other [OF w'(3)] by (auto simp: sharedVector_dataptr_def)
qed

theorem write_visible_witness:
  "\<exists>w'. store_mem posix_boost (ptr_add (sharedVector_dataptr demo_vector True) (int 4)) [9] demo2 = (Inr (), w') \<and>
     vector_bytes posix_view (demo2\<lparr>machine := machine w'\<rparr>) demo_vector = Some (blit 4 [9] demo_bytes)"
  using write_visible [OF posix_shm_os demo2_shows(1), of 4 "[9]" 1 demo2 demo_vector] demo2_shows(2)
  by (auto simp: demo_bytes_def)

section \<open>Duplicating\<close>

text \<open>
  With copy-on-write and without shared copies, a duplicate is a regular vector of the same type,
  length and bytes, and nothing else happens.
\<close>

theorem duplicate_regular_copy:
  assumes "shm_os B view" and "vector_bytes view w v = Some bs" and "vector_wf v"
    and "info_copyOnWrite (sv_info v)" and "\<not> info_sharedCopy (sv_info v)"
  shows "sharedVector_duplicate B v deep w = (Inr (Regular \<lparr>rv_type = class_type (sv_class v),
    rv_length = info_length (sv_info v), rv_bytes = bs, rv_attributes = R_NilValue\<rparr>), w)"
  using assms by (rule shm_os.duplicate_regular)

theorem duplicate_regular_copy_witness:
  "sharedVector_duplicate posix_boost demo_vector True demo2 =
     (Inr (Regular \<lparr>rv_type = INTSXP, rv_length = 3, rv_bytes = demo_bytes, rv_attributes = R_NilValue\<rparr>), demo2)"
  using duplicate_regular_copy [OF posix_shm_os demo2_shows(1) demo_vector_wf] by simp

text \<open>
  C18. With copy-on-write and shared copies, a duplicate is a shared vector with the same bytes on an
  object of its own, so that a later write through either is not seen through the other.
\<close>

theorem duplicate_shared_copy:
  assumes "shm_os_live B view" and "sharedVector_duplicate B v deep w = (Inr y, w')" and "registry_ok w" and "in_sync view w"
    and "vector_bytes view w v = Some bs" and "vector_wf v" and "vector_object view w v = Some i" and "\<not> counter_object view w i"
    and "info_copyOnWrite (sv_info v)" and "info_sharedCopy (sv_info v)"
  shows "\<exists>v' j. y = Shared v' \<and> vector_bytes view w' v' = Some bs \<and> vector_bytes view w' v = Some bs \<and>
    vector_object view w' v' = Some j \<and> vector_object view w' v = Some i \<and> j \<noteq> i"
  using assms(1,2,3-10) by (rule shm_os_live.duplicate_shared)

theorem duplicate_shared_copy_witness:
  "\<exists>v' w' j. sharedVector_duplicate posix_boost (with_flags True False True demo_vector) True demo2 = (Inr (Shared v'), w') \<and>
     vector_bytes posix_view w' v' = Some demo_bytes \<and> vector_object posix_view w' v' = Some j \<and> j \<noteq> 1"
proof -
  obtain y w' where run: "sharedVector_duplicate posix_boost (with_flags True False True demo_vector) True demo2 = (Inr y, w')"
    using demo_duplicate_run by blast
  show ?thesis
    using duplicate_shared_copy [OF posix_live run demo2_shows(3,4), of demo_bytes 1] demo2_shows(1,2) demo_vector_wf
      demo2_not_counter run by auto
qed

text \<open>
  Without copy-on-write, a duplicate is the same memory: it has the address and the data
  information of the vector, and no memory is touched.
\<close>

theorem duplicate_same_memory:
  assumes "sharedVector_duplicate B v deep w = (Inr y, w')" and "counted w"
    and "mapped_at w (getKey (info_dataId (sv_info v))) = Some (sv_address v)" and "\<not> info_copyOnWrite (sv_info v)"
  shows "\<exists>v'. y = Shared v' \<and> sv_address v' = sv_address v \<and> sv_info v' = sv_info v \<and> machine w' = machine w"
  using assms by (rule duplicate_same)

theorem duplicate_same_memory_witness:
  "\<exists>v' w'. sharedVector_duplicate posix_boost (with_flags False False True demo_vector) True demo2 = (Inr (Shared v'), w') \<and>
     sv_address v' = Ptr 1 0 \<and> machine w' = machine demo2"
proof -
  obtain y w' where run: "sharedVector_duplicate posix_boost (with_flags False False True demo_vector) True demo2 = (Inr y, w')"
    using demo_duplicate_run by blast
  show ?thesis
    using duplicate_same_memory [OF run demo2_counted] demo2_mapped run by auto
qed

section \<open>Types\<close>

text \<open>
  C16. Types are kept: whatever the state, every vector the package creates has the ALTREP class, the data
  information and the size of its type, and duplicates, subsets, unshared copies and unserialized states of
  a vector are vectors of its type with as many bytes as their length says; only a failed
  unserialization is \<open>NULL\<close>.
\<close>

theorem results_typed:
  assumes "shm_os B view" and "vector_typed type v" and "serial_typed type state"
  shows "yields (createEmptySharedObject B t len cow sub cp a) (vector_typed t) \<and>
    yields (createSharedObjectFromSource B x cow sub cp a) (vector_typed (src_type x)) \<and>
    yields (sharedVector_duplicate B v deep) (robj_typed type) \<and>
    yields (sharedVector_subset B v indx) (robj_typed type) \<and>
    yields (unshare B v a) (regular_typed type) \<and>
    yields (sharedVector_serialized_state B v) (serial_typed type) \<and>
    yields (sharedVector_unserialize B state) (\<lambda>y. y = Nil_object \<or> robj_typed type y)"
  using yields_weaken [OF yields_createEmpty] yields_weaken [OF yields_createFromSource]
    shm_os.yields_duplicate [OF assms(1,2)] shm_os.yields_subset [OF assms(1,2)] shm_os.yields_unshare [OF assms(1,2)]
    shm_os.yields_serialize [OF assms(1,2)] yields_unserialize [OF assms(3)]
  by metis

theorem results_typed_witness:
  "\<exists>y w'. sharedVector_duplicate posix_boost (with_flags True False True demo_vector) True demo2 = (Inr y, w') \<and> robj_typed INTSXP y"
proof -
  obtain y w' where run: "sharedVector_duplicate posix_boost (with_flags True False True demo_vector) True demo2 = (Inr y, w')"
    using demo_duplicate_run by blast
  have v: "vector_typed INTSXP (with_flags True False True demo_vector)"
    by (simp add: vector_typed_def info_typed_def with_flags_def demo_vector_def getTypeSize_def getAltClass_def sexp_types)
  have state: "serial_typed INTSXP (Serial_info (sv_info demo_vector))"
    by (simp add: info_typed_def demo_vector_def getTypeSize_def sexp_types)
  have "yields (sharedVector_duplicate posix_boost (with_flags True False True demo_vector) True) (robj_typed INTSXP)"
    by (rule results_typed [OF posix_shm_os v state, THEN conjunct2, THEN conjunct2, THEN conjunct1])
  then have "robj_typed INTSXP y"
    using run by (rule yieldsD)
  then show ?thesis
    using run by blast
qed

section \<open>Serializing\<close>

text \<open>
  C19. Round trip through serialization while the segment exists: the data information travels, and
  a process on the same machine that unserializes it gets a vector on the same object with the same
  bytes, or \<open>NULL\<close> when the mapping fails.
\<close>

theorem serialize_unserialize:
  fixes w u :: "'os session"
  assumes "shm_os_live B view" and "vector_object view w v = Some j" and "vector_bytes view w v = Some bs"
    and "vnames (view (machine w)) (getKey (info_dataId (sv_info v))) = Some j"
    and "sharedVector_serialized_state B v w = (Inr s, w1)" and "machine u = machine w1"
    and "registry_ok u" and "unopened u (getKey (info_dataId (sv_info v)))"
    and "sharedVector_unserialize B s u = (Inr y, u')"
  shows "s = Serial_info (sv_info v) \<and>
    (y = Nil_object \<or> (\<exists>v'. y = Shared v' \<and> vector_object view u' v' = Some j \<and> vector_bytes view u' v' = Some bs))"
proof -
  obtain m where "sharedVector_serialized_state B v w = (Inr (Serial_info (sv_info v)), w\<lparr>machine := m\<rparr>)"
    and m: "view m = view (machine w)"
    using shm_os_live.serialize_live [OF assms(1), of w v] assms(4) by auto
  then have s: "s = Serial_info (sv_info v)" and w1: "w1 = w\<lparr>machine := m\<rparr>"
    using assms(5) by simp_all
  have seen: "vector_object view w1 v = Some j" "vector_bytes view w1 v = Some bs"
    "vnames (view (machine w1)) (getKey (info_dataId (sv_info v))) = Some j"
    using assms(2-4) vector_bytes_view [of view w1 w v] m by (simp_all add: w1)
  have "\<exists>v'. y = Shared v' \<and> vector_object view u' v' = Some j \<and> vector_bytes view u' v' = Some bs" if "y \<noteq> Nil_object"
  proof -
    have "andThen (readSharedObject B (sv_info v)) (\<lambda>result. ok (Shared result)) u = (Inr y, u')"
      using assms(9) that
      by (auto simp: s sharedVector_unserialize_def catchCpp_run andThen_run warn_def ok_run
          split: prod.splits sum.splits so_error.splits)
    then obtain v' where "readSharedObject B (sv_info v) u = (Inr v', u')" "y = Shared v'"
      by (auto simp: ok_run elim!: andThen_InrE)
    note read = this
    obtain j' where j': "vnames (view (machine u)) (getKey (info_dataId (sv_info v))) = Some j'"
      "vector_object view u' v' = Some j'" "ptr_off (sv_address v') = 0" "sv_info v' = sv_info v"
      "vobjs (view (machine u')) = vobjs (view (machine u))"
      by (rule shm_os.read_new [OF shm_os_live.axioms(1) [OF assms(1)] read(1) assms(7,8)]) blast
    then have "j' = j"
      using seen(3) assms(6) by simp
    then show ?thesis
      using j' seen(1,2) assms(6) read(2) by (auto simp: vector_bytes_def Let_def split: if_splits)
  qed
  then show ?thesis
    using s by blast
qed

theorem serialize_unserialize_witness:
  "\<exists>w1 u' v'. sharedVector_serialized_state posix_boost demo_vector demo2 = (Inr (Serial_info (sv_info demo_vector)), w1) \<and>
     sharedVector_unserialize posix_boost (Serial_info (sv_info demo_vector)) (session_init (machine w1)) = (Inr (Shared v'), u') \<and>
     vector_bytes posix_view u' v' = Some demo_bytes"
proof -
  obtain v0 where v0: "demo_travel = Inr (Shared v0)"
    using demo_travel_run by blast
  obtain s w1 where s: "sharedVector_serialized_state posix_boost demo_vector demo2 = (Inr s, w1)"
    and "fst (sharedVector_unserialize posix_boost s (session_init (machine w1))) = Inr (Shared v0)"
    using v0 by (auto simp: demo_travel_def split: prod.splits sum.splits)
  then obtain u' where u': "sharedVector_unserialize posix_boost s (session_init (machine w1)) = (Inr (Shared v0), u')"
    by (metis prod.collapse)
  have "registry_ok (session_init (machine w1))" "unopened (session_init (machine w1)) key"
    "machine (session_init (machine w1)) = machine w1" for key
    by (simp_all add: session_init_def world_init_def world.defs registry_ok_def unopened_def)
  from serialize_unserialize [OF posix_live demo2_shows(2,1) _ s this(3,1) _ u'] this(2) show ?thesis
    using s u' by auto
qed

text \<open>
  When the segment has been unlinked, the state is a regular vector with the bytes, and one
  warning is given.
\<close>

theorem serialize_released:
  assumes "shm_os_live B view" and "vnames (view (machine w)) (getKey (info_dataId (sv_info v))) = None"
    and "vector_bytes view w v = Some bs" and "vector_wf v"
  shows "\<exists>msg w'. sharedVector_serialized_state B v w = (Inr (Serial_data \<lparr>rv_type = class_type (sv_class v),
      rv_length = info_length (sv_info v), rv_bytes = bs, rv_attributes = R_NilValue\<rparr>), w') \<and>
    warnings w' = warnings w @ [msg] \<and> view (machine w') = view (machine w)"
  using assms by (rule shm_os_live.serialize_dead)

theorem serialize_released_witness:
  "\<exists>m w'. sharedVector_serialized_state posix_boost demo_vector (demo2\<lparr>machine := m\<rparr>) =
     (Inr (Serial_data \<lparr>rv_type = INTSXP, rv_length = 3, rv_bytes = demo_bytes, rv_attributes = R_NilValue\<rparr>), w')"
proof -
  obtain m where view: "posix_view m = (posix_view (machine demo2))\<lparr>vnames := (vnames (posix_view (machine demo2)))(getKey ''1'' := None)\<rparr>"
    using shm_os.remove_name [OF posix_shm_os, of "getKey ''1''" "machine demo2"] by blast
  have "vector_bytes posix_view (demo2\<lparr>machine := m\<rparr>) demo_vector = Some demo_bytes"
    using demo2_shows(1) by (simp add: vector_bytes_Some view del: posix_view_simps)
  from serialize_released [OF posix_live _ this demo_vector_wf] show ?thesis
    by (fastforce simp: view simp del: posix_view_simps)
qed

text \<open>
  Unserializing the data information of a segment that does not exist is not an error: it gives
  \<open>NULL\<close>, one warning and no external pointer, but an object of size 0 stays in the registry.
\<close>

theorem unserialize_missing:
  assumes "shm_os B view" and "vnames (view (machine w)) (getKey (info_dataId info)) = None"
    and "sharedObjectList w (getKey (info_dataId info)) = None"
  shows "\<exists>msg w'. sharedVector_unserialize B (Serial_info info) w = (Inr Nil_object, w') \<and>
    warnings w' = warnings w @ [msg] \<and> extptrs w' = extptrs w \<and> view (machine w') = view (machine w) \<and>
    sharedObjectList w' = (sharedObjectList w)
      (getKey (info_dataId info) \<mapsto> SharedObjectClass_new (getKey (info_dataId info)) 0)"
proof -
  let ?key = "getKey (info_dataId info)"
  obtain msg m where "mapSharedMemoryInternal B ?key w = (Inl (CppError msg),
      w\<lparr>machine := m, sharedObjectList := (sharedObjectList w)(?key \<mapsto> SharedObjectClass_new ?key 0),
        mapCounter := (mapCounter w)(?key \<mapsto> 0)\<rparr>)" and "view m = view (machine w)"
    using shm_os.map_missing [OF assms] by blast
  then show ?thesis
    by (simp add: sharedVector_unserialize_def readSharedObject_def mapSharedMemory_def catchCpp_run andThen_run warn_def ok_run)
qed

theorem unserialize_missing_witness:
  "\<exists>w'. sharedVector_unserialize posix_boost (Serial_info (sv_info demo_vector)) demo0 = (Inr Nil_object, w')"
  using unserialize_missing [OF posix_shm_os, of demo0 "sv_info demo_vector"] by (fastforce simp: posix_init_def)

section \<open>Subsets\<close>



text \<open>
  C22. With shared subsets the result is a shared vector on a new object with the bytes of the selected
  elements (for any index, integer or double, that selects elements of the vector).
\<close>

theorem subset_selects_shared:
  assumes "shm_os_live B view" and "sharedVector_subset B v indx w = (Inr y, w')" and "registry_ok w" and "in_sync view w"
    and "vector_bytes view w v = Some bs" and "vector_object view w v = Some i0" and "\<not> counter_object view w i0"
    and "getTypeSize (class_type (sv_class v)) = Inr ts" and "selects indx ts n f" and "n * unat ts \<le> length bs"
    and "info_sharedSubset (sv_info v)" and "index_length indx * unat ts < 2 ^ 64"
  shows "\<exists>v' w1 j bs1. y = Shared v' \<and> new_vector view w w1 v' (class_type (sv_class v)) (of_nat (index_length indx)) j bs1 \<and>
    writes_object view w1 w' j \<and>
    vector_bytes view w' v' = Some (concat (map (\<lambda>i. element bs ts (f i)) [0..<index_length indx]))"
  using assms(1,2,3-12) by (rule shm_os_live.subset_shared)

theorem subset_selects_shared_witness:
  "\<exists>v' w'. sharedVector_subset posix_boost (with_flags True True False demo_vector) (Int_index [3, 1, 1]) demo2 = (Inr (Shared v'), w') \<and>
     vector_bytes posix_view w' v' = Some [3, 0, 0, 0, 1, 0, 0, 0, 1, 0, 0, 0]"
proof -
  obtain y w' where run: "sharedVector_subset posix_boost (with_flags True True False demo_vector) (Int_index [3, 1, 1]) demo2 = (Inr y, w')"
    using demo_subset_run by blast
  have sel: "selects (Int_index [3, 1, 1]) 4 3 (\<lambda>i. nat (sint ([3, 1, 1 :: i32] ! i)))"
    by (rule selects_Int) auto
  have ts: "getTypeSize (class_type (sv_class (with_flags True True False demo_vector))) = Inr 4"
    by (simp add: getTypeSize_def)
  have "\<exists>v' w1 j bs1. y = Shared v' \<and>
      new_vector posix_view demo2 w1 v' INTSXP (of_nat (index_length (Int_index [3, 1, 1]))) j bs1 \<and>
      writes_object posix_view w1 w' j \<and> vector_bytes posix_view w' v' = Some (concat (map
        (\<lambda>i. element demo_bytes 4 (nat (sint ([3, 1, 1 :: i32] ! i)))) [0..<index_length (Int_index [3, 1, 1])]))"
    using subset_selects_shared [OF posix_live run demo2_shows(3,4) _ _ demo2_not_counter ts sel, of demo_bytes] demo2_shows(1,2)
    by (simp add: demo_bytes_def)
  then show ?thesis
    using run by (auto simp: element_def slice_def demo_bytes_def)
qed

text \<open>
  C23. The product of an index and the size of an element is computed in \<open>int\<close>: the first valid index
  whose product reaches \<open>2 ^ 31\<close> makes the behaviour undefined.
\<close>

theorem subset_index_overflow:
  assumes "shm_os B view" and "vector_bytes view w v = Some bs" and "getTypeSize (class_type (sv_class v)) = Inr ts"
    and "n * unat ts \<le> length bs" and "\<not> info_sharedSubset (sv_info v)"
    and "\<And>y. y \<in> set pre \<Longrightarrow> 1 \<le> sint y \<and> sint y \<le> int n \<and> sint y * int (unat ts) < 2 ^ 31"
    and "2 ^ 31 \<le> sint x * int (unat ts)"
  shows "sharedVector_subset B v (Int_index (pre @ x # rest)) w = (Inl (Undefined ''int overflow''), w)"
  using shm_os.subset_bytes_fails [OF assms(1,2,4) refl assms(6,7), where k = 0 and rest = rest] assms(3,5)
  by (simp add: sharedVector_subset_def Let_def of_sum_run andThen_run del: upt_Suc)

theorem subset_index_overflow_witness:
  "sharedVector_subset posix_boost demo_vector (Int_index [2, 536870912]) demo2 = (Inl (Undefined ''int overflow''), demo2)"
proof -
  have "1 \<le> sint x \<and> sint x \<le> int 3 \<and> sint x * int (unat (4 :: u64)) < 2 ^ 31" if "x \<in> set [2 :: i32]" for x
    using that by auto
  then show ?thesis
    using subset_index_overflow [OF posix_shm_os demo2_shows(1), where ts = 4 and n = 3 and pre = "[2]" and x = 536870912
        and rest = "[]"]
    by (simp add: getTypeSize_def demo_bytes_def)
qed

section \<open>Copying without a data pointer\<close>

text \<open>
  C31. \<open>copyData\<close> of an integer vector writes the whole vector, whatever batches it is delivered in, and
  writes nothing else.
\<close>

theorem copyData_integers:
  assumes "shm_os B view" and "regions_of 4 bytes regions" and "vregions (view os) r = Some j"
    and "length bytes \<le> length (vobjs (view os) j)"
  shows "\<exists>os'. copyData B (Ptr r 0) INTSXP regions os = (Inr (), os') \<and>
    view os' = (view os)\<lparr>vobjs := (vobjs (view os))(j := bytes @ drop (length bytes) (vobjs (view os) j))\<rparr>"
  using shm_os.copy_regions_at_index [OF assms(1-3), of 0 0] assms(4) by (simp add: copyData_def sexp_types blit_def)

theorem copyData_integers_witness:
  "\<exists>os'. copyData posix_boost (Ptr 1 0) INTSXP [(1, [9, 9, 9, 9]), (2, [8, 8, 8, 8, 7, 7, 7, 7])] (machine demo2) = (Inr (), os')"
proof -
  have bs: "regions_of 4 [9, 9, 9, 9, 8, 8, 8, 8, 7, 7, 7, 7] [(1, [9, 9, 9, 9]), (2, [8, 8, 8, 8, 7, 7, 7, 7])]"
    by (simp add: regions_of_def)
  have "vregions (posix_view (machine demo2)) 1 = Some 1" "12 \<le> length (vobjs (posix_view (machine demo2)) 1)"
    using demo2_shows(1,2) by (auto simp: vector_bytes_Some vector_object_def)
  from copyData_integers [OF posix_shm_os bs this(1)] this(2) show ?thesis
    by auto
qed

text \<open>
  C32. For every other type the second batch goes to element \<open>n1 * n2\<close> instead of element \<open>n1\<close>: with more
  than one element in it, it is written beyond a segment of the size of the vector.
\<close>

theorem copyData_batches:
  assumes "shm_os B view" and "getTypeSize type = Inr ts" and "type \<noteq> INTSXP" and "0 < n1" and "1 < n2"
    and "length b1 = n1 * unat ts" and "length b2 = n2 * unat ts"
    and "vregions (view os) r = Some j" and "length (vobjs (view os) j) = (n1 + n2) * unat ts"
  shows "\<exists>os'. copyData B (Ptr r 0) type [(n1, b1), (n2, b2)] os = (Inl (Undefined ''memcpy''), os')"
  using assms by (rule shm_os.copyData_second_batch)

theorem copyData_batches_witness:
  "\<exists>os'. copyData posix_boost (Ptr 1 0) LGLSXP [(1, [9, 9, 9, 9]), (2, [8, 8, 8, 8, 7, 7, 7, 7])] (machine demo2) =
     (Inl (Undefined ''memcpy''), os')"
proof -
  have "length (vobjs (posix_view (machine demo2)) 1) = 12"
    by code_simp
  moreover have "vregions (posix_view (machine demo2)) 1 = Some 1"
    using demo2_shows(2) by (simp add: vector_object_def)
  ultimately show ?thesis
    using copyData_batches [OF posix_shm_os, of LGLSXP 4 1 2 "[9, 9, 9, 9]" "[8, 8, 8, 8, 7, 7, 7, 7]" "machine demo2" 1 1]
    by (simp add: getTypeSize_def sexp_types)
qed

end
