(* ===== verification/StringProps.thy ===== *)
theory StringProps
  imports Example
begin

text \<open>The properties of shared strings.\<close>

section \<open>Creating and reading\<close>

text \<open>
  C24. Round trip: unsharing a shared string created from a character vector gives back the strings,
  and leaves the session as it is.
\<close>

theorem string_create_unshare:
  assumes "shm_os_live B view" and "registry_ok w" and "in_sync view w"
    and "unit_size (length (find_unique x)) * length x < 2 ^ 64"
    and "createSharedStringFromSource B x cow a w = (Inr s, w')"
  shows "unshareString B s a' w' = (Inr \<lparr>rs_strings = x, rs_attributes = a'\<rparr>, w')"
proof -
  have "string_shows view w' s x"
    using shm_os_live.createString_Inr [OF assms(1,5,2-4)] by simp
  then show ?thesis
    by (rule shm_os.unshareString_run [OF shm_os_live.axioms(1) [OF assms(1)]])
qed

theorem string_create_unshare_witness:
  "\<exists>s w'. createSharedStringFromSource posix_boost demo_strings True R_NilValue demo1 = (Inr s, w') \<and>
     unshareString posix_boost s R_NilValue w' = (Inr \<lparr>rs_strings = demo_strings, rs_attributes = R_NilValue\<rparr>, w')"
proof -
  obtain s w' where run: "createSharedStringFromSource posix_boost demo_strings True R_NilValue demo1 = (Inr s, w')"
    using demo_string_run by blast
  have "length (find_unique demo_strings) = 3"
    by (simp add: find_unique_length demo_strings_def card_insert_if numeral_3_eq_3)
  then have "unit_size (length (find_unique demo_strings)) * length demo_strings < 2 ^ 64"
    using unit_size_closed [of 3] by (simp add: demo_strings_def)
  from string_create_unshare [OF posix_live demo1_ok(1,2) this run] show ?thesis
    using run by blast
qed



text \<open>
  C26. The size of a unit, computed through logarithms, is the smallest of 1, 2, 4 and 8 bytes whose
  range covers the number of unique strings: every index fits, for any number of strings.
\<close>

theorem unit_size_smallest:
  assumes "n \<le> 2 ^ 64"
  shows "unit_size n = (if n \<le> 2 ^ 8 then 1 else if n \<le> 2 ^ 16 then 2 else if n \<le> 2 ^ 32 then 4 else 8) \<and>
    n \<le> 256 ^ unit_size n"
proof
  show "unit_size n = (if n \<le> 2 ^ 8 then 1 else if n \<le> 2 ^ 16 then 2 else if n \<le> 2 ^ 32 then 4 else 8)"
    by (subst unit_size_closed) (use assms in simp)
  show "n \<le> 256 ^ unit_size n"
    by (rule unit_size_fits)
qed

theorem unit_size_smallest_witness: "unit_size 257 = 2"
  using unit_size_smallest [of 257] by simp

section \<open>Writing\<close>



text \<open>
  C28. With units of 2, 4 or 8 bytes the same store goes to byte \<open>i\<close> instead of unit \<open>i\<close>: for \<open>i > 0\<close> it
  succeeds and element \<open>i\<close> keeps its old value.
\<close>

theorem set_elt_wide_lost:
  assumes "shm_os B view" and "string_shows view w s x" and "str_unitSize (ss_info s) \<noteq> 1" and "0 < i" and "i < length x"
    and "v \<in> set (STR_DATA_CHARSET (string_lists w ! ss_data s))"
    and "STR_DATA_STRVEC (string_lists w ! ss_data s) = None"
  shows "\<exists>w'. sharedString_set_elt B s i v w = (Inr (), w') \<and> sharedString_elt B s i w' = (Inr (Some (x ! i)), w')"
  using assms by (rule shm_os.set_elt_wide)

theorem set_elt_wide_lost_witness:
  "\<exists>w'. sharedString_set_elt posix_boost (demo_word 4) 2 40 (demo_words None) = (Inr (), w') \<and>
     sharedString_elt posix_boost (demo_word 4) 2 w' = (Inr (Some 43), w')"
  using set_elt_wide_lost [OF posix_shm_os demo_words_show(2) [of None], of 2 40] by simp

text \<open>
  A string whose regular vector is cached ignores a successful store: reading the element gives the
  cached value.
\<close>

theorem set_elt_cache_wins:
  assumes "shm_os B view" and "string_shows view w s x" and "i < length x"
    and "STR_DATA_STRVEC (string_lists w ! ss_data s) = Some c" and "i < length c"
    and "v \<in> set (STR_DATA_CHARSET (string_lists w ! ss_data s))"
  shows "\<exists>w'. sharedString_set_elt B s i v w = (Inr (), w') \<and> sharedString_elt B s i w' = (Inr (Some (c ! i)), w')"
  using assms by (rule shm_os.set_elt_cached)

theorem set_elt_cache_wins_witness:
  "\<exists>w'. sharedString_set_elt posix_boost (demo_word 1) 1 43 (demo_words (Some demo_text)) = (Inr (), w') \<and>
     sharedString_elt posix_boost (demo_word 1) 1 w' = (Inr (Some 40), w')"
  using set_elt_cache_wins [OF posix_shm_os demo_words_show(1) [of "Some demo_text"], of 1 demo_text 43]
  by (auto simp: demo_text_def)

section \<open>The data pointer and serialization\<close>

text \<open>
  The data pointer of a shared string is a regular vector of its strings; it is made once and
  cached, and the string still stands for the same strings.
\<close>

theorem string_data_pointer:
  assumes "shm_os B view" and "string_shows view w s x"
    and "STR_DATA_STRVEC (string_lists w ! ss_data s) \<in> {None, Some x}"
  shows "\<exists>w'. sharedString_dataptr B s wr w = (Inr x, w') \<and> string_shows view w' s x \<and>
    sharedString_dataptr_or_null s w' = (Inr (Some x), w') \<and> machine w' = machine w"
proof (cases "STR_DATA_STRVEC (string_lists w ! ss_data s)")
  case None
  let ?d = "(string_lists w ! ss_data s)\<lparr>STR_DATA_STRVEC := Some x\<rparr>"
  let ?w = "w\<lparr>string_lists := (string_lists w)[ss_data s := ?d]\<rparr>"
  have "sharedString_dataptr B s wr w = (Inr x, ?w)"
    using None shm_os.get_string_list_run [OF assms(1,2)] shm_os.unshareString_run [OF assms(1,2)]
    by (simp add: sharedString_dataptr_def andThen_run set_string_list_def ok_run)
  moreover have shown: "string_shows view ?w s x"
    by (rule shm_os.string_shows_cache [OF assms(1,2) refl])
  moreover have "ss_data s < length (string_lists w)"
    using assms(2) by (auto simp: string_shows_def)
  then have "sharedString_dataptr_or_null s ?w = (Inr (Some x), ?w)"
    using shm_os.get_string_list_run [OF assms(1) shown]
    by (simp add: sharedString_dataptr_or_null_def andThen_run ok_run)
  ultimately show ?thesis
    by fastforce
next
  case (Some c)
  then show ?thesis
    using assms(2,3) shm_os.get_string_list_run [OF assms(1,2)]
    by (simp add: sharedString_dataptr_def sharedString_dataptr_or_null_def andThen_run ok_run)
qed

theorem string_data_pointer_witness:
  "\<exists>w'. sharedString_dataptr posix_boost (demo_word 4) True (demo_words None) = (Inr [41, 42, 43], w')"
  using string_data_pointer [OF posix_shm_os demo_words_show(2) [of None]] by fastforce

text \<open>
  C30. Round trip through the serialized state: the new string stands for the same strings, without a
  cached vector and on a list of its own.
\<close>

theorem string_serialize_unserialize:
  assumes "shm_os B view" and "string_shows view w s x"
  shows "\<exists>state s' w'. sharedString_serialized_state s w = (Inr state, w) \<and>
    sharedString_unserialize state w = (Inr (Shared_string s'), w') \<and> string_shows view w' s' x \<and>
    STR_DATA_STRVEC (string_lists w' ! ss_data s') = None \<and> ss_data s' \<noteq> ss_data s"
proof -
  let ?d = "(string_lists w ! ss_data s)\<lparr>STR_DATA_STRVEC := None\<rparr>"
  let ?w = "w\<lparr>string_lists := string_lists w @ [?d]\<rparr>"
  let ?s = "\<lparr>ss_class = shared_string_class, ss_data = length (string_lists w), ss_info = ss_info s, ss_attributes = R_NilValue\<rparr>"
  have d: "STR_DATA_INDEX (string_lists w ! ss_data s) \<noteq> Nil_object" "ss_data s < length (string_lists w)"
    using assms(2) by (auto simp: string_shows_def)
  have "sharedString_serialized_state s w = (Inr (?d, ss_info s), w)"
    using shm_os.get_string_list_run [OF assms] by (simp add: sharedString_serialized_state_def andThen_run ok_run)
  moreover have "sharedString_unserialize (?d, ss_info s) w = (Inr (Shared_string ?s), ?w)"
    using d(1)
    by (simp add: sharedString_unserialize_def andThen_run of_sum_run getAltClass_def sexp_types new_string_list_def ok_run)
  moreover have "string_shows view ?w ?s x"
    by (rule shm_os.string_shows_copy [OF assms refl]) simp_all
  ultimately show ?thesis
    using d(2) by fastforce
qed

theorem string_serialize_unserialize_witness:
  "\<exists>s' w'. sharedString_unserialize ((demo_lists (Some demo_text))\<lparr>STR_DATA_STRVEC := None\<rparr>, ss_info (demo_word 1))
     (demo_words (Some demo_text)) = (Inr (Shared_string s'), w') \<and> string_shows posix_view w' s' demo_text"
proof -
  obtain state s' w' where st: "sharedString_serialized_state (demo_word 1) (demo_words (Some demo_text)) = (Inr state, demo_words (Some demo_text))"
    "sharedString_unserialize state (demo_words (Some demo_text)) = (Inr (Shared_string s'), w')"
    "string_shows posix_view w' s' demo_text"
    using string_serialize_unserialize [OF posix_shm_os demo_words_show(1) [of "Some demo_text"]] by blast
  have "state = ((demo_lists (Some demo_text))\<lparr>STR_DATA_STRVEC := None\<rparr>, ss_info (demo_word 1))"
    using st(1) by (simp add: sharedString_serialized_state_def get_string_list_def andThen_run ok_run)
  then show ?thesis
    using st(2,3) by blast
qed

end
