(* ===== verification/ObjectMachine.thy ===== *)
theory ObjectMachine
  imports SharedObjectClass
begin

text \<open>
  The contract of one shared memory object as a state machine, and the proof that the methods of
  \<open>src/sharedObjectClass.cpp\<close> implement it. An object is closed, has a handle, or has a handle and a
  mapping; a call returns, throws a C++ exception, or leaves by R's long jump.
\<close>

section \<open>The contract\<close>

datatype so_phase = Closed | Opened | Mapped

datatype so_call = Allocate_call | Map_call | Unmap_call | Free_call

datatype outcome = Returns | Throws | Jumps

text \<open>
  The phases a call may leave the object in; no phase means that the outcome is impossible. A failed
  mapping keeps the handle it has opened; a failed validation of new memory jumps over the clean-up.
\<close>

fun so_next :: "so_call \<Rightarrow> outcome \<Rightarrow> so_phase \<Rightarrow> so_phase set" where
  "so_next Allocate_call Returns p = {if p = Closed then Opened else p}"
| "so_next Allocate_call Throws p = (if p = Closed then {Closed} else {})"
| "so_next Allocate_call Jumps p = (if p = Closed then {Opened} else {})"
| "so_next Map_call Returns p = {Mapped}"
| "so_next Map_call Throws p = (case p of Closed \<Rightarrow> {Closed, Opened} | Opened \<Rightarrow> {Opened} | Mapped \<Rightarrow> {})"
| "so_next Map_call Jumps p = {}"
| "so_next Unmap_call Returns p = {if p = Mapped then Opened else p}"
| "so_next Free_call Returns p = {Closed}"
| "so_next call result p = {}"

section \<open>The implementation\<close>

definition phase :: "shared_object \<Rightarrow> so_phase" where
  "phase so = (if mappedRegionHandle so \<noteq> None then Mapped else if sharedMemoryHandle so \<noteq> None then Opened else Closed)"

fun outcome_of :: "so_error + 'a \<Rightarrow> outcome" where
  "outcome_of (Inr x) = Returns"
| "outcome_of (Inl (CppError what)) = Throws"
| "outcome_of (Inl e) = Jumps"

definition implements :: "so_call \<Rightarrow> outcome \<Rightarrow> shared_object \<Rightarrow> shared_object \<Rightarrow> bool" where
  "implements call result so so' \<longleftrightarrow> so_inv so' \<and> phase so' \<in> so_next call result (phase so) \<and>
     so_key so' = so_key so \<and> ownData so' = ownData so"

lemma phase_new: "phase (SharedObjectClass_new key n) = Closed"
  by (simp add: phase_def)

lemma phase_cong: "mappedRegionHandle so' = mappedRegionHandle so \<Longrightarrow> sharedMemoryHandle so' = sharedMemoryHandle so \<Longrightarrow>
    phase so' = phase so"
  by (simp add: phase_def)

lemma so_inv_closed: "so_inv so \<Longrightarrow> phase so = Closed \<longleftrightarrow> sharedMemoryHandle so = None"
  by (auto simp: so_inv_def phase_def)

text \<open>An allocation leaves by the long jump only with its handle open.\<close>

lemma SO_allocate_jumps:
  assumes "SO_allocateSharedMemory B (so, os) = (Inl e, so', os')" and "\<And>what. e \<noteq> CppError what"
  shows "sharedMemoryHandle so = None \<and> (\<exists>h. so' = so\<lparr>sharedMemoryHandle := Some h\<rparr>)"
proof -
  have none: "sharedMemoryHandle so = None"
    using assms(1) by (cases "sharedMemoryHandle so") (simp_all add: SO_allocate_has)
  obtain r so1 os1 where t: "SO_allocate_try B (so, os) = (r, so1, os1)"
    by (metis prod_cases3)
  have "\<exists>h. so1 = so\<lparr>sharedMemoryHandle := Some h\<rparr>" if "r = Inr u \<or> r = Inl e" for u
    using t that assms(2) by (auto simp: SO_allocate_try_def Let_def split: prod.splits sum.splits)
  then show ?thesis
    using assms none unfolding SO_allocate_run [OF none t]
    by (auto simp: SO_allocate_catch_run SO_refresh_size_def exec_simps split: sum.splits so_error.splits option.splits)
qed

lemma allocate_implements:
  assumes "so_inv so" and "SO_allocateSharedMemory B (so, os) = (r, so', os')"
  shows "implements Allocate_call (outcome_of r) so so'"
proof (cases r)
  case (Inr u)
  then show ?thesis
    using SO_allocate_Inr [of B so os u so' os'] assms by (auto simp: implements_def phase_def so_inv_def)
next
  case (Inl e)
  show ?thesis
  proof (cases "\<exists>what. e = CppError what")
    case True
    have "sharedMemoryHandle so = None"
      using assms(2) Inl by (cases "sharedMemoryHandle so") (simp_all add: SO_allocate_has)
    moreover have "so' = so"
      using SO_allocate_err [of B so os e so' os'] assms(2) Inl True by auto
    ultimately show ?thesis
      using True Inl assms(1) so_inv_closed [OF assms(1)] by (auto simp: implements_def)
  next
    case False
    then have "outcome_of r = Jumps"
      using Inl by (cases e) auto
    moreover obtain h where "sharedMemoryHandle so = None" "so' = so\<lparr>sharedMemoryHandle := Some h\<rparr>"
      using SO_allocate_jumps [of B so os e so' os'] assms(2) Inl False by auto
    ultimately show ?thesis
      using assms(1) by (auto simp: implements_def phase_def so_inv_def)
  qed
qed

lemma map_implements:
  assumes "so_inv so" and "SO_mapSharedMemory B (so, os) = (r, so', os')"
  shows "implements Map_call (outcome_of r) so so'"
proof (cases r)
  case (Inr p)
  then show ?thesis
    using SO_map_Inr [of B so os p so' os'] assms by (simp add: implements_def phase_def)
next
  case (Inl e)
  then obtain what where e: "e = CppError what" and so': "so_inv so'" "shared_ptr so = None" "mappedRegionHandle so' = None"
    "so_key so' = so_key so" "ownData so' = ownData so"
    using SO_map_Inl [of B so os e so' os'] assms by auto
  have "mappedRegionHandle so = None"
    using assms(1) so'(2) by (simp add: so_inv_def)
  moreover have "sharedMemoryHandle so' = sharedMemoryHandle so" if "sharedMemoryHandle so \<noteq> None"
    using assms(2) so'(2) calculation that
    by (auto simp: SO_mapSharedMemory_def SO_map_try_def so_has_defs freeMappedRegionHandle_def exec_simps
        split: prod.splits sum.splits so_error.splits option.splits)
  ultimately show ?thesis
    using so' by (auto simp: implements_def Inl e phase_def)
qed

lemma unmap_implements:
  assumes "so_inv so" and "SO_unmapSharedMemory B (so, os) = (so', os')"
  shows "implements Unmap_call Returns so so'"
  using assms by (auto simp: SO_unmapSharedMemory_def freeMappedRegionHandle_def implements_def phase_def so_inv_def)

lemma free_implements:
  assumes "so_inv so" and "SO_freeSharedMemory B (so, os) = (so', os')"
  shows "implements Free_call Returns so so'"
  using assms SO_free_object [of B so os] by (auto simp: implements_def phase_def so_inv_def)

end
