(* ===== verification/ManualMemory.thy ===== *)
theory ManualMemory
  imports PkgMemory VectorMemory RegistryFacts CInterface
begin

text \<open>
  Shared memory managed by hand, through the developer functions that R exports: allocating, mapping,
  unmapping and freeing one named segment. \<open>Session\<close> leaves these calls out, because R code takes over the
  counting of references; here is what the whole cycle does.
\<close>

text \<open>An open object without a mapping is mapped by its handle.\<close>

lemma SO_map_runs:
  assumes "so_inv so" and "sharedMemoryHandle so = Some h" and "mappedRegionHandle so = None"
    and "region_new B h os = (Inr r, os')"
  shows "SO_mapSharedMemory B (so, os) =
    (Inr (region_address r), so\<lparr>mappedRegionHandle := Some r, shared_ptr := Some (region_address r)\<rparr>, os')"
  using assms
  by (simp add: SO_mapSharedMemory_def SO_map_try_def so_inv_def hasSharedMemoryHandle_def catchCpp_run andThen_run)

lemma map_internal_runs:
  assumes "sharedObjectList w key = Some so" and "so_inv so" and "sharedMemoryHandle so = Some h"
    and "mappedRegionHandle so = None" and "region_new B h (machine w) = (Inr r, os')"
  shows "mapSharedMemoryInternal B key w = (Inr (region_address r),
    w\<lparr>machine := os', sharedObjectList := (sharedObjectList w)(key \<mapsto>
        so\<lparr>mappedRegionHandle := Some r, shared_ptr := Some (region_address r)\<rparr>),
      mapCounter := (mapCounter w)(key \<mapsto> counter_at w key + 1)\<rparr>)"
  using SO_map_runs [OF assms(2-5)] assms(1)
  by (simp add: mapSharedMemoryInternal_def on_object_def keyInMap_def andThen_run counter_at_def)

text \<open>Freeing a segment the process does not know unlinks its name.\<close>

lemma free_unknown:
  "sharedObjectList w key = None \<Longrightarrow> freeSharedMemoryInternal B key w = w\<lparr>machine := shm_remove B key (machine w)\<rparr>"
  by (simp add: freeSharedMemoryInternal_def keyInMap_def SO_static_freeSharedMemory_def)

context shm_os
begin

text \<open>Unmapping a segment that is mapped once, and that the process does not own.\<close>

lemma unmap_borrowed:
  assumes "sharedObjectList w key = Some so" and "counter_at w key = 1" and "registry_ok w" and "\<not> ownData so"
    and "sharedMemoryHandle so = Some h" and "mappedRegionHandle so = Some r"
  shows "view (machine (unmapSharedMemoryInternal B key w)) = (view (machine w))\<lparr>
      vhandles := (vhandles (view (machine w)))(h := None), vregions := (vregions (view (machine w)))(r := None)\<rparr>"
    and "sharedObjectList (unmapSharedMemoryInternal B key w) = (sharedObjectList w)(key := None)"
    and "counter_at (unmapSharedMemoryInternal B key w) = (counter_at w)(key := 0)"
proof -
  show "counter_at (unmapSharedMemoryInternal B key w) = (counter_at w)(key := 0)"
    using assms(2) by (simp add: unmap_internal_run [OF assms(1)] counter_at_def fun_eq_iff split: prod.split)
qed (simp_all add: unmap_last [OF assms(1-3)] assms(4-6))

end

text \<open>What the cycle promises, from the state \<open>w\<close> before and the state \<open>w1\<close> after the allocation.\<close>

definition mapped_by_hand ::
  "'os boost \<Rightarrow> ('os \<Rightarrow> shm_view) \<Rightarrow> string \<Rightarrow> u64 \<Rightarrow> 'os session \<Rightarrow> 'os session \<Rightarrow> ptr \<Rightarrow> bool" where
  "mapped_by_hand B view ident n w w2 p \<longleftrightarrow>
     (\<exists>j h r bs. p = Ptr r 0 \<and> new_segment view w w2 (getKey ident) h j r bs \<and> unat n \<le> length bs \<and>
        ((\<forall>os. signal_ok B os) \<longrightarrow> bs = replicate (length bs) 0)) \<and>
     fst (C_hasSharedMemory B ident w2) = Inr True \<and>
     (\<exists>size. C_getSharedMemorySize B ident w2 = (Inr size, w2) \<and> n \<le> size)"

definition unmapped_by_hand :: "'os boost \<Rightarrow> ('os \<Rightarrow> shm_view) \<Rightarrow> string \<Rightarrow> 'os session \<Rightarrow> 'os session \<Rightarrow> bool" where
  "unmapped_by_hand B view ident w w2 \<longleftrightarrow>
     (let w3 = C_unmapSharedMemory B ident w2 in
      view (machine w3) = (view (machine w2))\<lparr>vhandles := vhandles (view (machine w)),
        vregions := vregions (view (machine w))\<rparr> \<and>
      fst (C_hasSharedMemory B ident w3) = Inr True)"

definition freed_by_hand :: "'os boost \<Rightarrow> ('os \<Rightarrow> shm_view) \<Rightarrow> string \<Rightarrow> 'os session \<Rightarrow> 'os session \<Rightarrow> bool" where
  "freed_by_hand B view ident w w2 \<longleftrightarrow>
     (let w4 = C_freeSharedMemory B ident (C_unmapSharedMemory B ident w2) in
      view (machine w4) = (view (machine w))\<lparr>vobjs := vobjs (view (machine w2))\<rparr> \<and>
      sharedObjectList w4 = sharedObjectList w \<and> counter_at w4 = counter_at w \<and>
      fst (C_hasSharedMemory B ident w4) = Inr False)"

context shm_os_live
begin

lemma has_iff: "fst (hasSharedMemory B ident w) = Inr (vnames (view (machine w)) (getKey ident) \<noteq> None)"
  by (rule has_segment [of _ w ident, OF refl]) simp

lemma cycle_by_hand:
  assumes "C_allocateSharedMemory B n ident w = (Inr name, w1)" and "ident \<noteq> ''''" and "counted w"
    and "sharedObjectList w (getKey ident) = None"
  shows "name = ident \<and> (\<exists>p w2. C_mapSharedMemory B ident w1 = (Inr p, w2) \<and> mapped_by_hand B view ident n w w2 p \<and>
    unmapped_by_hand B view ident w w2 \<and> freed_by_hand B view ident w w2)"
proof -
  let ?k = "getKey ident"
  have al: "allocateSharedMemoryInternal B ?k n w = (Inr (), w1)" and name: "name = ident"
    using assms(1,2) by (auto simp: C_allocateSharedMemory_def allocateSharedMemory_def andThen_run ok_run split: prod.splits sum.splits)
  have zero: "counter_at w ?k = 0"
  proof -
    have "mapped_at w ?k = None"
      using assms(4) by (simp add: mapped_at_def)
    then show ?thesis
      using assms(3) by (force simp: counted_def dest!: spec [of _ ?k])
  qed
  have un: "unopened w ?k"
    using assms(4) by (simp add: unopened_def)
  obtain h j bs where names: "vnames (view (machine w)) ?k = None" and h: "vhandles (view (machine w)) h = None"
    and j: "unreferenced j (view (machine w))" and len: "unat n \<le> length bs" "0 < length bs" "length bs < max_object"
    and zeros: "(\<forall>os. signal_ok B os) \<longrightarrow> bs = replicate (length bs) 0"
    and v1: "view (machine w1) = (view (machine w))\<lparr>vnames := (vnames (view (machine w)))(?k \<mapsto> j),
      vobjs := (vobjs (view (machine w)))(j := bs), vhandles := (vhandles (view (machine w)))(h \<mapsto> j)\<rparr>"
    and w1: "w1 = w\<lparr>machine := machine w1, sharedObjectList := (sharedObjectList w)(?k \<mapsto>
      (requested_object w ?k n)\<lparr>sharedMemoryHandle := Some h, so_size := of_nat (length bs)\<rparr>)\<rparr>"
    by (rule allocate_internal_fresh [OF al counted_registry_ok [OF assms(3)] un])
  define so1 where "so1 = (SharedObjectClass_new ?k n)\<lparr>sharedMemoryHandle := Some h, so_size := of_nat (length bs)\<rparr>"
  have list1: "sharedObjectList w1 = (sharedObjectList w)(?k \<mapsto> so1)" and count1: "counter_at w1 = counter_at w"
    by (subst w1, simp add: so1_def requested_object_def assms(4) counter_at_def fun_eq_iff)+
  have so1: "so_inv so1" "sharedMemoryHandle so1 = Some h" "mappedRegionHandle so1 = None" "\<not> ownData so1" "so_key so1 = ?k"
    by (simp_all add: so1_def so_inv_def SharedObjectClass_new_def)
  obtain r m2 where new: "region_new B h (machine w1) = (Inr r, m2)"
    using region_live [of "machine w1" h j] len(2) by (auto simp: v1)
  define so2 where "so2 = so1\<lparr>mappedRegionHandle := Some r, shared_ptr := Some (region_address r)\<rparr>"
  define w2 where "w2 = w1\<lparr>machine := m2, sharedObjectList := (sharedObjectList w1)(?k \<mapsto> so2),
      mapCounter := (mapCounter w1)(?k \<mapsto> counter_at w1 ?k + 1)\<rparr>"
  have map: "C_mapSharedMemory B ident w1 = (Inr (region_address r), w2)"
    using map_internal_runs [of w1 ?k so1 h B r m2] so1 new
    by (simp add: C_mapSharedMemory_def mapSharedMemory_def list1 w2_def so2_def)
  have r: "vregions (view (machine w)) r = None"
    and v2: "view m2 = (view (machine w))\<lparr>vnames := (vnames (view (machine w)))(?k \<mapsto> j),
      vobjs := (vobjs (view (machine w)))(j := bs), vhandles := (vhandles (view (machine w)))(h \<mapsto> j),
      vregions := (vregions (view (machine w)))(r \<mapsto> j)\<rparr>"
    using region_ok [OF new] by (auto simp: v1)
  have m2: "machine w2 = m2" and list2: "sharedObjectList w2 = (sharedObjectList w)(?k \<mapsto> so2)"
    and count2: "counter_at w2 = (counter_at w)(?k := 1)"
    using count1 zero by (simp_all add: w2_def list1 counter_at_def fun_eq_iff)
  have so2: "sharedObjectList w2 ?k = Some so2" "\<not> ownData so2" "sharedMemoryHandle so2 = Some h"
    "mappedRegionHandle so2 = Some r" "so_inv so2" "so_key so2 = ?k" "so_size so2 = of_nat (length bs)"
    using so1 by (simp_all add: list2 so2_def so_inv_def so1_def)
  have reg2: "registry_ok w2"
    using counted_registry_ok [OF assms(3)] so2(5,6) by (simp add: registry_ok_def list2)
  define w3 where "w3 = C_unmapSharedMemory B ident w2"
  have v3: "view (machine w3) = (view m2)\<lparr>vhandles := (vhandles (view m2))(h := None), vregions := (vregions (view m2))(r := None)\<rparr>"
    and list3: "sharedObjectList w3 = (sharedObjectList w2)(?k := None)"
    and count3: "counter_at w3 = (counter_at w2)(?k := 0)"
    using unmap_borrowed [OF so2(1) _ reg2 so2(2-4)] count2
    by (simp_all add: w3_def C_unmapSharedMemory_def unmapSharedMemory_def m2)
  have w4: "C_freeSharedMemory B ident w3 = w3\<lparr>machine := shm_remove B ?k (machine w3)\<rparr>"
    by (simp add: C_freeSharedMemory_def freeSharedMemory_def free_unknown list3)
  have "n \<le> of_nat (length bs)"
    using len by (simp add: word_le_nat_alt unat_of_nat max_object_def)
  then have "mapped_by_hand B view ident n w w2 (region_address r)"
    using names h r j len(1) zeros getSize_registered [OF so2(1), of B]
    by (auto simp: mapped_by_hand_def new_segment_def m2 v2 C_hasSharedMemory_def has_iff C_getSharedMemorySize_def
        getSharedMemorySize_def so2(7) region_address_def)
  moreover have "unmapped_by_hand B view ident w w2"
    using h r by (simp add: unmapped_by_hand_def w3_def [symmetric] v3 m2 v2 C_hasSharedMemory_def has_iff fun_upd_idem)
  moreover have "freed_by_hand B view ident w w2"
    using h r names assms(4) zero
    by (simp add: freed_by_hand_def w3_def [symmetric] w4 remove_name v3 m2 v2 list3 list2 count3 count2
        C_hasSharedMemory_def has_iff fun_upd_idem)
  ultimately show ?thesis
    using name map by blast
qed

end

end
