(* ===== verification/RegistryProps.thy ===== *)
theory RegistryProps
  imports Example RegistryFacts CInterface ObjectMachine ManualMemory
begin

text \<open>
  The properties of the registry and of the shared data of the package: what failures leave behind,
  counters, queries, and the counter of ids.
\<close>

section \<open>Failures\<close>

text \<open>
  C11. One shared memory object implements its contract, the machine of closed, opened and mapped objects, in
  every outcome of every call: allocation, mapping, unmapping and freeing return, throw or jump out
  only as \<open>so_next\<close> allows, and keep the pointer, the mapping and the handle consistent.
\<close>

theorem so_implements:
  assumes "so_inv so"
  shows "(SO_allocateSharedMemory B (so, os) = (r, so1, os1) \<longrightarrow> implements Allocate_call (outcome_of r) so so1) \<and>
    (SO_mapSharedMemory B (so, os) = (p, so2, os2) \<longrightarrow> implements Map_call (outcome_of p) so so2) \<and>
    (SO_unmapSharedMemory B (so, os) = (so3, os3) \<longrightarrow> implements Unmap_call Returns so so3) \<and>
    (SO_freeSharedMemory B (so, os) = (so4, os4) \<longrightarrow> implements Free_call Returns so so4)"
  using allocate_implements [OF assms] map_implements [OF assms] unmap_implements [OF assms] free_implements [OF assms]
  by (intro conjI impI)

theorem so_implements_witness:
  "phase (fst (snd (SO_allocateSharedMemory posix_boost (SharedObjectClass_new ''k'' 4, posix_init)))) = Opened"
proof -
  obtain r so1 os1 where run: "SO_allocateSharedMemory posix_boost (SharedObjectClass_new ''k'' 4, posix_init) = (r, so1, os1)"
    by (metis prod_cases3)
  have "\<not> isl (fst (SO_allocateSharedMemory posix_boost (SharedObjectClass_new ''k'' 4, posix_init)))"
    by code_simp
  then obtain u where "r = Inr u"
    using run by (cases r) auto
  then have "implements Allocate_call Returns (SharedObjectClass_new ''k'' 4) so1"
    using so_implements [OF so_inv_new] run by fastforce
  then show ?thesis
    by (simp add: run implements_def phase_new)
qed

text \<open>
  C33. An allocation that throws leaves the object as it was, and neither a name, a handle nor a mapping
  behind: at most the bytes of an object nobody refers to.
\<close>

theorem allocate_throws_clean:
  assumes "shm_os B view" and "SO_allocateSharedMemory B (so, os) = (Inl (CppError what), so', os')"
  shows "so' = so \<and> (view os' = view os \<or>
    (\<exists>j bs. unreferenced j (view os) \<and> view os' = (view os)\<lparr>vobjs := (vobjs (view os))(j := bs)\<rparr>))"
  using assms by (rule shm_os.SO_allocate_Cpp)

text \<open>A machine with 4 bytes of free memory, and one where touching new memory raises \<open>SIGBUS\<close>.\<close>

definition posix_with :: "u64 \<Rightarrow> bool \<Rightarrow> posix boost" where
  "posix_with free sigbus = posix_boost\<lparr>stat_vfs := \<lambda>p s. Some (1, free), sigbus_on_touch := \<lambda>p n s. sigbus\<rparr>"

lemma posix_with_os: "shm_os (posix_with free sigbus) posix_view"
  using posix_shm_os by (simp add: shm_os_def posix_with_def)

definition demo_full :: "(so_error + unit) \<times> posix so_state" where
  "demo_full = SO_allocateSharedMemory (posix_with 4 False) (SharedObjectClass_new ''k'' 8, posix_init)"

theorem allocate_throws_clean_witness:
  "\<exists>what so' os'. demo_full = (Inl (CppError what), so', os') \<and> vnames (posix_view os') ''k'' = None"
proof -
  have "(case fst demo_full of Inl (CppError what) \<Rightarrow> True | _ \<Rightarrow> False)"
    by code_simp
  then obtain what where "fst demo_full = Inl (CppError what)"
    by (auto split: sum.splits so_error.splits)
  then obtain so' os' where run: "demo_full = (Inl (CppError what), so', os')"
    by (metis prod.collapse)
  then have "SO_allocateSharedMemory (posix_with 4 False) (SharedObjectClass_new ''k'' 8, posix_init) =
      (Inl (CppError what), so', os')"
    by (simp add: demo_full_def)
  from allocate_throws_clean [OF posix_with_os this] have "vnames (posix_view os') = vnames (posix_view posix_init)"
    by (auto simp del: posix_view_simps)
  then have "vnames (posix_view os') ''k'' = None"
    by (simp add: posix_init_def)
  then show ?thesis
    using run by blast
qed

text \<open>
  Allocating an id whose segment another process made throws, even when the segment is large
  enough, and leaves an object without a handle in the registry.
\<close>

theorem allocate_existing_throws:
  assumes "shm_os B view" and "vnames (view (machine w)) key \<noteq> None" and "sharedObjectList w key = None"
  shows "\<exists>msg m. allocateSharedMemoryInternal B key n w = (Inl (CppError msg),
      w\<lparr>machine := m, sharedObjectList := (sharedObjectList w)(key \<mapsto> SharedObjectClass_new key n)\<rparr>) \<and>
    view m = view (machine w)"
  using assms by (rule shm_os.allocate_existing)

theorem allocate_existing_throws_witness:
  "\<exists>msg w'. allocateSharedMemoryInternal posix_boost (getKey ''1'') 4 demo_other = (Inl (CppError msg), w')"
  using allocate_existing_throws [OF posix_shm_os, of demo_other "getKey ''1''" 4] demo_other_ok(2,3)
  by (fastforce simp: unopened_def demo_other_def session_init_def world_init_def world.defs)

text \<open>
  After a mapping that failed because the segment does not exist, the registry holds an object of
  size 0: the size query answers 0 instead of throwing, and any allocation of that id throws.
\<close>

theorem failed_map_remains:
  assumes "shm_os B view" and "vnames (view (machine w)) key = None" and "sharedObjectList w key = None" and "0 < n"
  shows "\<exists>what w'. mapSharedMemoryInternal B key w = (Inl (CppError what), w') \<and>
    getSharedMemorySizeInternal B key w' = (Inr 0, w') \<and>
    (\<exists>what'. allocateSharedMemoryInternal B key n w' = (Inl (CppError what'), w'))"
proof -
  obtain what m where map: "mapSharedMemoryInternal B key w = (Inl (CppError what),
      w\<lparr>machine := m, sharedObjectList := (sharedObjectList w)(key \<mapsto> SharedObjectClass_new key 0),
        mapCounter := (mapCounter w)(key \<mapsto> 0)\<rparr>)"
    using shm_os.map_missing [OF assms(1-3)] by blast
  let ?w = "w\<lparr>machine := m, sharedObjectList := (sharedObjectList w)(key \<mapsto> SharedObjectClass_new key 0),
        mapCounter := (mapCounter w)(key \<mapsto> 0)\<rparr>"
  have "getSharedMemorySizeInternal B key ?w = (Inr 0, ?w)"
    using getSize_registered [of ?w key "SharedObjectClass_new key 0" B] by (simp add: SharedObjectClass_new_def)
  moreover have "\<exists>what'. allocateSharedMemoryInternal B key n ?w = (Inl (CppError what'), ?w)"
    using allocate_too_small [of ?w key "SharedObjectClass_new key 0" n B] assms(4)
    by (simp add: SharedObjectClass_new_def)
  ultimately show ?thesis
    using map by blast
qed

theorem failed_map_remains_witness:
  "\<exists>what w'. mapSharedMemoryInternal posix_boost ''k'' demo0 = (Inl (CppError what), w') \<and>
     getSharedMemorySizeInternal posix_boost ''k'' w' = (Inr 0, w')"
  using failed_map_remains [OF posix_shm_os, of demo0 "''k''" 8] by (fastforce simp: posix_init_def)

section \<open>Counters\<close>

text \<open>
  C34. The counter of an id that is allocated, unmapped without having been mapped, and freed is \<open>-1\<close>, and
  allocating the id again does not reset it. Of two mappings taken afterwards (of the same memory, counted as
  one) the first one released takes the memory away from the other.
\<close>

theorem early_unmap:
  assumes "sharedObjectList w key = None" and "counter_at w key = 0"
    and "allocateSharedMemoryInternal B key n w = (Inr (), w1)"
    and "allocateSharedMemoryInternal B key n'
      (freeSharedMemoryInternal B key (unmapSharedMemoryInternal B key w1)) = (Inr (), w2)"
    and "mapSharedMemoryInternal B key w2 = (Inr p, w3)" and "mapSharedMemoryInternal B key w3 = (Inr q, w4)"
  shows "counter_at w2 key = - 1 \<and> q = p \<and> counter_at w4 key = 1 \<and> mapped_at w4 key = Some p \<and>
    mapped_at (unmapSharedMemoryInternal B key w4) key = None"
proof -
  let ?u = "unmapSharedMemoryInternal B key w1"
  obtain so where so: "sharedObjectList w1 key = Some so" "counter_at w1 key = 0"
    using allocate_object [OF assms(3,1)] assms(2) by auto
  have u: "counter_at ?u key = - 1" "sharedObjectList ?u key = None"
    using unmap_not_mapped [OF so] by auto
  then obtain so2 where so2: "sharedObjectList w2 key = Some so2" "so_inv so2" "counter_at w2 key = - 1"
    using allocate_object [OF assms(4)] by (auto simp: free_unknown)
  from map_twice [OF so2(1,2) assms(5,6)] show ?thesis
    using so2(3) unmap_at_zero [of w4 key B] by simp
qed

definition demo_key :: string where
  "demo_key = getKey ''x''"

text \<open>Allocated; unmapped, freed and allocated again; mapped once; mapped twice.\<close>

definition demo_early :: "nat \<Rightarrow> posix session" where
  "demo_early i =
     (let w1 = snd (allocateSharedMemoryInternal posix_boost demo_key 8 demo1);
          w2 = snd (allocateSharedMemoryInternal posix_boost demo_key 8
            (freeSharedMemoryInternal posix_boost demo_key (unmapSharedMemoryInternal posix_boost demo_key w1)));
          w3 = snd (mapSharedMemoryInternal posix_boost demo_key w2);
          w4 = snd (mapSharedMemoryInternal posix_boost demo_key w3)
      in [w1, w2, w3, w4] ! i)"

theorem early_unmap_witness:
  "\<exists>p. mapped_at (demo_early 3) demo_key = Some p \<and> counter_at (demo_early 3) demo_key = 1 \<and>
     mapped_at (unmapSharedMemoryInternal posix_boost demo_key (demo_early 3)) demo_key = None"
proof -
  let ?again = "freeSharedMemoryInternal posix_boost demo_key (unmapSharedMemoryInternal posix_boost demo_key (demo_early 0))"
  have "\<not> keyInMap (sharedObjectList demo1) demo_key" "counter_at demo1 demo_key = 0"
    "\<not> isl (fst (allocateSharedMemoryInternal posix_boost demo_key 8 demo1))"
    "\<not> isl (fst (allocateSharedMemoryInternal posix_boost demo_key 8 ?again))"
    "\<not> isl (fst (mapSharedMemoryInternal posix_boost demo_key (demo_early 1)))"
    "\<not> isl (fst (mapSharedMemoryInternal posix_boost demo_key (demo_early 2)))"
    by code_simp+
  note run = this
  have start: "sharedObjectList demo1 demo_key = None"
    using run(1) by (simp add: keyInMap_def)
  obtain p q where "allocateSharedMemoryInternal posix_boost demo_key 8 demo1 = (Inr (), demo_early 0)"
    "allocateSharedMemoryInternal posix_boost demo_key 8 ?again = (Inr (), demo_early 1)"
    "mapSharedMemoryInternal posix_boost demo_key (demo_early 1) = (Inr p, demo_early 2)"
    "mapSharedMemoryInternal posix_boost demo_key (demo_early 2) = (Inr q, demo_early 3)"
    using run_Inr [OF run(3)] run_Inr [OF run(4)] run_Inr [OF run(5)] run_Inr [OF run(6)] by (auto simp: demo_early_def Let_def)
  from early_unmap [OF start run(2) this] show ?thesis
    by blast
qed

section \<open>The counter of ids\<close>

text \<open>
  C35. \<open>initialPkgData\<close> of a fresh process keeps the registry consistent; when no other process has made the
  counter it is 0 afterwards, and otherwise the value it has is kept and no byte of the shared memory
  changes.
\<close>

theorem initial_counter:
  fixes w :: "('a, 'z) world_scheme"
  assumes "shm_os_live B view" and "initialPkgData B w = (Inr (), w')" and "lastId w = None" and "registry_ok w"
    and "in_sync view w" and "unopened w SHARED_OBJECT_COUNTER"
  shows "registry_ok w' \<and> in_sync view w' \<and>
    (case vnames (view (machine w)) SHARED_OBJECT_COUNTER of
       None \<Rightarrow> counter_is view w' 0
     | Some j \<Rightarrow> vnames (view (machine w')) = vnames (view (machine w)) \<and>
         vobjs (view (machine w')) = vobjs (view (machine w)) \<and> (\<exists>p. lastId w' = Some p \<and> counter_open view w' p j))"
  using assms by (rule shm_os_live.initialPkgData_counter)

theorem initial_counter_witness: "counter_is posix_view demo1 0"
proof -
  have "registry_ok demo0" "in_sync posix_view demo0" "unopened demo0 SHARED_OBJECT_COUNTER"
    "vnames (posix_view (machine demo0)) SHARED_OBJECT_COUNTER = None"
    by (simp_all add: registry_ok_def in_sync_def unopened_def posix_init_def)
  then show ?thesis
    using initial_counter [OF posix_live demo1_init] by simp
qed

section \<open>Validation\<close>

text \<open>
  When touching new memory raises \<open>SIGBUS\<close>, R's error jumps over the destructor of the temporary
  mapping: it stays, one mapping per attempt.
\<close>

theorem validate_leaks:
  assumes "shm_os B view" and "validate_shared_memory B key h os = (Inl (RError msg), os')"
  shows "\<exists>r j. vregions (view os) r = None \<and> vhandles (view os) h = Some j \<and>
    view os' = (view os)\<lparr>vregions := (vregions (view os))(r \<mapsto> j)\<rparr>"
  using assms by (rule shm_os.validate_RError)

definition demo_bus :: "(so_error + unit) \<times> posix" where
  "demo_bus = validate_shared_memory (posix_with 1000000 True) ''k'' 1 (machine demo2)"

theorem validate_leaks_witness:
  "\<exists>msg os' r. demo_bus = (Inl (RError msg), os') \<and> vregions (posix_view os') r \<noteq> None \<and>
     vregions (posix_view (machine demo2)) r = None"
proof -
  have "(case fst demo_bus of Inl (RError msg) \<Rightarrow> True | _ \<Rightarrow> False)"
    by code_simp
  then obtain msg where "fst demo_bus = Inl (RError msg)"
    by (auto split: sum.splits so_error.splits)
  then obtain os' where run: "demo_bus = (Inl (RError msg), os')"
    by (metis prod.collapse)
  from validate_leaks [OF posix_with_os run [unfolded demo_bus_def]] obtain r j where
    "vregions (posix_view (machine demo2)) r = None"
    "posix_view os' = (posix_view (machine demo2))\<lparr>vregions := (vregions (posix_view (machine demo2)))(r \<mapsto> j)\<rparr>"
    by blast
  then have "vregions (posix_view os') r \<noteq> None"
    by (simp del: posix_view_simps)
  then show ?thesis
    using run \<open>vregions (posix_view (machine demo2)) r = None\<close> by blast
qed

section \<open>The interface to R\<close>

text \<open>
  \<open>C_isShared\<close> follows the first slots of wrappers to the end of the chain: it answers true if and only
  if an object of the chain is an ALTREP object of a class of this package.
\<close>

theorem isShared_chain: "C_isShared x \<longleftrightarrow> (\<exists>y \<in> set (unwrap_chain x). is_shared_vector y)"
  by (rule C_isShared_chain)

section \<open>Shared memory managed by hand\<close>

text \<open>
  C36. The complete life of a segment managed by hand: when an unused id has been allocated, mapping it succeeds and
  gives a new mapping of a new object with at least the requested number of bytes, zeros when the memory is
  validated; the segment then exists and its size is at least the requested one. Unmapping gives the handle and
  the mapping back and keeps the name and the bytes; freeing takes the name away, and the process and the machine
  are as before, but for the object that nobody refers to.
\<close>

theorem lifecycle_by_hand:
  assumes "shm_os_live B view" and "counted w" and "sharedObjectList w (getKey ident) = None" and "ident \<noteq> ''''"
    and "C_allocateSharedMemory B n ident w = (Inr name, w1)"
  shows "name = ident \<and> (\<exists>p w2. C_mapSharedMemory B ident w1 = (Inr p, w2) \<and> mapped_by_hand B view ident n w w2 p \<and>
    unmapped_by_hand B view ident w w2 \<and> freed_by_hand B view ident w w2)"
  using shm_os_live.cycle_by_hand [OF assms(1,5,4,2,3)] .

theorem lifecycle_by_hand_witness:
  "\<exists>w1 p w2. C_allocateSharedMemory posix_boost 10 ''buf'' demo1 = (Inr ''buf'', w1) \<and>
     C_mapSharedMemory posix_boost ''buf'' w1 = (Inr p, w2) \<and> mapped_by_hand posix_boost posix_view ''buf'' 10 demo1 w2 p \<and>
     freed_by_hand posix_boost posix_view ''buf'' demo1 w2"
proof -
  have "fst (C_allocateSharedMemory posix_boost 10 ''buf'' demo1) = Inr ''buf''"
    by code_simp
  then obtain w1 where run: "C_allocateSharedMemory posix_boost 10 ''buf'' demo1 = (Inr ''buf'', w1)"
    by (metis prod.collapse)
  have "counted demo1"
    by (rule session_counted [OF session_reachable_ok [OF demo1_reachable]])
  moreover have "sharedObjectList demo1 (getKey ''buf'') = None"
    by code_simp
  ultimately show ?thesis
    using lifecycle_by_hand [OF posix_live _ _ _ run] run by auto
qed

end
