(* ===== verification/LockProps.thy ===== *)
theory LockProps
  imports ProcessLock
begin

text \<open>
  The properties of the process lock around \<open>initialPkgData\<close>: what it guarantees, that it is never
  given back, and that it does not exclude.
\<close>

section \<open>One semaphore\<close>

text \<open>
  In every reachable state of any number of processes that use the lock, at most one process holds
  each semaphore.
\<close>

theorem one_holder:
  assumes "named_semaphores B sview" and "lock_reachable B m0 (m, pcs)" and "sem_names (sview m0) SEMAPHORE_NAME = None"
    and "holds (pcs i) s" and "holds (pcs j) s"
  shows "i = j"
  using named_semaphores.lock_reachable_inv [OF assms(1-3)] assms(4,5) by (auto simp: lock_inv_def)

section \<open>A run of three processes\<close>

text \<open>
  Process 0 takes the lock; process 1 waits in vain and leaves, which removes the name; process 2 then
  makes a semaphore of its own.
\<close>

definition run_machine :: "nat \<Rightarrow> posix" where
  "run_machine i = posix_init\<lparr>
     p_sems := [[], [(0, 1)], [(0, 0), (0, 1)], [(0, 0), (0, 1)], [(1, 1), (0, 0), (0, 1)], [(1, 0), (1, 1), (0, 0), (0, 1)]] ! i,
     p_sem_names := [[], [(SEMAPHORE_NAME, 0)], [(SEMAPHORE_NAME, 0)], [], [(SEMAPHORE_NAME, 1)], [(SEMAPHORE_NAME, 1)]] ! i\<rparr>"

definition run_guard :: "nat \<Rightarrow> auto_semophore" where
  "run_guard s = \<lparr>semaphore = s, locked = False\<rparr>"

lemma run_calls:
  "guard_new posix_boost (run_machine 0) = (Inr (run_guard 0), run_machine 1)"
  "guard_lock posix_boost (run_guard 0) (run_machine 1) = ((run_guard 0, True), run_machine 2)"
  "guard_new posix_boost (run_machine 2) = (Inr (run_guard 0), run_machine 2)"
  "guard_lock posix_boost (run_guard 0) (run_machine 2) = ((run_guard 0, False), run_machine 2)"
  "guard_delete posix_boost (run_guard 0) (run_machine 2) = run_machine 3"
  "guard_new posix_boost (run_machine 3) = (Inr (run_guard 1), run_machine 4)"
  "guard_lock posix_boost (run_guard 1) (run_machine 4) = ((run_guard 1, True), run_machine 5)"
  by (simp_all add: guard_new_run guard_lock_run guard_delete_run run_machine_def run_guard_def posix_ops posix_init_def
      fresh_id_def drop_key_def numeral_eq_Suc)

definition run_pcs :: "nat \<Rightarrow> nat \<Rightarrow> lock_pc" where
  "run_pcs i = [(\<lambda>i. Outside), (\<lambda>i. Outside)(0 := Waiting (run_guard 0)), (\<lambda>i. Outside)(0 := Inside (run_guard 0) True),
     (\<lambda>i. Outside)(0 := Inside (run_guard 0) True, 1 := Waiting (run_guard 0)),
     (\<lambda>i. Outside)(0 := Inside (run_guard 0) True, 1 := Inside (run_guard 0) False),
     (\<lambda>i. Outside)(0 := Inside (run_guard 0) True, 1 := Outside),
     (\<lambda>i. Outside)(0 := Inside (run_guard 0) True, 1 := Outside, 2 := Waiting (run_guard 1)),
     (\<lambda>i. Outside)(0 := Inside (run_guard 0) True, 1 := Outside, 2 := Inside (run_guard 1) True)] ! i"

lemma run_steps:
  "lock_step posix_boost (run_machine 0, run_pcs 0) (run_machine 1, run_pcs 1)"
  "lock_step posix_boost (run_machine 1, run_pcs 1) (run_machine 2, run_pcs 2)"
  "lock_step posix_boost (run_machine 2, run_pcs 2) (run_machine 2, run_pcs 3)"
  "lock_step posix_boost (run_machine 2, run_pcs 3) (run_machine 2, run_pcs 4)"
  "lock_step posix_boost (run_machine 2, run_pcs 4) (run_machine 3, run_pcs 5)"
  "lock_step posix_boost (run_machine 3, run_pcs 5) (run_machine 4, run_pcs 6)"
  "lock_step posix_boost (run_machine 4, run_pcs 6) (run_machine 5, run_pcs 7)"
proof -
  note construct = lock_step.construct [where B = posix_boost] and lock = lock_step.lock [where B = posix_boost]
    and leave = lock_step.leave [where B = posix_boost]
  show "lock_step posix_boost (run_machine 0, run_pcs 0) (run_machine 1, run_pcs 1)"
    using construct [OF _ run_calls(1), of "run_pcs 0" 0] by (simp add: run_pcs_def)
  show "lock_step posix_boost (run_machine 1, run_pcs 1) (run_machine 2, run_pcs 2)"
    using lock [OF _ run_calls(2), of "run_pcs 1" 0] by (simp add: run_pcs_def)
  show "lock_step posix_boost (run_machine 2, run_pcs 2) (run_machine 2, run_pcs 3)"
    using construct [OF _ run_calls(3), of "run_pcs 2" 1] by (simp add: run_pcs_def numeral_eq_Suc)
  show "lock_step posix_boost (run_machine 2, run_pcs 3) (run_machine 2, run_pcs 4)"
    using lock [OF _ run_calls(4), of "run_pcs 3" 1] by (simp add: run_pcs_def numeral_eq_Suc)
  show "lock_step posix_boost (run_machine 2, run_pcs 4) (run_machine 3, run_pcs 5)"
    using leave [of "run_pcs 4" 1 "run_guard 0" False "run_machine 2"] run_calls(5)
    by (simp add: run_pcs_def numeral_eq_Suc)
  show "lock_step posix_boost (run_machine 3, run_pcs 5) (run_machine 4, run_pcs 6)"
    using construct [OF _ run_calls(6), of "run_pcs 5" 2] by (simp add: run_pcs_def numeral_eq_Suc)
  show "lock_step posix_boost (run_machine 4, run_pcs 6) (run_machine 5, run_pcs 7)"
    using lock [OF _ run_calls(7), of "run_pcs 6" 2] by (simp add: run_pcs_def numeral_eq_Suc)
qed

lemma run_reachable:
  "lock_reachable posix_boost posix_init (run_machine 2, run_pcs 2)"
  "lock_reachable posix_boost posix_init (run_machine 5, run_pcs 7)"
proof -
  have "lock_reachable posix_boost posix_init (run_machine 0, run_pcs 0)"
    using lock_reachable.start [of posix_boost posix_init] by (simp add: run_machine_def run_pcs_def posix_init_def)
  then show two: "lock_reachable posix_boost posix_init (run_machine 2, run_pcs 2)"
    using run_steps(1,2) lock_reachable.step by metis
  then show "lock_reachable posix_boost posix_init (run_machine 5, run_pcs 7)"
    using run_steps(3-7) lock_reachable.step by metis
qed

theorem one_holder_witness: "holds (run_pcs 2 0) 0 \<and> {j. holds (run_pcs 2 j) 0} = {0}"
proof -
  have zero: "holds (run_pcs 2 0) 0"
    by (simp add: run_pcs_def run_guard_def holds_def numeral_eq_Suc)
  have "sem_names (posix_sview posix_init) SEMAPHORE_NAME = None"
    by (simp add: posix_sview_def posix_init_def)
  from one_holder [OF posix_sems.named_semaphores_axioms run_reachable(1) this _ zero] show ?thesis
    using zero by blast
qed

section \<open>Never given back\<close>

text \<open>
  C37. Once a process has taken a semaphore it is never given back: in every later state its count is 0,
  even after the holder has left, and every \<open>lock\<close> on it times out.
\<close>

theorem never_given_back:
  assumes "named_semaphores B sview" and "lock_reachable B m0 (m, pcs)" and "sem_names (sview m0) SEMAPHORE_NAME = None"
    and "holds (pcs i) s" and "(lock_step B)\<^sup>*\<^sup>* (m, pcs) (m', pcs')"
  shows "sem_count (sview m') s = Some 0 \<and> (semaphore g = s \<longrightarrow> \<not> snd (fst (guard_lock B g m')))"
proof -
  have inv: "lock_inv sview (dom (sem_count (sview m0))) m pcs"
    using named_semaphores.lock_reachable_inv [OF assms(1-3)] by simp
  have "sem_count (sview m) s = Some 0"
    using inv assms(4) unfolding lock_inv_def by blast
  from named_semaphores.count_never_up [OF assms(1,5) inv this] have zero: "sem_count (sview m') s = Some 0" .
  have "\<not> snd (fst (guard_lock B g m'))" if "semaphore g = s"
  proof
    assume "snd (fst (guard_lock B g m'))"
    then obtain m2 where "sem_timed_wait B (semaphore g) m' = (True, m2)"
      by (auto simp: guard_lock_run split: prod.splits)
    from named_semaphores.wait_True [OF assms(1) this] zero that show False
      by simp
  qed
  then show ?thesis
    using zero by blast
qed

theorem never_given_back_witness: "sem_count (posix_sview (run_machine 5)) 0 = Some 0"
proof -
  have "sem_names (posix_sview posix_init) SEMAPHORE_NAME = None" and "holds (run_pcs 2 0) 0"
    by (simp_all add: posix_sview_def posix_init_def run_pcs_def run_guard_def holds_def numeral_eq_Suc)
  moreover have "(lock_step posix_boost)\<^sup>*\<^sup>* (run_machine 2, run_pcs 2) (run_machine 5, run_pcs 7)"
    using run_steps(3-7) by (meson converse_rtranclp_into_rtranclp r_into_rtranclp)
  ultimately show ?thesis
    using never_given_back [OF posix_sems.named_semaphores_axioms run_reachable(1)] by blast
qed

section \<open>No mutual exclusion\<close>

text \<open>
  C38. The lock does not exclude: on the reference machine a state is reachable in which two processes are
  inside with the lock, because the process that timed out removed the name of the semaphore.
\<close>

theorem two_inside:
  "\<exists>m pcs g h. lock_reachable posix_boost posix_init (m, pcs) \<and> pcs 0 = Inside g True \<and> pcs 2 = Inside h True"
proof -
  have "run_pcs 7 0 = Inside (run_guard 0) True" "run_pcs 7 2 = Inside (run_guard 1) True"
    by (simp_all add: run_pcs_def numeral_eq_Suc)
  then show ?thesis
    using run_reachable(2) by blast
qed

end
