(* ===== verification/IdRace.thy ===== *)
theory IdRace
  imports PkgData
begin

text \<open>
  Several processes in \<open>getNextId\<close> of \<open>src/sharedMemory.cpp\<close> at once. The counter \<open>*lastId\<close> lies in
  shared memory and is an atomic: each process reads it once, then increments it, asks whether the
  number it got is in use, and goes on. These three accesses are the steps of a process
  (\<open>search_step\<close>); the code in between touches nothing that is shared. In \<open>id_step\<close> any process
  takes such a step, and any other change of the machine that leaves the counter alone may happen
  at any time.
\<close>

section \<open>The steps of a search\<close>

text \<open>Where a process is: outside, before \<open>++(*lastId)\<close>, or before \<open>hasSharedMemory\<close> with the number it got.\<close>

datatype id_pc = Idle | Searching u64 | Trying u64 u64

text \<open>\<open>increments\<close>, \<open>returned_ids\<close> and \<open>id_errors\<close> record the run: what the calls returned and threw.\<close>

record 'os id_state =
  id_machine :: 'os
  id_worlds :: "nat \<Rightarrow> 'os world"
  id_pcs :: "nat \<Rightarrow> id_pc"
  increments :: nat
  returned_ids :: "string list"
  id_errors :: "so_error list"

definition world_of :: "'os id_state \<Rightarrow> nat \<Rightarrow> 'os world" where
  "world_of s i = (id_worlds s i)\<lparr>machine := id_machine s\<rparr>"

definition moved_to :: "'os id_state \<Rightarrow> nat \<Rightarrow> 'os world \<Rightarrow> id_pc \<Rightarrow> 'os id_state" where
  "moved_to s i w pc = s\<lparr>id_machine := machine w, id_worlds := (id_worlds s)(i := w), id_pcs := (id_pcs s)(i := pc)\<rparr>"

definition counter_kept :: "('os \<Rightarrow> shm_view) \<Rightarrow> 'os id_state \<Rightarrow> 'os \<Rightarrow> bool" where
  "counter_kept view s m \<longleftrightarrow> (\<forall>i p j. lastId (id_worlds s i) = Some p \<longrightarrow>
     vregions (view (id_machine s)) (ptr_block p) = Some j \<longrightarrow>
     vregions (view m) (ptr_block p) = Some j \<and> vobjs (view m) j = vobjs (view (id_machine s)) j)"

inductive search_step :: "'os boost \<Rightarrow> nat \<Rightarrow> 'os id_state \<Rightarrow> 'os id_state \<Rightarrow> bool" for B i s where
  begins: "id_pcs s i = Idle \<Longrightarrow> read_lastId B (world_of s i) = (Inr initialId, w) \<Longrightarrow>
    search_step B i s (moved_to s i w (Searching initialId))"
| increments: "id_pcs s i = Searching initialId \<Longrightarrow> increment_lastId B (world_of s i) = (Inr ident, w) \<Longrightarrow>
    search_step B i s ((moved_to s i w (Trying initialId ident))\<lparr>increments := Suc (increments s)\<rparr>)"
| finds: "id_pcs s i = Trying initialId ident \<Longrightarrow>
    hasSharedMemory B (to_string (unat ident)) (world_of s i) = (Inr False, w) \<Longrightarrow>
    search_step B i s ((moved_to s i w Idle)\<lparr>returned_ids := to_string (unat ident) # returned_ids s\<rparr>)"
| retries: "id_pcs s i = Trying initialId ident \<Longrightarrow>
    hasSharedMemory B (to_string (unat ident)) (world_of s i) = (Inr True, w) \<Longrightarrow> ident \<noteq> initialId \<Longrightarrow>
    search_step B i s (moved_to s i w (Searching initialId))"
| gives_up: "id_pcs s i = Trying initialId ident \<Longrightarrow>
    hasSharedMemory B (to_string (unat ident)) (world_of s i) = (Inr True, w) \<Longrightarrow> ident = initialId \<Longrightarrow>
    search_step B i s ((moved_to s i w Idle)\<lparr>id_errors := CppError no_key_message # id_errors s\<rparr>)"

inductive id_step :: "'os boost \<Rightarrow> ('os \<Rightarrow> shm_view) \<Rightarrow> 'os id_state \<Rightarrow> 'os id_state \<Rightarrow> bool" for B view s where
  searches: "search_step B i s s' \<Longrightarrow> id_step B view s s'"
| interferes: "counter_kept view s m \<Longrightarrow> id_step B view s (s\<lparr>id_machine := m\<rparr>)"

inductive_cases search_stepE: "search_step B i s s'"

lemma world_of_moved [simp]:
  "id_machine (moved_to s i w pc) = machine w" "id_pcs (moved_to s i w pc) = (id_pcs s)(i := pc)"
  "id_worlds (moved_to s i w pc) = (id_worlds s)(i := w)" "increments (moved_to s i w pc) = increments s"
  "returned_ids (moved_to s i w pc) = returned_ids s" "id_errors (moved_to s i w pc) = id_errors s"
  "world_of (moved_to s i w pc) i = w"
  by (simp_all add: moved_to_def world_of_def)

lemma world_of_recorded [simp]:
  "world_of (s\<lparr>increments := n\<rparr>) i = world_of s i" "world_of (s\<lparr>returned_ids := ids\<rparr>) i = world_of s i"
  "world_of (s\<lparr>id_errors := es\<rparr>) i = world_of s i"
  "machine (world_of s i) = id_machine s" "lastId (world_of s i) = lastId (id_worlds s i)"
  by (simp_all add: world_of_def)

text \<open>A process has at most one step to take.\<close>

lemma search_step_determ:
  assumes "search_step B i s s1" and "search_step B i s s2"
  shows "s1 = s2"
  using assms by (auto elim!: search_stepE)

section \<open>One process alone\<close>

text \<open>
  The steps of one process without interruption are the function \<open>getNextId\<close>, whether it returns an id or
  throws: \<open>in_search\<close> are the steps after the first one of a call, \<open>during\<close> relates the state before a
  call to those the process alone reaches in it, \<open>completes\<close> to those after it.
\<close>

definition in_search :: "'os boost \<Rightarrow> nat \<Rightarrow> 'os id_state \<Rightarrow> 'os id_state \<Rightarrow> bool" where
  "in_search B i s s' \<longleftrightarrow> id_pcs s i \<noteq> Idle \<and> search_step B i s s'"

definition during :: "'os boost \<Rightarrow> nat \<Rightarrow> 'os id_state \<Rightarrow> 'os id_state \<Rightarrow> bool" where
  "during B i s s' \<longleftrightarrow> id_pcs s i = Idle \<and> (\<exists>s1. search_step B i s s1 \<and> (in_search B i)\<^sup>*\<^sup>* s1 s')"

definition completes :: "'os boost \<Rightarrow> nat \<Rightarrow> 'os id_state \<Rightarrow> 'os id_state \<Rightarrow> bool" where
  "completes B i s s' \<longleftrightarrow> during B i s s' \<and> id_pcs s' i = Idle"

definition answer :: "so_error + string \<Rightarrow> string list" where
  "answer r = (case r of Inl e \<Rightarrow> [] | Inr ident \<Rightarrow> [ident])"

definition thrown :: "so_error + string \<Rightarrow> so_error list" where
  "thrown r = (case r of Inl e \<Rightarrow> [e] | Inr ident \<Rightarrow> [])"

definition answered :: "so_error + string \<Rightarrow> bool" where
  "answered r \<longleftrightarrow> (case r of Inr ident \<Rightarrow> True | Inl e \<Rightarrow> (\<exists>what. e = CppError what))"

text \<open>The state after a call with result \<open>r\<close> that leaves the world \<open>w\<close>; only the number of increments is open.\<close>

definition after_call :: "'os id_state \<Rightarrow> nat \<Rightarrow> so_error + string \<Rightarrow> 'os world \<Rightarrow> 'os id_state \<Rightarrow> bool" where
  "after_call s i r w s' \<longleftrightarrow> id_machine s' = machine w \<and> id_worlds s' = (id_worlds s)(i := w) \<and>
     id_pcs s' = (id_pcs s)(i := Idle) \<and> returned_ids s' = answer r @ returned_ids s \<and> id_errors s' = thrown r @ id_errors s"

lemma read_lastId_err: "read_lastId B w = (Inl e, w') \<Longrightarrow> \<exists>why. e = Undefined why"
  by (auto simp: read_lastId_def fail_run split: option.splits)

lemma increment_err: "increment_lastId B w = (Inl e, w') \<Longrightarrow> \<exists>why. e = Undefined why"
  by (auto simp: increment_lastId_def store_counter_def andThen_run fail_run ok_run
      dest: read_lastId_err split: prod.splits sum.splits option.splits)

lemma has_Inr: "\<exists>b w'. hasSharedMemory B ident w = (Inr b, w')"
  by (auto simp: hasSharedMemory_def split: prod.split)

lemma after_call_moved:
  "after_call (moved_to s i w1 pc) i r w s' \<longleftrightarrow> after_call s i r w s'"
  "after_call (s\<lparr>increments := n\<rparr>) i r w s' \<longleftrightarrow> after_call s i r w s'"
  by (simp_all add: after_call_def)

lemma search_steps:
  assumes "getNextId_loop B initialId fuel (world_of s i) = (r, w)" and "answered r" and "id_pcs s i = Searching initialId"
  shows "\<exists>s'. (in_search B i)\<^sup>*\<^sup>* s s' \<and> after_call s i r w s'"
  using assms
proof (induction fuel arbitrary: s)
  case 0
  then show ?case
    by (auto simp: fail_run answered_def)
next
  case (Suc fuel)
  obtain x w1 where inc: "increment_lastId B (world_of s i) = (Inr x, w1)"
  proof (cases "increment_lastId B (world_of s i)")
    case (Pair r1 w1)
    then show thesis
      using that Suc.prems(1,2) increment_err [of B "world_of s i"]
      by (cases r1) (fastforce simp: andThen_run answered_def)+
  qed
  obtain has w2 where has: "hasSharedMemory B (to_string (unat x)) w1 = (Inr has, w2)"
    using has_Inr by blast
  have rest: "(if \<not> has then ok (to_string (unat x)) else if x \<noteq> initialId then getNextId_loop B initialId fuel
      else throwError no_key_message) w2 = (r, w)"
    using Suc.prems(1) inc has by simp
  let ?s1 = "(moved_to s i w1 (Trying initialId x))\<lparr>increments := Suc (increments s)\<rparr>"
  have one: "in_search B i s ?s1"
    using search_step.increments [OF Suc.prems(3) inc] Suc.prems(3) by (simp add: in_search_def)
  have pc1: "id_pcs ?s1 i = Trying initialId x" and w1: "world_of ?s1 i = w1"
    by simp_all
  have two: "in_search B i ?s1 s2" if "search_step B i ?s1 s2" for s2
    using that pc1 by (simp add: in_search_def)
  consider (found) "\<not> has" | (again) "has" "x \<noteq> initialId" | (end_of_search) "has" "x = initialId"
    by blast
  then show ?case
  proof cases
    case found
    let ?s2 = "(moved_to ?s1 i w2 Idle)\<lparr>returned_ids := to_string (unat x) # returned_ids ?s1\<rparr>"
    have "search_step B i ?s1 ?s2"
      using found has w1 by (intro search_step.finds [OF pc1]) simp
    then have "(in_search B i)\<^sup>*\<^sup>* s ?s2"
      using one two by (meson converse_rtranclp_into_rtranclp rtranclp.rtrancl_refl)
    moreover have "r = Inr (to_string (unat x))" "w = w2"
      using rest found by (auto simp: ok_run)
    ultimately show ?thesis
      by (intro exI [of _ ?s2]) (simp add: answer_def thrown_def after_call_def)
  next
    case end_of_search
    let ?s2 = "(moved_to ?s1 i w2 Idle)\<lparr>id_errors := CppError no_key_message # id_errors ?s1\<rparr>"
    have "search_step B i ?s1 ?s2"
      using end_of_search has w1 by (intro search_step.gives_up [OF pc1]) simp_all
    then have "(in_search B i)\<^sup>*\<^sup>* s ?s2"
      using one two by (meson converse_rtranclp_into_rtranclp rtranclp.rtrancl_refl)
    moreover have "r = Inl (CppError no_key_message)" "w = w2"
      using rest end_of_search by (auto simp: throwError_run no_key_message_def BUFFER_SIZE_def)
    ultimately show ?thesis
      by (intro exI [of _ ?s2]) (simp add: answer_def thrown_def after_call_def)
  next
    case again
    then have loop: "getNextId_loop B initialId fuel w2 = (r, w)"
      using rest by simp
    let ?s2 = "moved_to ?s1 i w2 (Searching initialId)"
    have "search_step B i ?s1 ?s2"
      using again has w1 by (intro search_step.retries [OF pc1 _ again(2)]) simp
    moreover obtain s' where s': "(in_search B i)\<^sup>*\<^sup>* ?s2 s'" "after_call ?s2 i r w s'"
      using Suc.IH [of ?s2] loop Suc.prems(2) by auto
    ultimately have "(in_search B i)\<^sup>*\<^sup>* s s'"
      using one two by (meson converse_rtranclp_into_rtranclp)
    then show ?thesis
      using s'(2) unfolding after_call_moved by blast
  qed
qed

lemma getNextId_steps:
  assumes "getNextId B (world_of s i) = (r, w)" and "answered r" and "id_pcs s i = Idle"
  shows "\<exists>s'. completes B i s s' \<and> after_call s i r w s'"
proof -
  obtain x w1 where read: "read_lastId B (world_of s i) = (Inr x, w1)"
  proof (cases "read_lastId B (world_of s i)")
    case (Pair r1 w1)
    then show thesis
      using that assms(1,2) read_lastId_err [of B "world_of s i"]
      by (cases r1) (fastforce simp: getNextId_def andThen_run answered_def)+
  qed
  then have loop: "getNextId_loop B x (2 ^ 64) w1 = (r, w)"
    using assms(1) by (simp add: getNextId_def)
  let ?s1 = "moved_to s i w1 (Searching x)"
  have "search_step B i s ?s1"
    by (rule search_step.begins [OF assms(3) read])
  moreover obtain s' where s': "(in_search B i)\<^sup>*\<^sup>* ?s1 s'" "after_call ?s1 i r w s'"
    using search_steps [of B x "2 ^ 64" ?s1 i r w] loop assms(2) by auto
  moreover have "id_pcs s' i = Idle"
    using s'(2) by (auto simp: after_call_def)
  ultimately show ?thesis
    unfolding completes_def during_def after_call_moved using assms(3) by blast
qed

text \<open>There is no other way to run: every state the process reaches in the call leads to the same end.\<close>

lemma in_search_confluent:
  assumes "(in_search B i)\<^sup>*\<^sup>* s s1" and "(in_search B i)\<^sup>*\<^sup>* s s'" and "id_pcs s' i = Idle"
  shows "(in_search B i)\<^sup>*\<^sup>* s1 s'"
  using assms
proof (induction rule: converse_rtranclp_induct)
  case base
  then show ?case
    by simp
next
  case (step s s2)
  then have "s \<noteq> s'"
    by (auto simp: in_search_def)
  with step.prems(1) obtain s3 where "in_search B i s s3" "(in_search B i)\<^sup>*\<^sup>* s3 s'"
    by (meson converse_rtranclpE)
  moreover have "s3 = s2"
    using calculation(1) step.hyps(1) search_step_determ by (fastforce simp: in_search_def)
  ultimately show ?case
    using step.IH step.prems(2) by simp
qed

lemma during_completes:
  assumes "during B i s s1" and "completes B i s s'"
  shows "(in_search B i)\<^sup>*\<^sup>* s1 s'"
  using assms in_search_confluent search_step_determ unfolding during_def completes_def by metis

lemma completes_unique:
  assumes "completes B i s s1" and "completes B i s s'"
  shows "s1 = s'"
proof -
  have "(in_search B i)\<^sup>*\<^sup>* s1 s'"
    using assms during_completes unfolding completes_def by blast
  moreover have "id_pcs s1 i = Idle"
    using assms(1) by (simp add: completes_def)
  ultimately show ?thesis
    by (auto simp: in_search_def elim: converse_rtranclpE)
qed

section \<open>The numbers are different\<close>

text \<open>All processes that have the counter have the same one, with value \<open>x\<close>.\<close>

definition shared_counter :: "('os \<Rightarrow> shm_view) \<Rightarrow> 'os id_state \<Rightarrow> u64 \<Rightarrow> bool" where
  "shared_counter view s x \<longleftrightarrow> (\<exists>j. \<forall>i p. lastId (id_worlds s i) = Some p \<longrightarrow>
     ptr_off p = 0 \<and> vregions (view (id_machine s)) (ptr_block p) = Some j \<and>
     8 \<le> length (vobjs (view (id_machine s)) j) \<and> from_le (slice 0 8 (vobjs (view (id_machine s)) j)) = unat x)"

definition id_start :: "('os \<Rightarrow> shm_view) \<Rightarrow> u64 \<Rightarrow> 'os id_state \<Rightarrow> bool" where
  "id_start view start s \<longleftrightarrow> shared_counter view s start \<and> (\<forall>i. id_pcs s i = Idle) \<and> increments s = 0 \<and>
     returned_ids s = [] \<and> id_errors s = []"

lemma shared_counter_is:
  assumes "shared_counter view s x" and "lastId (id_worlds s i) = Some p"
  shows "counter_is view (world_of s i) x"
proof -
  obtain j where "ptr_off p = 0 \<and> vregions (view (id_machine s)) (ptr_block p) = Some j \<and>
      8 \<le> length (vobjs (view (id_machine s)) j) \<and> from_le (slice 0 8 (vobjs (view (id_machine s)) j)) = unat x"
    using assms unfolding shared_counter_def by blast
  then show ?thesis
    using assms(2) by (cases p) (simp add: counter_is_def)
qed

lemma shared_counter_view:
  assumes "view (machine w) = view (id_machine s)" and "lastId w = lastId (id_worlds s i)"
  shows "shared_counter view (moved_to s i w pc) x = shared_counter view s x"
  using assms by (auto simp: shared_counter_def)

lemma shared_counter_recorded [simp]:
  "shared_counter view (s\<lparr>increments := n\<rparr>) x = shared_counter view s x"
  "shared_counter view (s\<lparr>returned_ids := ids\<rparr>) x = shared_counter view s x"
  "shared_counter view (s\<lparr>id_errors := es\<rparr>) x = shared_counter view s x"
  by (simp_all add: shared_counter_def)

lemma shared_counter_moved:
  assumes "shared_counter view s x" and "lastId (id_worlds s i) = Some p"
    and "counter_moved view (world_of s i) w" and "counter_is view w y"
  shows "shared_counter view (moved_to s i w pc) y"
proof -
  obtain j where j: "ptr_off q = 0 \<and> vregions (view (id_machine s)) (ptr_block q) = Some j \<and>
      8 \<le> length (vobjs (view (id_machine s)) j)" if "lastId (id_worlds s k) = Some q" for k q
    using assms(1) unfolding shared_counter_def by blast
  have w: "lastId w = Some p" "vregions (view (machine w)) = vregions (view (id_machine s))"
    "length (vobjs (view (machine w)) j) = length (vobjs (view (id_machine s)) j)"
    using counter_moved_lastId [OF assms(3)] assms(2,3) by (simp_all add: counter_moved_def)
  have "from_le (slice 0 8 (vobjs (view (machine w)) j)) = unat y"
    using assms(4) w j [OF assms(2)] by (cases p) (auto simp: counter_is_def)
  then show ?thesis
    using w j assms(2) unfolding shared_counter_def by (intro exI [of _ j]) auto
qed

lemma shared_counter_kept: "shared_counter view s x \<Longrightarrow> counter_kept view s m \<Longrightarrow> shared_counter view (s\<lparr>id_machine := m\<rparr>) x"
  by (fastforce simp: shared_counter_def counter_kept_def)

text \<open>The number of an increment since the start.\<close>

definition issued :: "u64 \<Rightarrow> nat \<Rightarrow> u64 \<Rightarrow> bool" where
  "issued start n x \<longleftrightarrow> (\<exists>k. 0 < k \<and> k \<le> n \<and> x = start + of_nat k)"

lemma issued_Suc: "issued start n x \<Longrightarrow> issued start (Suc n) x"
  unfolding issued_def by (elim exE conjE) (rule exI, intro conjI, auto)

lemma issued_next: "issued start (Suc n) (start + of_nat (Suc n))"
  unfolding issued_def by blast

lemma not_issued_next:
  assumes "Suc n < 2 ^ 64"
  shows "\<not> issued start n (start + of_nat (Suc n))"
proof
  assume "issued start n (start + of_nat (Suc n))"
  then obtain k where k: "k \<le> n" "(of_nat k :: u64) = of_nat (Suc n)"
    unfolding issued_def by auto
  have "unat (of_nat m :: u64) = m" if "m < 2 ^ 64" for m
    using that by (simp add: unat_of_nat take_bit_eq_mod)
  from this [of k] this [of "Suc n"] show False
    using k assms by simp
qed

text \<open>The numbers handed out and the numbers being tried are numbers of different increments.\<close>

definition ids_apart :: "u64 \<Rightarrow> 'os id_state \<Rightarrow> u64 list \<Rightarrow> bool" where
  "ids_apart start s ids \<longleftrightarrow> returned_ids s = map (\<lambda>x. to_string (unat x)) ids \<and> distinct ids \<and>
     (\<forall>x \<in> set ids. issued start (increments s) x) \<and>
     (\<forall>i a x. id_pcs s i = Trying a x \<longrightarrow> issued start (increments s) x \<and> x \<notin> set ids) \<and>
     (\<forall>i j a b x. id_pcs s i = Trying a x \<longrightarrow> id_pcs s j = Trying b x \<longrightarrow> i = j)"

definition id_inv :: "('os \<Rightarrow> shm_view) \<Rightarrow> u64 \<Rightarrow> 'os id_state \<Rightarrow> bool" where
  "id_inv view start s \<longleftrightarrow> shared_counter view s (start + of_nat (increments s)) \<and>
     (increments s < 2 ^ 64 \<longrightarrow> (\<exists>ids. ids_apart start s ids))"

lemma id_inv_start: "id_start view start s \<Longrightarrow> id_inv view start s"
  by (simp add: id_start_def id_inv_def ids_apart_def)

lemma id_inv_ids:
  assumes "id_inv view start s" and "increments s < 2 ^ 64"
  obtains ids where "ids_apart start s ids"
  using assms unfolding id_inv_def by blast

lemma id_invI:
  assumes "shared_counter view s (start + of_nat (increments s))" and "increments s < 2 ^ 64 \<Longrightarrow> ids_apart start s ids"
  shows "id_inv view start s"
  using assms unfolding id_inv_def by blast

lemma ids_apartD:
  assumes "ids_apart start s ids"
  shows "returned_ids s = map (\<lambda>x. to_string (unat x)) ids" and "distinct ids"
    and "x \<in> set ids \<Longrightarrow> issued start (increments s) x"
    and "id_pcs s i = Trying a x \<Longrightarrow> issued start (increments s) x"
    and "id_pcs s i = Trying a x \<Longrightarrow> x \<notin> set ids"
    and "id_pcs s i = Trying a x \<Longrightarrow> id_pcs s j = Trying b x \<Longrightarrow> i = j"
  using assms unfolding ids_apart_def by blast+

lemma ids_apart_moved:
  assumes "ids_apart start s ids" and "increments s' = increments s" and "returned_ids s' = returned_ids s"
    and "\<And>i a x. id_pcs s' i = Trying a x \<Longrightarrow> id_pcs s i = Trying a x"
  shows "ids_apart start s' ids"
  unfolding ids_apart_def assms(2,3)
  using ids_apartD [OF assms(1)] assms(4) by blast

text \<open>One increment, one number handed out.\<close>

lemma ids_apart_incremented:
  assumes "ids_apart start s ids" and "\<not> issued start (increments s) x" and "issued start (Suc (increments s)) x"
    and "increments s' = Suc (increments s)" and "returned_ids s' = returned_ids s"
    and "id_pcs s' = (id_pcs s)(i := Trying a x)"
  shows "ids_apart start s' ids"
proof -
  note old = ids_apartD [OF assms(1)]
  have trying: "k = i \<and> y = x \<or> k \<noteq> i \<and> id_pcs s k = Trying b y" if "id_pcs s' k = Trying b y" for k b y
    using that unfolding assms(6) by (auto split: if_splits)
  have "issued start (Suc (increments s)) y \<and> y \<notin> set ids" if "id_pcs s' k = Trying b y" for k b y
    using trying [OF that] old(3-5) assms(2,3) issued_Suc by blast
  moreover have "k = l" if "id_pcs s' k = Trying b y" "id_pcs s' l = Trying c y" for k l b c y
    using trying [OF that(1)] trying [OF that(2)] old(4,6) assms(2) by blast
  moreover have "\<forall>y \<in> set ids. issued start (Suc (increments s)) y"
    using old(3) issued_Suc by blast
  ultimately show ?thesis
    using old(1,2) unfolding ids_apart_def assms(4,5) by blast
qed

lemma ids_apart_found:
  assumes "ids_apart start s ids" and "id_pcs s i = Trying a x" and "increments s' = increments s"
    and "returned_ids s' = to_string (unat x) # returned_ids s" and "id_pcs s' = (id_pcs s)(i := Idle)"
  shows "ids_apart start s' (x # ids)"
proof -
  note old = ids_apartD [OF assms(1)]
  have trying: "k \<noteq> i \<and> id_pcs s k = Trying b y" if "id_pcs s' k = Trying b y" for k b y
    using that unfolding assms(5) by (auto split: if_splits)
  have "issued start (increments s) y \<and> y \<notin> set (x # ids)" if "id_pcs s' k = Trying b y" for k b y
    using trying [OF that] old(4,5) old(6) [OF assms(2)] by auto
  moreover have "k = l" if "id_pcs s' k = Trying b y" "id_pcs s' l = Trying c y" for k l b c y
    using trying [OF that(1)] trying [OF that(2)] old(6) by blast
  moreover have "\<forall>y \<in> set (x # ids). issued start (increments s) y"
    using old(3) old(4) [OF assms(2)] by simp
  moreover have "distinct (x # ids)"
    using old(2) old(5) [OF assms(2)] by simp
  moreover have "returned_ids s' = map (\<lambda>x. to_string (unat x)) (x # ids)"
    using old(1) assms(4) by simp
  ultimately show ?thesis
    unfolding ids_apart_def assms(3) by blast
qed

lemma id_inv_moved:
  assumes "id_inv view start s" and "shared_counter view s' (start + of_nat (increments s))"
    and "increments s' = increments s" and "returned_ids s' = returned_ids s"
    and "\<And>i a x. id_pcs s' i = Trying a x \<Longrightarrow> id_pcs s i = Trying a x"
  shows "id_inv view start s'"
proof (cases "increments s < 2 ^ 64")
  case True
  from id_inv_ids [OF assms(1) this] obtain ids where "ids_apart start s ids" .
  from ids_apart_moved [OF this assms(3-5)] show ?thesis
    using assms(2,3) by (simp add: id_invI)
next
  case False
  then show ?thesis
    using assms(2,3) by (simp add: id_inv_def)
qed

context shm_os
begin

lemma has_step:
  assumes "hasSharedMemory B ident (world_of s i) = (Inr b, w)"
  shows "shared_counter view (moved_to s i w pc) x = shared_counter view s x"
proof -
  obtain m where m: "SO_hasSharedMemory B (getKey ident) (id_machine s) = (b, m)" "w = (world_of s i)\<lparr>machine := m\<rparr>"
    using assms by (auto simp: hasSharedMemory_def split: prod.splits)
  then have "view m = view (id_machine s)"
    using SO_has_view [of "getKey ident" "id_machine s"] by simp
  then show ?thesis
    by (intro shared_counter_view) (simp_all add: m(2) world_of_def)
qed

lemma id_inv_search:
  assumes "search_step B i s s'" and inv: "id_inv view start s"
  shows "id_inv view start s'"
  using assms(1)
proof cases
  case (begins initialId w)
  obtain p where p: "lastId (id_worlds s i) = Some p"
    using begins(3) by (auto simp: read_lastId_def fail_run world_of_def split: option.splits)
  then have "w = world_of s i"
    using read_lastId_run [OF shared_counter_is [OF _ p]] inv begins(3) by (auto simp: id_inv_def)
  then have "shared_counter view s' (start + of_nat (increments s))"
    using inv shared_counter_view [of view w s i] by (simp add: begins(1) id_inv_def)
  then show ?thesis
    by (rule id_inv_moved [OF inv]) (auto simp: begins(1,2) split: if_splits)
next
  case (increments initialId ident w)
  obtain p where p: "lastId (id_worlds s i) = Some p"
    using increments(3) by (auto simp: increment_lastId_def read_lastId_def andThen_run fail_run world_of_def split: option.splits)
  obtain w' where w': "increment_lastId B (world_of s i) = (Inr (start + of_nat (increments s) + 1), w')"
    "counter_moved view (world_of s i) w'" "counter_is view w' (start + of_nat (increments s) + 1)"
    using increment_run [OF shared_counter_is [OF _ p]] inv unfolding id_inv_def by blast
  have new: "ident = start + of_nat (Suc (increments s))" "w = w'"
    using w'(1) increments(3) by (auto simp: algebra_simps)
  have "start + of_nat (increments s) + 1 = start + of_nat (Suc (increments s))"
    by simp
  note w'_new = w'(2,3) [unfolded this]
  have s': "increments s' = Suc (increments s)" "returned_ids s' = returned_ids s"
    "id_pcs s' = (id_pcs s)(i := Trying initialId ident)"
    by (simp_all add: increments(1))
  have "shared_counter view (moved_to s i w' (Trying initialId ident)) (start + of_nat (Suc (increments s)))"
    by (rule shared_counter_moved [OF conjunct1 [OF inv [unfolded id_inv_def]] p w'_new])
  then have counter: "shared_counter view s' (start + of_nat (increments s'))"
    unfolding s'(1) unfolding increments(1) new(2) by (simp only: shared_counter_recorded)
  show ?thesis
  proof (cases "Suc (increments s) < 2 ^ 64")
    case True
    then obtain ids where ids: "ids_apart start s ids"
      using id_inv_ids [OF inv] by (metis Suc_lessD)
    have "ids_apart start s' ids"
      by (rule ids_apart_incremented [OF ids not_issued_next [OF True] issued_next s'(1,2) s'(3) [unfolded new(1)]])
    then show ?thesis
      by (rule id_invI [OF counter])
  next
    case False
    then show ?thesis
      using counter s'(1) by (simp add: id_inv_def)
  qed
next
  case (finds initialId ident w)
  have s': "increments s' = increments s" "returned_ids s' = to_string (unat ident) # returned_ids s"
    "id_pcs s' = (id_pcs s)(i := Idle)"
    by (simp_all add: finds(1))
  have counter: "shared_counter view s' (start + of_nat (increments s'))"
    using has_step [OF finds(3)] inv by (simp add: finds(1) id_inv_def)
  show ?thesis
  proof (cases "increments s < 2 ^ 64")
    case True
    from id_inv_ids [OF inv this] obtain ids where "ids_apart start s ids" .
    from ids_apart_found [OF this finds(2) s'] show ?thesis
      by (rule id_invI [OF counter])
  next
    case False
    then show ?thesis
      using counter s'(1) by (simp add: id_inv_def)
  qed
next
  case (retries initialId ident w)
  have "shared_counter view s' (start + of_nat (increments s))"
    using has_step [OF retries(3)] inv by (simp add: retries(1) id_inv_def)
  then show ?thesis
    by (rule id_inv_moved [OF inv]) (auto simp: retries(1) split: if_splits)
next
  case (gives_up initialId ident w)
  have "shared_counter view s' (start + of_nat (increments s))"
    using has_step [OF gives_up(3)] inv by (simp add: gives_up(1) id_inv_def)
  then show ?thesis
    by (rule id_inv_moved [OF inv]) (auto simp: gives_up(1) split: if_splits)
qed

lemma id_inv_step:
  assumes "id_step B view s s'" and inv: "id_inv view start s"
  shows "id_inv view start s'"
  using assms(1)
proof cases
  case (searches i)
  then show ?thesis
    using inv by (rule id_inv_search)
next
  case (interferes m)
  have "shared_counter view s' (start + of_nat (increments s))"
    using shared_counter_kept [OF _ interferes(2)] inv by (simp add: interferes(1) id_inv_def)
  then show ?thesis
    by (rule id_inv_moved [OF inv]) (auto simp: interferes(1))
qed

lemma id_inv_run: "(id_step B view)\<^sup>*\<^sup>* s s' \<Longrightarrow> id_inv view start s \<Longrightarrow> id_inv view start s'"
  by (induction rule: rtranclp_induct) (blast intro: id_inv_step)+

text \<open>As long as the counter has not gone round, no two calls return the same id.\<close>

lemma returned_ids_distinct:
  assumes "id_start view start s" and "(id_step B view)\<^sup>*\<^sup>* s s'" and "increments s' < 2 ^ 64"
  shows "distinct (returned_ids s')"
proof -
  have "id_inv view start s'"
    by (rule id_inv_run [OF assms(2) id_inv_start [OF assms(1)]])
  from id_inv_ids [OF this assms(3)] obtain ids where "ids_apart start s' ids" .
  then show ?thesis
    by (auto simp: ids_apart_def distinct_map inj_on_def word_unat_eq_iff)
qed

end

section \<open>Two searches that never end\<close>

text \<open>
  \<open>getNextId\<close> ends its search when it meets the value the counter had at its beginning. When all
  numbers are in use and two processes search in turns, each can skip the value the other waits for:
  their initial values differ in parity and each process meets the numbers of one parity only.
\<close>

definition all_used :: "('os \<Rightarrow> shm_view) \<Rightarrow> 'os id_state \<Rightarrow> bool" where
  "all_used view s \<longleftrightarrow> (\<forall>x :: u64. vnames (view (id_machine s)) (getKey (to_string (unat x))) \<noteq> None)"

definition have_counter :: "'os id_state \<Rightarrow> nat set \<Rightarrow> bool" where
  "have_counter s P \<longleftrightarrow> (\<forall>i \<in> P. lastId (id_worlds s i) \<noteq> None)"

definition crossed :: "('os \<Rightarrow> shm_view) \<Rightarrow> u64 \<Rightarrow> u64 \<Rightarrow> 'os id_state \<Rightarrow> bool" where
  "crossed view a b s \<longleftrightarrow> (\<exists>v. shared_counter view s v \<and> id_pcs s 0 = Searching a \<and> id_pcs s 1 = Searching b \<and>
     (even (unat a) \<longleftrightarrow> even (unat v)) \<and> (even (unat b) \<longleftrightarrow> odd (unat v))) \<and>
   all_used view s \<and> have_counter s {0, 1}"

text \<open>Two processes that run alone on the machine, and one round of them: each tries one number.\<close>

definition two_step :: "'os boost \<Rightarrow> 'os id_state \<Rightarrow> 'os id_state \<Rightarrow> bool" where
  "two_step B s s' \<longleftrightarrow> search_step B 0 s s' \<or> search_step B 1 s s'"

definition in_turns :: "'os boost \<Rightarrow> 'os id_state \<Rightarrow> 'os id_state \<Rightarrow> bool" where
  "in_turns B s s' \<longleftrightarrow> (\<exists>s1. (search_step B 0 ^^ 2) s s1 \<and> (search_step B 1 ^^ 2) s1 s')"

lemma two_stepI:
  "search_step B 0 s s' \<Longrightarrow> two_step B s s'" "search_step B 1 s s' \<Longrightarrow> two_step B s s'"
  by (simp_all add: two_step_def)

lemma two_step_id_steps: "(two_step B)\<^sup>*\<^sup>* s s' \<Longrightarrow> (id_step B view)\<^sup>*\<^sup>* s s'"
  by (rule mono_rtranclp [rule_format]) (auto simp: two_step_def intro: id_step.searches)

lemma in_turns_two_steps:
  assumes "in_turns B s s'"
  shows "(two_step B)\<^sup>*\<^sup>* s s'"
proof -
  obtain s1 where s1: "(search_step B 0 ^^ 2) s s1" "(search_step B 1 ^^ 2) s1 s'"
    using assms unfolding in_turns_def by blast
  have "(two_step B)\<^sup>*\<^sup>* x y" if "(search_step B i)\<^sup>*\<^sup>* x y" "i = 0 \<or> i = 1" for x y i
    using that(1) by (rule mono_rtranclp [rule_format, rotated]) (use that(2) in \<open>auto simp: two_step_def\<close>)
  from this [OF relpowp_imp_rtranclp [OF s1(1)]] this [OF relpowp_imp_rtranclp [OF s1(2)]] show ?thesis
    by simp
qed

lemma even_unat_Suc: "even (unat (v + 1 :: u64)) \<longleftrightarrow> odd (unat v)"
  by (simp add: unat_word_ariths even_iff_mod_2_eq_zero mod_mod_cancel) presburger

text \<open>What no step of a search changes.\<close>

definition search_frame :: "('os \<Rightarrow> shm_view) \<Rightarrow> 'os id_state \<Rightarrow> 'os id_state \<Rightarrow> bool" where
  "search_frame view s s' \<longleftrightarrow> (\<forall>k. lastId (id_worlds s' k) = lastId (id_worlds s k)) \<and>
     vnames (view (id_machine s')) = vnames (view (id_machine s)) \<and> returned_ids s' = returned_ids s \<and> id_errors s' = id_errors s"

lemma search_frame_trans: "search_frame view s s1 \<Longrightarrow> search_frame view s1 s2 \<Longrightarrow> search_frame view s s2"
  by (simp add: search_frame_def)

lemma search_frame_moved:
  assumes "counter_moved view (world_of s i) w"
  shows "search_frame view s (moved_to s i w pc)"
  using counter_moved_lastId [OF assms] assms by (simp add: search_frame_def counter_moved_def)

lemma search_frame_recorded [simp]: "search_frame view s (s'\<lparr>increments := n\<rparr>) = search_frame view s s'"
  by (simp add: search_frame_def)

context shm_os_live
begin

lemma begin_once:
  assumes "shared_counter view s v" and "id_pcs s i = Idle" and "lastId (id_worlds s i) \<noteq> None"
  shows "\<exists>s'. search_step B i s s' \<and> shared_counter view s' v \<and> id_pcs s' = (id_pcs s)(i := Searching v) \<and>
    search_frame view s s' \<and> increments s' = increments s"
proof -
  obtain p where p: "lastId (id_worlds s i) = Some p"
    using assms(3) by blast
  have "read_lastId B (world_of s i) = (Inr v, world_of s i)"
    by (rule read_lastId_run [OF shared_counter_is [OF assms(1) p]])
  then have "search_step B i s (moved_to s i (world_of s i) (Searching v))"
    by (rule search_step.begins [OF assms(2)])
  moreover have "shared_counter view (moved_to s i (world_of s i) (Searching v)) v"
    using assms(1) shared_counter_view [of view "world_of s i" s i] by simp
  ultimately show ?thesis
    using search_frame_moved [OF counter_moved_refl] by (intro exI conjI) (assumption | simp)+
qed

lemma increment_once:
  assumes "shared_counter view s v" and "id_pcs s i = Searching a" and "lastId (id_worlds s i) \<noteq> None"
  shows "\<exists>s'. search_step B i s s' \<and> shared_counter view s' (v + 1) \<and> id_pcs s' = (id_pcs s)(i := Trying a (v + 1)) \<and>
    search_frame view s s' \<and> increments s' = Suc (increments s)"
proof -
  obtain p where p: "lastId (id_worlds s i) = Some p"
    using assms(3) by blast
  obtain w where w: "increment_lastId B (world_of s i) = (Inr (v + 1), w)" "counter_moved view (world_of s i) w"
    "counter_is view w (v + 1)"
    by (rule increment_run [OF shared_counter_is [OF assms(1) p]])
  let ?s' = "(moved_to s i w (Trying a (v + 1)))\<lparr>increments := Suc (increments s)\<rparr>"
  have "search_step B i s ?s'"
    by (rule search_step.increments [OF assms(2) w(1)])
  moreover have "shared_counter view ?s' (v + 1)"
    using shared_counter_moved [OF assms(1) p w(2,3)] by simp
  moreover have "search_frame view s ?s'"
    using search_frame_moved [OF w(2)] by simp
  ultimately show ?thesis
    by (intro exI [of _ ?s']) simp
qed

lemma retry_once:
  assumes "shared_counter view s v" and "id_pcs s i = Trying a x" and "all_used view s" and "x \<noteq> a"
  shows "\<exists>s'. search_step B i s s' \<and> shared_counter view s' v \<and> id_pcs s' = (id_pcs s)(i := Searching a) \<and>
    search_frame view s s' \<and> increments s' = increments s"
proof -
  have used: "vnames (view (machine (world_of s i))) (getKey (to_string (unat x))) \<noteq> None"
    using assms(3) by (simp add: all_used_def)
  obtain w where w: "hasSharedMemory B (to_string (unat x)) (world_of s i) = (Inr True, w)" "counter_moved view (world_of s i) w"
    using has_run [of "to_string (unat x)" "world_of s i"] used by metis
  have "search_step B i s (moved_to s i w (Searching a))"
    by (rule search_step.retries [OF assms(2) w(1) assms(4)])
  moreover have "shared_counter view (moved_to s i w (Searching a)) v"
    using has_step [OF w(1)] assms(1) by simp
  ultimately show ?thesis
    using search_frame_moved [OF w(2)] by (intro exI [of _ "moved_to s i w (Searching a)"]) simp
qed

lemma find_once:
  assumes "shared_counter view s v" and "id_pcs s i = Trying a x"
    and "vnames (view (id_machine s)) (getKey (to_string (unat x))) = None"
  shows "\<exists>s'. search_step B i s s' \<and> shared_counter view s' v \<and> id_pcs s' = (id_pcs s)(i := Idle) \<and>
    vnames (view (id_machine s')) = vnames (view (id_machine s)) \<and>
    returned_ids s' = to_string (unat x) # returned_ids s \<and> increments s' = increments s"
proof -
  obtain w where w: "hasSharedMemory B (to_string (unat x)) (world_of s i) = (Inr False, w)" "counter_moved view (world_of s i) w"
    using has_run [of "to_string (unat x)" "world_of s i"] assms(3) by (metis world_of_recorded(4))
  let ?s' = "(moved_to s i w Idle)\<lparr>returned_ids := to_string (unat x) # returned_ids s\<rparr>"
  have "search_step B i s ?s'"
    by (rule search_step.finds [OF assms(2) w(1)])
  moreover have "shared_counter view ?s' v"
    using has_step [OF w(1)] assms(1) by simp
  ultimately show ?thesis
    using w(2) by (intro exI [of _ ?s']) (simp add: counter_moved_def)
qed

text \<open>One number tried by one process, without success.\<close>

lemma try_once:
  assumes "shared_counter view s v" and "id_pcs s i = Searching a" and "lastId (id_worlds s i) \<noteq> None"
    and "all_used view s" and "v + 1 \<noteq> a"
  shows "\<exists>s'. (search_step B i ^^ 2) s s' \<and> shared_counter view s' (v + 1) \<and> id_pcs s' = id_pcs s \<and>
    search_frame view s s' \<and> increments s' = Suc (increments s)"
proof -
  obtain s1 where s1: "search_step B i s s1" "shared_counter view s1 (v + 1)" "id_pcs s1 = (id_pcs s)(i := Trying a (v + 1))"
    "search_frame view s s1" "increments s1 = Suc (increments s)"
    using increment_once [OF assms(1-3)] by blast
  have "id_pcs s1 i = Trying a (v + 1)" "all_used view s1"
    using s1(3,4) assms(4) by (simp_all add: all_used_def search_frame_def)
  from retry_once [OF s1(2) this assms(5)] obtain s2 where s2: "search_step B i s1 s2" "shared_counter view s2 (v + 1)"
    "id_pcs s2 = (id_pcs s1)(i := Searching a)" "search_frame view s1 s2" "increments s2 = increments s1"
    by blast
  have "id_pcs s2 = id_pcs s"
    using s1(3) s2(3) assms(2) by auto
  moreover have "(search_step B i ^^ 2) s s2"
    using s1(1) s2(1) by (auto simp: numeral_eq_Suc)
  ultimately show ?thesis
    using s1 s2 search_frame_trans by (intro exI [of _ s2]) simp
qed

lemma crossed_round:
  assumes "crossed view a b s"
  shows "\<exists>s'. in_turns B s s' \<and> crossed view a b s' \<and> search_frame view s s' \<and> increments s' = increments s + 2"
proof -
  obtain v where c: "shared_counter view s v" "id_pcs s 0 = Searching a" "id_pcs s 1 = Searching b"
    "even (unat a) \<longleftrightarrow> even (unat v)" "even (unat b) \<longleftrightarrow> odd (unat v)" "all_used view s" "have_counter s {0, 1}"
    using assms unfolding crossed_def by blast
  have have_it: "lastId (id_worlds s 0) \<noteq> None" "lastId (id_worlds s 1) \<noteq> None"
    using c(7) by (simp_all add: have_counter_def)
  have "v + 1 \<noteq> a" "v + 1 + 1 \<noteq> b"
    using c(4,5) even_unat_Suc [of v] even_unat_Suc [of "v + 1"] by auto
  from try_once [OF c(1,2) have_it(1) c(6) this(1)] obtain s1 where
    s1: "(search_step B 0 ^^ 2) s s1" "shared_counter view s1 (v + 1)" "id_pcs s1 = id_pcs s" "search_frame view s s1"
      "increments s1 = Suc (increments s)"
    by blast
  have "id_pcs s1 1 = Searching b" "lastId (id_worlds s1 1) \<noteq> None" "all_used view s1"
    using s1(3,4) c(3,6) have_it by (simp_all add: search_frame_def all_used_def)
  from try_once [OF s1(2) this \<open>v + 1 + 1 \<noteq> b\<close>] obtain s2 where
    s2: "(search_step B 1 ^^ 2) s1 s2" "shared_counter view s2 (v + 1 + 1)" "id_pcs s2 = id_pcs s1" "search_frame view s1 s2"
      "increments s2 = Suc (increments s1)"
    by blast
  have fr: "search_frame view s s2"
    by (rule search_frame_trans [OF s1(4) s2(4)])
  then have "all_used view s2" "have_counter s2 {0, 1}"
    using c(6,7) by (simp_all add: search_frame_def all_used_def have_counter_def)
  then have "crossed view a b s2"
    unfolding crossed_def using s2(2,3) s1(3) c(2-5) even_unat_Suc [of v] even_unat_Suc [of "v + 1"]
    by (intro conjI exI [of _ "v + 1 + 1"]) simp_all
  moreover have "in_turns B s s2"
    using s1(1) s2(1) unfolding in_turns_def by blast
  ultimately show ?thesis
    using s1(5) s2(5) fr by (intro exI [of _ s2]) simp
qed

text \<open>An infinite run of rounds.\<close>

lemma crossed_forever:
  assumes "crossed view a b s"
  shows "\<exists>f. f 0 = s \<and> (\<forall>n. in_turns B (f n) (f (Suc n)) \<and> crossed view a b (f n) \<and> search_frame view s (f n) \<and>
    increments (f n) = increments s + 2 * n)"
proof -
  let ?ok = "\<lambda>n t. crossed view a b t \<and> search_frame view s t \<and> increments t = increments s + 2 * n \<and> (n = 0 \<longrightarrow> t = s)"
  have "\<exists>f. \<forall>n. ?ok n (f n) \<and> in_turns B (f n) (f (Suc n))"
  proof (rule dependent_nat_choice [where P = ?ok and Q = "\<lambda>n. in_turns B"])
    show "\<exists>t. ?ok 0 t"
      using assms by (intro exI [of _ s]) (simp add: search_frame_def)
    show "\<exists>u. ?ok (Suc n) u \<and> in_turns B t u" if "?ok n t" for t n
    proof -
      note ok = that
      obtain u where u: "in_turns B t u" "crossed view a b u" "search_frame view t u" "increments u = increments t + 2"
        using crossed_round ok by blast
      have "search_frame view s u"
        using search_frame_trans u(3) ok by blast
      then show ?thesis
        using u ok by (intro exI [of _ u]) simp
    qed
  qed
  then show ?thesis
    by metis
qed

text \<open>Process 0 begins, gets a number, process 1 begins: from then on neither ends.\<close>

lemma start_crossed:
  assumes "id_start view start s" and "all_used view s" and "have_counter s {0, 1}"
  shows "\<exists>s' a b. (two_step B)\<^sup>*\<^sup>* s s' \<and> crossed view a b s' \<and> search_frame view s s'"
proof -
  have s: "shared_counter view s start" "id_pcs s i = Idle" for i
    using assms(1) by (simp_all add: id_start_def)
  have keeps: "lastId (id_worlds s' i) \<noteq> None" "all_used view s'" "have_counter s' {0, 1}"
    if "search_frame view s s'" "i \<in> {0, 1}" for s' i
    using that assms(2,3) by (auto simp: search_frame_def all_used_def have_counter_def)
  have "lastId (id_worlds s 0) \<noteq> None"
    using assms(3) by (simp add: have_counter_def)
  from begin_once [OF s(1,2) this] obtain s1 where s1: "search_step B 0 s s1" "shared_counter view s1 start"
    "id_pcs s1 = (id_pcs s)(0 := Searching start)" "search_frame view s s1"
    by blast
  have "id_pcs s1 0 = Searching start"
    using s1(3) by simp
  from increment_once [OF s1(2) this keeps(1) [OF s1(4)]] obtain s2 where s2: "search_step B 0 s1 s2"
    "shared_counter view s2 (start + 1)" "id_pcs s2 = (id_pcs s1)(0 := Trying start (start + 1))" "search_frame view s1 s2"
    by auto
  note f2 = search_frame_trans [OF s1(4) s2(4)]
  have "id_pcs s2 1 = Idle"
    using s1(3) s2(3) s(2) by simp
  from begin_once [OF s2(2) this keeps(1) [OF f2]] obtain s3 where s3: "search_step B 1 s2 s3"
    "shared_counter view s3 (start + 1)" "id_pcs s3 = (id_pcs s2)(1 := Searching (start + 1))" "search_frame view s2 s3"
    by auto
  note f3 = search_frame_trans [OF f2 s3(4)]
  have "id_pcs s3 0 = Trying start (start + 1)"
    using s2(3) s3(3) by simp
  from retry_once [OF s3(2) this keeps(2) [OF f3, of 0]] obtain s4 where s4: "search_step B 0 s3 s4"
    "shared_counter view s4 (start + 1)" "id_pcs s4 = (id_pcs s3)(0 := Searching start)" "search_frame view s3 s4"
    by auto
  note f4 = search_frame_trans [OF f3 s4(4)]
  have pcs4: "id_pcs s4 0 = Searching start" "id_pcs s4 1 = Searching (start + 1)"
    using s3(3) s4(3) by simp_all
  from try_once [OF s4(2) pcs4(2) keeps(1) [OF f4] keeps(2) [OF f4, of 0]] obtain s5 where
    s5: "(search_step B 1 ^^ 2) s4 s5" "shared_counter view s5 (start + 1 + 1)" "id_pcs s5 = id_pcs s4" "search_frame view s4 s5"
    by auto
  note f5 = search_frame_trans [OF f4 s5(4)]
  have "crossed view start (start + 1) s5"
    unfolding crossed_def using s5(2,3) pcs4 keeps(2,3) [OF f5, of 0] even_unat_Suc [of start] even_unat_Suc [of "start + 1"]
    by (intro conjI exI [of _ "start + 1 + 1"]) simp_all
  moreover obtain s4' where s4': "search_step B 1 s4 s4'" "search_step B 1 s4' s5"
    using s5(1) by (auto simp: numeral_eq_Suc)
  have "(two_step B)\<^sup>*\<^sup>* s s5"
    using two_stepI(1) [OF s1(1)] two_stepI(1) [OF s2(1)] two_stepI(2) [OF s3(1)] two_stepI(1) [OF s4(1)]
      two_stepI(2) [OF s4'(1)] two_stepI(2) [OF s4'(2)] by (meson converse_rtranclp_into_rtranclp rtranclp.rtrancl_refl)
  ultimately show ?thesis
    using f5 by blast
qed

end

end
