(* ===== verification/SetupRace.thy ===== *)
theory SetupRace
  imports PkgData PosixShm "HOL-Library.Code_Target_Numeral"
begin

text \<open>
  Several processes in \<open>initialPkgData\<close> of \<open>src/sharedMemory.cpp\<close> at once: the constructor of the lock
  \<open>auto_semophore\<close>, its \<open>lock\<close>, the accesses of \<open>open_counter\<close> to the shared memory and the destructor
  are the steps, and a process that is done may ask for ids.
\<close>

section \<open>The steps of the set-up\<close>

text \<open>
  A guard, and whether its \<open>lock\<close> got the semaphore (it warns when it did not, and goes on).
\<close>

type_synonym lock_guard = "auto_semophore \<times> bool"

text \<open>
  Where a process is: before the constructor of the guard, before \<open>lock\<close>, before the question whether the
  counter exists, before mapping a counter that exists, before making one, before mapping the one it
  made, before setting it to 0, before storing the pointer and leaving the block, or done.
\<close>

datatype setup_pc = Unset | Locking auto_semophore | Looking lock_guard | Attaching lock_guard
  | Making lock_guard | Made lock_guard | Resetting lock_guard ptr | Leaving lock_guard ptr | Ready

record 'os setup_state =
  setup_machine :: 'os
  setup_worlds :: "nat \<Rightarrow> 'os world"
  setup_pcs :: "nat \<Rightarrow> setup_pc"
  handed_out :: "(nat \<times> string) list"

definition setup_world :: "'os setup_state \<Rightarrow> nat \<Rightarrow> 'os world" where
  "setup_world s i = (setup_worlds s i)\<lparr>machine := setup_machine s\<rparr>"

definition setup_to :: "'os setup_state \<Rightarrow> nat \<Rightarrow> 'os world \<Rightarrow> setup_pc \<Rightarrow> 'os setup_state" where
  "setup_to s i w pc =
     s\<lparr>setup_machine := machine w, setup_worlds := (setup_worlds s)(i := w), setup_pcs := (setup_pcs s)(i := pc)\<rparr>"

definition look_for_counter :: "'os boost \<Rightarrow> (('os, 'z) world_scheme, bool) exec" where
  "look_for_counter B = (\<lambda>w. case SO_hasSharedMemory B SHARED_OBJECT_COUNTER (machine w) of (b, m) \<Rightarrow> (Inr b, w\<lparr>machine := m\<rparr>))"

text \<open>The next access of a process, with the place where it leaves it.\<close>

fun setup_access :: "'os boost \<Rightarrow> setup_pc \<Rightarrow> (('os, 'z) world_scheme, setup_pc) exec" where
  "setup_access B Unset = andThen (auto_semophore_new B) (\<lambda>g. ok (Locking g))"
| "setup_access B (Locking g) = (\<lambda>w.
     andThen (auto_semophore_lock B g) (\<lambda>g' w'. (Inr (Looking (g', warnings w' = warnings w)), w')) w)"
| "setup_access B (Looking h) = andThen (look_for_counter B) (\<lambda>has. ok (if has then Attaching h else Making h))"
| "setup_access B (Attaching h) = andThen (mapSharedMemoryInternal B SHARED_OBJECT_COUNTER) (\<lambda>p. ok (Leaving h p))"
| "setup_access B (Making h) =
     andThen (allocateSharedMemoryInternal B SHARED_OBJECT_COUNTER (of_nat sizeof_atomic_uint64)) (\<lambda>_. ok (Made h))"
| "setup_access B (Made h) = andThen (mapSharedMemoryInternal B SHARED_OBJECT_COUNTER) (\<lambda>p. ok (Resetting h p))"
| "setup_access B (Resetting h p) = andThen (store_counter B p 0) (\<lambda>_. ok (Leaving h p))"
| "setup_access B (Leaving h p) = (\<lambda>w. (Inr Ready, auto_semophore_delete B (fst h) (w\<lparr>lastId := Some p\<rparr>)))"
| "setup_access B Ready = ok Ready"

text \<open>The guard of a process, which the destructor releases when an exception leaves the block.\<close>

fun setup_guard :: "setup_pc \<Rightarrow> auto_semophore option" where
  "setup_guard Unset = None"
| "setup_guard (Locking g) = Some g"
| "setup_guard (Looking h) = Some (fst h)"
| "setup_guard (Attaching h) = Some (fst h)"
| "setup_guard (Making h) = Some (fst h)"
| "setup_guard (Made h) = Some (fst h)"
| "setup_guard (Resetting h p) = Some (fst h)"
| "setup_guard (Leaving h p) = Some (fst h)"
| "setup_guard Ready = None"

definition unwind :: "'os boost \<Rightarrow> setup_pc \<Rightarrow> ('os, 'z) world_scheme \<Rightarrow> ('os, 'z) world_scheme" where
  "unwind B pc w = (case setup_guard pc of None \<Rightarrow> w | Some g \<Rightarrow> auto_semophore_delete B g w)\<lparr>lastId := None\<rparr>"

inductive setup_step :: "'os boost \<Rightarrow> 'os setup_state \<Rightarrow> 'os setup_state \<Rightarrow> bool" for B s where
  proceeds: "setup_pcs s i \<noteq> Ready \<Longrightarrow> setup_access B (setup_pcs s i) (setup_world s i) = (Inr pc, w) \<Longrightarrow>
    setup_step B s (setup_to s i w pc)"
| throws: "setup_pcs s i \<noteq> Ready \<Longrightarrow> setup_access B (setup_pcs s i) (setup_world s i) = (Inl (CppError what), w) \<Longrightarrow>
    setup_step B s (setup_to s i (unwind B (setup_pcs s i) w) Unset)"
| asks: "setup_pcs s i = Ready \<Longrightarrow> getNextId B (setup_world s i) = (Inr ident, w) \<Longrightarrow>
    setup_step B s ((setup_to s i w Ready)\<lparr>handed_out := (i, ident) # handed_out s\<rparr>)"

definition setup_start :: "'os \<Rightarrow> 'os setup_state" where
  "setup_start m = \<lparr>setup_machine = m, setup_worlds = (\<lambda>i. world_init m), setup_pcs = (\<lambda>i. Unset), handed_out = []\<rparr>"

lemma setup_to_simps [simp]:
  "setup_pcs (setup_to s i w pc) = (setup_pcs s)(i := pc)" "setup_machine (setup_to s i w pc) = machine w"
  "setup_worlds (setup_to s i w pc) = (setup_worlds s)(i := w)" "handed_out (setup_to s i w pc) = handed_out s"
  "setup_world (setup_to s i w pc) i = w"
  by (simp_all add: setup_to_def setup_world_def)

section \<open>One process alone\<close>

text \<open>Without interruption the steps are the function \<open>initialPkgData\<close>.\<close>

definition setup_alone :: "'os boost \<Rightarrow> nat \<Rightarrow> 'os setup_state \<Rightarrow> 'os world \<Rightarrow> setup_pc \<Rightarrow> bool" where
  "setup_alone B i s w pc \<longleftrightarrow> (\<exists>s'. (setup_step B)\<^sup>*\<^sup>* s s' \<and> setup_pcs s' i = pc \<and> setup_world s' i = w)"

lemma setup_alone_refl: "setup_alone B i s (setup_world s i) (setup_pcs s i)"
  unfolding setup_alone_def by blast

lemma setup_alone_step:
  assumes "setup_alone B i s w pc" and "pc \<noteq> Ready" and "setup_access B pc w = (Inr pc', w')"
  shows "setup_alone B i s w' pc'"
proof -
  obtain s' where s': "(setup_step B)\<^sup>*\<^sup>* s s'" "setup_pcs s' i = pc" "setup_world s' i = w"
    using assms(1) unfolding setup_alone_def by blast
  have "setup_step B s' (setup_to s' i w' pc')"
    using assms(2,3) s' by (intro setup_step.proceeds) simp_all
  with s'(1) have "(setup_step B)\<^sup>*\<^sup>* s (setup_to s' i w' pc')"
    by simp
  then show ?thesis
    unfolding setup_alone_def by (intro exI [of _ "setup_to s' i w' pc'"]) simp
qed

lemma open_counter_steps:
  assumes "setup_alone B i s w (Looking h)" and "open_counter B w = (Inr p, w')"
  shows "setup_alone B i s w' (Leaving h p)"
proof -
  obtain has w1 where look: "look_for_counter B w = (Inr has, w1)"
    and rest: "(if has then mapSharedMemoryInternal B SHARED_OBJECT_COUNTER
      else andThen (allocateSharedMemoryInternal B SHARED_OBJECT_COUNTER (of_nat sizeof_atomic_uint64))
        (\<lambda>_. andThen (mapSharedMemoryInternal B SHARED_OBJECT_COUNTER)
           (\<lambda>ptr. andThen (store_counter B ptr 0) (\<lambda>_. ok ptr)))) w1 = (Inr p, w')"
    using assms(2) unfolding open_counter_def look_for_counter_def [symmetric] by (auto elim!: andThen_InrE)
  have one: "setup_alone B i s w1 (if has then Attaching h else Making h)"
    using assms(1) by (rule setup_alone_step) (simp_all add: andThen_run look ok_run)
  show ?thesis
  proof (cases has)
    case True
    then have "setup_alone B i s w1 (Attaching h)"
      using one by simp
    then show ?thesis
      by (rule setup_alone_step) (use True rest in \<open>simp_all add: andThen_run ok_run\<close>)
  next
    case False
    then obtain u w2 p' w3 v where steps:
      "allocateSharedMemoryInternal B SHARED_OBJECT_COUNTER (of_nat sizeof_atomic_uint64) w1 = (Inr u, w2)"
      "mapSharedMemoryInternal B SHARED_OBJECT_COUNTER w2 = (Inr p', w3)" "store_counter B p' 0 w3 = (Inr v, w')" "p' = p"
      using rest by (auto simp: ok_run elim!: andThen_InrE)
    have "setup_alone B i s w1 (Making h)"
      using one False by simp
    then have "setup_alone B i s w2 (Made h)"
      by (rule setup_alone_step) (simp_all add: andThen_run ok_run steps(1))
    then have "setup_alone B i s w3 (Resetting h p')"
      by (rule setup_alone_step) (simp_all add: andThen_run ok_run steps(2))
    then have "setup_alone B i s w' (Leaving h p')"
      by (rule setup_alone_step) (simp_all add: andThen_run ok_run steps(3))
    then show ?thesis
      using steps(4) by simp
  qed
qed

lemma initialPkgData_steps:
  assumes "initialPkgData B (setup_world s i) = (Inr u, w)" and "setup_pcs s i = Unset" and "lastId (setup_world s i) = None"
  shows "setup_alone B i s w Ready"
proof -
  have "initialPkgData_try B (setup_world s i) = (Inr u, w)"
    using assms(1,3) by (auto simp: initialPkgData_def catchCpp_def throwError_run split: prod.splits sum.splits so_error.splits)
  then obtain g w1 g' w2 p w3 where steps: "auto_semophore_new B (setup_world s i) = (Inr g, w1)"
    "auto_semophore_lock B g w1 = (Inr g', w2)" "open_counter B w2 = (Inr p, w3)"
    "w = auto_semophore_delete B g (w3\<lparr>lastId := Some p\<rparr>)"
    unfolding initialPkgData_try_def
    by (auto elim!: andThen_InrE split: prod.splits sum.splits)
  have "g' = g"
    using steps(2) by (auto simp: auto_semophore_lock_def split: prod.splits)
  have "setup_alone B i s w1 (Locking g)"
    using setup_alone_refl [of B i s] by (rule setup_alone_step) (simp_all add: assms(2) andThen_run ok_run steps(1))
  then have "setup_alone B i s w2 (Looking (g', warnings w2 = warnings w1))"
    by (rule setup_alone_step) (simp_all add: andThen_run steps(2))
  from open_counter_steps [OF this steps(3)] have "setup_alone B i s w3 (Leaving (g', warnings w2 = warnings w1) p)" .
  then show ?thesis
    by (rule setup_alone_step) (simp_all add: steps(4) \<open>g' = g\<close>)
qed

section \<open>Schedules\<close>

text \<open>The step of one process as a function, and a schedule as the list of the processes that take the steps.\<close>

definition advance :: "'os boost \<Rightarrow> nat \<Rightarrow> 'os setup_state \<Rightarrow> 'os setup_state" where
  "advance B i s =
     (if setup_pcs s i = Ready
      then (case getNextId B (setup_world s i) of
         (Inr ident, w) \<Rightarrow> (setup_to s i w Ready)\<lparr>handed_out := (i, ident) # handed_out s\<rparr>
       | (Inl e, w) \<Rightarrow> s)
      else (case setup_access B (setup_pcs s i) (setup_world s i) of
         (Inr pc, w) \<Rightarrow> setup_to s i w pc
       | (Inl (CppError what), w) \<Rightarrow> setup_to s i (unwind B (setup_pcs s i) w) Unset
       | (Inl e, w) \<Rightarrow> s))"

definition scheduled :: "'os boost \<Rightarrow> nat list \<Rightarrow> 'os setup_state \<Rightarrow> 'os setup_state" where
  "scheduled B is s = fold (advance B) is s"

lemma advance_step: "(setup_step B)\<^sup>*\<^sup>* s (advance B i s)"
  by (auto simp: advance_def intro: setup_step.intros split: prod.split sum.split so_error.split)

lemma scheduled_steps: "(setup_step B)\<^sup>*\<^sup>* s (scheduled B is s)"
  unfolding scheduled_def
proof (induction "is" arbitrary: s)
  case (Cons i "is")
  then show ?case
    using advance_step rtranclp_trans by fastforce
qed simp

lemma scheduled_append: "scheduled B (is @ js) s = scheduled B js (scheduled B is s)"
  by (simp add: scheduled_def)

section \<open>A late reset\<close>

text \<open>
  Process 0 takes the lock and makes the counter. Process 1 waits for the lock in vain, proceeds without it and
  leaves, which removes the name of the semaphore. Process 2 makes a semaphore of its own and takes that.
\<close>

definition until_timed_out :: "nat list" where
  "until_timed_out = [0, 0, 0, 0, 0] @ [1, 1, 1, 1]"

definition until_both_locked :: "nat list" where
  "until_both_locked = [1] @ [2, 2]"

text \<open>Then process 2 finds the counter and gets an id, process 0 sets the counter to 0 and gets an id.\<close>

definition until_both_asked :: "nat list" where
  "until_both_asked = [2, 2, 2, 2] @ [0, 0, 0]"

lemma timed_out:
  "setup_pcs (scheduled posix_boost until_timed_out (setup_start posix_init)) 0 = Resetting (\<lparr>semaphore = 0, locked = False\<rparr>, True) (Ptr 0 0)"
  "setup_pcs (scheduled posix_boost until_timed_out (setup_start posix_init)) 1 = Leaving (\<lparr>semaphore = 0, locked = False\<rparr>, False) (Ptr 1 0)"
  by code_simp+

lemma both_locked:
  "setup_pcs (scheduled posix_boost (until_timed_out @ until_both_locked) (setup_start posix_init)) 0 =
    Resetting (\<lparr>semaphore = 0, locked = False\<rparr>, True) (Ptr 0 0)"
  "setup_pcs (scheduled posix_boost (until_timed_out @ until_both_locked) (setup_start posix_init)) 2 =
    Looking (\<lparr>semaphore = 1, locked = False\<rparr>, True)"
  by code_simp+

lemma both_asked:
  "handed_out (scheduled posix_boost (until_timed_out @ until_both_locked) (setup_start posix_init)) = []"
  "handed_out (scheduled posix_boost ((until_timed_out @ until_both_locked) @ until_both_asked) (setup_start posix_init)) = [(0, ''1''), (2, ''1'')]"
  by code_simp+

end
