(* ===== verification/IdProps.thy ===== *)
theory IdProps
  imports IdRace SetupRace
begin

text \<open>
  The properties of several processes that ask for an id at once.
\<close>

section \<open>Two processes with the counter\<close>

text \<open>
  The counter is object 0, mapped by process 0 and by process 1; the first \<open>n\<close> numbers are in use (their
  names may all refer to the same object).
\<close>

definition demo_counter :: "nat \<Rightarrow> posix" where
  "demo_counter n = posix_init\<lparr>
     p_names := (SHARED_OBJECT_COUNTER, 0) # map (\<lambda>x. (getKey (to_string x), 0)) [0..<n],
     p_objs := [(0, replicate 8 0)], p_regions := [(0, 0), (1, 0)]\<rparr>"

definition demo_ids :: "nat \<Rightarrow> posix id_state" where
  "demo_ids n = \<lparr>id_machine = demo_counter n,
     id_worlds = (\<lambda>i. (world_init (demo_counter n))\<lparr>lastId := if i < 2 then Some (Ptr i 0) else None\<rparr>),
     id_pcs = (\<lambda>i. Idle), increments = 0, returned_ids = [], id_errors = []\<rparr>"

lemma demo_ids_simps:
  "id_worlds (demo_ids n) 0 = (world_init (demo_counter n))\<lparr>lastId := Some (Ptr 0 0)\<rparr>"
  "id_worlds (demo_ids n) 1 = (world_init (demo_counter n))\<lparr>lastId := Some (Ptr 1 0)\<rparr>"
  "id_machine (demo_ids n) = demo_counter n" "id_pcs (demo_ids n) i = Idle"
  "increments (demo_ids n) = 0" "returned_ids (demo_ids n) = []" "id_errors (demo_ids n) = []"
  by (simp_all add: demo_ids_def)

lemma demo_counter_view:
  "vobjs (posix_view (demo_counter n)) 0 = replicate 8 0"
  "i < 2 \<Longrightarrow> vregions (posix_view (demo_counter n)) i = Some 0"
  "vnames (posix_view (demo_counter n)) (getKey (to_string k)) = (if k < n then Some 0 else None)"
proof -
  show "vobjs (posix_view (demo_counter n)) 0 = replicate 8 0"
    by (simp add: demo_counter_def posix_view_def objs_of_def)
  show "vregions (posix_view (demo_counter n)) i = Some 0" if "i < 2"
    using that by (cases i) (auto simp: demo_counter_def posix_view_def)
  have "map_of (map (\<lambda>x. (getKey (to_string x), 0 :: nat)) xs) (getKey (to_string k)) = (if k \<in> set xs then Some 0 else None)" for xs
    by (induction xs) auto
  then show "vnames (posix_view (demo_counter n)) (getKey (to_string k)) = (if k < n then Some 0 else None)"
    by (simp add: demo_counter_def posix_view_def)
qed

lemma demo_ids_start: "id_start posix_view 0 (demo_ids n)"
proof -
  have "from_le (slice 0 8 (replicate 8 0)) = 0"
    by (simp add: slice_def numeral_eq_Suc)
  then have "shared_counter posix_view (demo_ids n) 0"
    unfolding shared_counter_def
    by (intro exI [of _ 0]) (auto simp: demo_ids_def demo_counter_view simp del: posix_view_simps replicate.simps split: if_splits)
  then show ?thesis
    by (simp add: id_start_def demo_ids_simps)
qed

lemma demo_ids_ready: "have_counter (demo_ids n) {0, 1}"
  using demo_ids_simps(1,2) [of n] by (simp add: have_counter_def del: One_nat_def)

text \<open>Both processes are in the search at the same time.\<close>

lemma demo_ids_run:
  "\<exists>s'. (id_step posix_boost posix_view)\<^sup>*\<^sup>* (demo_ids 0) s' \<and> increments s' = 2 \<and>
     returned_ids s' = [to_string (unat (1 + 1 :: u64)), to_string (unat (1 :: u64))]"
proof -
  let ?step = "search_step posix_boost" and ?s = "demo_ids 0"
  note live = posix.shm_os_live_axioms
  have start: "shared_counter posix_view ?s 0"
    using demo_ids_start [of 0] by (simp add: id_start_def)
  have ids: "lastId (id_worlds ?s 0) \<noteq> None" "lastId (id_worlds ?s 1) \<noteq> None"
    using demo_ids_ready [of 0] by (simp_all add: have_counter_def)
  from shm_os_live.begin_once [OF live start demo_ids_simps(4) ids(1)] obtain s1 where s1: "?step 0 ?s s1"
    "shared_counter posix_view s1 0" "id_pcs s1 = (id_pcs ?s)(0 := Searching 0)" "search_frame posix_view ?s s1" "increments s1 = 0"
    by (auto simp: demo_ids_simps)
  have "id_pcs s1 1 = Idle" "lastId (id_worlds s1 1) \<noteq> None"
    using s1(3,4) ids(2) by (simp_all add: demo_ids_simps search_frame_def)
  from shm_os_live.begin_once [OF live s1(2) this] obtain s2 where s2: "?step 1 s1 s2"
    "shared_counter posix_view s2 0" "id_pcs s2 = (id_pcs s1)(1 := Searching 0)" "search_frame posix_view s1 s2" "increments s2 = 0"
    using s1(5) by auto
  note f2 = search_frame_trans [OF s1(4) s2(4)]
  have "id_pcs s2 0 = Searching 0" "lastId (id_worlds s2 0) \<noteq> None"
    using s1(3) s2(3) f2 ids(1) by (simp_all add: search_frame_def)
  from shm_os_live.increment_once [OF live s2(2) this] obtain s3 where s3: "?step 0 s2 s3"
    "shared_counter posix_view s3 (0 + 1)" "id_pcs s3 = (id_pcs s2)(0 := Trying 0 (0 + 1))" "search_frame posix_view s2 s3"
    "increments s3 = 1"
    using s2(5) by auto
  note f3 = search_frame_trans [OF f2 s3(4)]
  have "id_pcs s3 1 = Searching 0" "lastId (id_worlds s3 1) \<noteq> None"
    using s2(3) s3(3) f3 ids(2) by (simp_all add: search_frame_def)
  from shm_os_live.increment_once [OF live s3(2) this] obtain s4 where s4: "?step 1 s3 s4"
    "shared_counter posix_view s4 (0 + 1 + 1)" "id_pcs s4 = (id_pcs s3)(1 := Trying 0 (0 + 1 + 1))"
    "search_frame posix_view s3 s4" "increments s4 = 2"
    using s3(5) by auto
  note f4 = search_frame_trans [OF f3 s4(4)]
  have free: "vnames (posix_view (id_machine s4)) (getKey (to_string k)) = None" for k
    using f4 demo_counter_view(3) [of 0 k] by (simp add: search_frame_def demo_ids_simps del: posix_view_simps)
  have "id_pcs s4 0 = Trying 0 (0 + 1)" "id_pcs s4 1 = Trying 0 (0 + 1 + 1)"
    using s3(3) s4(3) by simp_all
  note pcs4 = this
  from shm_os_live.find_once [OF live s4(2) pcs4(1) free] obtain s5 where s5: "?step 0 s4 s5"
    "shared_counter posix_view s5 (0 + 1 + 1)" "id_pcs s5 = (id_pcs s4)(0 := Idle)"
    "vnames (posix_view (id_machine s5)) = vnames (posix_view (id_machine s4))"
    "returned_ids s5 = to_string (unat (0 + 1 :: u64)) # returned_ids s4" "increments s5 = 2"
    using s4(5) by auto
  have "id_pcs s5 1 = Trying 0 (0 + 1 + 1)" "vnames (posix_view (id_machine s5)) (getKey (to_string k)) = None" for k
    using s5(3,4) pcs4(2) free by (simp_all del: posix_view_simps)
  from shm_os_live.find_once [OF live s5(2) this] obtain s6 where s6: "?step 1 s5 s6"
    "returned_ids s6 = to_string (unat (0 + 1 + 1 :: u64)) # returned_ids s5" "increments s6 = 2"
    using s5(6) by auto
  note searches = id_step.searches [where view = posix_view]
  have "(id_step posix_boost posix_view)\<^sup>*\<^sup>* ?s s6"
    using searches [OF s1(1)] searches [OF s2(1)] searches [OF s3(1)] searches [OF s4(1)] searches [OF s5(1)] searches [OF s6(1)] by (meson converse_rtranclp_into_rtranclp rtranclp.rtrancl_refl)
  moreover have "returned_ids s4 = []"
    using f4 by (simp add: search_frame_def demo_ids_simps)
  ultimately show ?thesis
    using s5(5) s6(2,3) by (intro exI [of _ s6]) simp
qed

section \<open>Properties\<close>

text \<open>
  C9. Ids are process-safe: whatever processes sharing the counter search for ids at the same time, in any interleaving
  of their accesses, and whatever else happens to the machine outside the counter, no two calls of
  \<open>getNextId\<close> return the same id before the counter has gone round.
\<close>

theorem distinct_ids:
  assumes "shm_os B view" and "id_start view start s" and "(id_step B view)\<^sup>*\<^sup>* s s'" and "increments s' < 2 ^ 64"
  shows "distinct (returned_ids s')"
  using assms by (rule shm_os.returned_ids_distinct)

theorem distinct_ids_witness: "to_string (unat (1 + 1 :: u64)) \<noteq> to_string (unat (1 :: u64))"
proof -
  obtain s' where "(id_step posix_boost posix_view)\<^sup>*\<^sup>* (demo_ids 0) s'" "increments s' = 2"
    "returned_ids s' = [to_string (unat (1 + 1 :: u64)), to_string (unat (1 :: u64))]"
    using demo_ids_run by blast
  then show ?thesis
    using distinct_ids [OF posix_shm_os demo_ids_start, of 0 s'] by simp
qed

text \<open>
  C10. The steps of a search refine \<open>getNextId\<close>: when a process runs without interruption, and
  the behaviour of the function is defined, the call ends in exactly one state, whatever it has done so far leads to that state, and there the process has returned
  the id of the function, or thrown the error it throws, and the memory and the machine are those the
  function leaves.
\<close>

theorem getNextId_steps_refine:
  assumes "getNextId B (world_of s i) = (r, w)" and "answered r" and "id_pcs s i = Idle"
  shows "\<exists>s'. after_call s i r w s' \<and> (\<forall>s1. completes B i s s1 \<longleftrightarrow> s1 = s') \<and>
    (\<forall>s1. during B i s s1 \<longrightarrow> (in_search B i)\<^sup>*\<^sup>* s1 s')"
  using getNextId_steps [OF assms] completes_unique during_completes by metis

theorem getNextId_steps_refine_witness:
  "\<exists>s' ident. completes posix_boost 0 (demo_ids 1) s' \<and> returned_ids s' = [ident] \<and> id_errors s' = []"
proof -
  let ?w = "world_of (demo_ids 1) 0"
  have used: "id_used posix_view ?w x \<longleftrightarrow> unat x < 1" for x :: u64
    by (simp add: id_used_def demo_ids_simps demo_counter_view(3) del: posix_view_simps)
  have "counter_is posix_view ?w 0"
    using shared_counter_is [of posix_view "demo_ids 1" 0 0 "Ptr 0 0"] demo_ids_start [of 1] demo_ids_simps(1) [of 1]
    by (simp add: id_start_def del: posix_view_simps)
  from shm_os_live.getNextId_run [OF posix.shm_os_live_axioms this] obtain w k where
    run: "getNextId posix_boost ?w = (if id_used posix_view ?w (0 + of_nat k) then Inl (CppError no_key_message)
       else Inr (to_string (unat (0 + of_nat k :: u64))), w)"
    and tried: "\<forall>l. 0 < l \<and> l < k \<longrightarrow> id_used posix_view ?w (0 + of_nat l)"
    and last: "id_used posix_view ?w (0 + of_nat k) \<longrightarrow> k = 2 ^ 64"
    by blast
  have "\<not> id_used posix_view ?w (0 + of_nat 1)"
    unfolding used by simp
  moreover have "(1 :: nat) < 2 ^ 64"
    by simp
  ultimately have "\<not> id_used posix_view ?w (0 + of_nat k)"
    using tried last zero_less_one by metis
  then have "getNextId posix_boost ?w = (Inr (to_string (unat (0 + of_nat k :: u64))), w)"
    using run by simp
  from getNextId_steps_refine [OF this _ demo_ids_simps(4)] show ?thesis
    by (auto simp: demo_ids_simps answer_def thrown_def answered_def after_call_def)
qed

text \<open>
  C40. The end of the search is not process-safe: when all numbers are in use, two processes that do nothing
  but search can reach a state from which there is an infinite run in turns (two accesses of the one, two of
  the other, each round) in which both are in the same call all the time, and neither returns or throws.
\<close>

theorem search_starves:
  assumes "shm_os_live B view" and "id_start view start s" and "all_used view s" and "have_counter s {0, 1}"
  shows "\<exists>f a b. (two_step B)\<^sup>*\<^sup>* s (f 0) \<and> (\<forall>n. in_turns B (f n) (f (Suc n)) \<and> id_pcs (f n) 0 = Searching a \<and>
    id_pcs (f n) 1 = Searching b \<and> returned_ids (f n) = [] \<and> id_errors (f n) = [])"
proof -
  obtain s1 a b where s1: "(two_step B)\<^sup>*\<^sup>* s s1" "crossed view a b s1" "search_frame view s s1"
    using shm_os_live.start_crossed [OF assms] by blast
  obtain f where f: "f 0 = s1" "\<forall>n. in_turns B (f n) (f (Suc n)) \<and> crossed view a b (f n) \<and> search_frame view s1 (f n) \<and>
      increments (f n) = increments s1 + 2 * n"
    using shm_os_live.crossed_forever [OF assms(1) s1(2)] by blast
  have "returned_ids (f n) = [] \<and> id_errors (f n) = []" for n
    using f(2) s1(3) assms(2) by (simp add: search_frame_def id_start_def)
  then show ?thesis
    using s1(1) f unfolding crossed_def by metis
qed

theorem search_starves_witness:
  "\<exists>f. (two_step posix_boost)\<^sup>*\<^sup>* (demo_ids (2 ^ 64)) (f 0) \<and> (\<forall>n. in_turns posix_boost (f n) (f (Suc n)) \<and> id_errors (f n) = [])"
proof -
  have "unat x < 2 ^ 64" for x :: u64
    using unsigned_less [of x] by simp
  then have "all_used posix_view (demo_ids (2 ^ 64))"
    unfolding all_used_def demo_ids_simps(3) demo_counter_view(3) by simp
  from search_starves [OF posix.shm_os_live_axioms demo_ids_start this demo_ids_ready] show ?thesis
    by blast
qed

section \<open>Setting up the counter\<close>

text \<open>
  C39. The lock does not keep the set-up of the counter safe. On the reference machine a run is possible in which
  a process has got the lock and is about to set the counter it made to 0, a second one, whose \<open>lock\<close> on the same
  semaphore timed out, is about to leave; then a third one gets the lock too, on a semaphore of its own, while
  the first one still is where it was; from there both finish, and \<open>getNextId\<close> gives them the same id.
\<close>

theorem late_reset:
  "\<exists>s0 s s' g h p q. (setup_step posix_boost)\<^sup>*\<^sup>* (setup_start posix_init) s0 \<and>
    setup_pcs s0 0 = Resetting (g, True) p \<and> setup_pcs s0 1 = Leaving (g, False) q \<and>
    (setup_step posix_boost)\<^sup>*\<^sup>* s0 s \<and>
    setup_pcs s 0 = Resetting (g, True) p \<and> setup_pcs s 2 = Looking (h, True) \<and> semaphore g \<noteq> semaphore h \<and>
    (setup_step posix_boost)\<^sup>*\<^sup>* s s' \<and> handed_out s = [] \<and> handed_out s' = [(0, ''1''), (2, ''1'')]"
proof -
  let ?early = "scheduled posix_boost until_timed_out (setup_start posix_init)"
  let ?both = "scheduled posix_boost until_both_locked ?early"
  have "(setup_step posix_boost)\<^sup>*\<^sup>* (setup_start posix_init) ?early" "(setup_step posix_boost)\<^sup>*\<^sup>* ?early ?both"
    "(setup_step posix_boost)\<^sup>*\<^sup>* ?both (scheduled posix_boost until_both_asked ?both)"
    by (rule scheduled_steps)+
  then show ?thesis
    using timed_out both_locked both_asked unfolding scheduled_append
    by (intro exI [of _ ?early] exI [of _ ?both] exI [of _ "scheduled posix_boost until_both_asked ?both"]) simp
qed

end
