(* ===== verification/Release.thy ===== *)
theory Release
  imports Isolation "HOL-Library.Multiset"
begin

text \<open>
  The end of a session: the garbage collector runs the finalizers of all external pointers, in any
  order, and the package is unloaded, which releases the package data. Everything the session had
  mapped is given back to the machine.
\<close>

section \<open>Giving back\<close>

text \<open>
  A resource held before is still held or gone from the table, nothing new is held, and the others stay as they
  are; what was gone stays gone.
\<close>

definition returned :: "nat set \<Rightarrow> (nat \<Rightarrow> nat option) \<Rightarrow> nat set \<Rightarrow> (nat \<Rightarrow> nat option) \<Rightarrow> bool" where
  "returned H f H' f' \<longleftrightarrow> (\<forall>h \<in> H. h \<in> H' \<or> f' h = None) \<and> (\<forall>h. f h = None \<longrightarrow> f' h = None) \<and>
     H' \<subseteq> H \<and> (\<forall>h. h \<notin> H \<longrightarrow> f' h = f h)"

lemma returned_refl: "returned H f H f"
  by (simp add: returned_def)

lemma returned_trans: "returned H f H1 f1 \<Longrightarrow> returned H1 f1 H2 f2 \<Longrightarrow> returned H f H2 f2"
  unfolding returned_def by (metis subset_iff)

lemma returned_all: "returned H f {} f' \<Longrightarrow> f' = (\<lambda>h. if h \<in> H then None else f h)"
  by (auto simp: returned_def fun_eq_iff)

definition gives_back :: "('os \<Rightarrow> shm_view) \<Rightarrow> ('os, 'z) world_scheme \<Rightarrow> ('os, 'z) world_scheme \<Rightarrow> bool" where
  "gives_back view w w' \<longleftrightarrow>
     returned (own_regions w) (vregions (view (machine w))) (own_regions w') (vregions (view (machine w'))) \<and>
     returned (own_handles w) (vhandles (view (machine w))) (own_handles w') (vhandles (view (machine w')))"

lemma gives_back_refl: "gives_back view w w"
  by (simp add: gives_back_def returned_refl)

lemma gives_back_trans: "gives_back view w w1 \<Longrightarrow> gives_back view w1 w2 \<Longrightarrow> gives_back view w w2"
  unfolding gives_back_def by (blast intro: returned_trans)

interpretation gives_back: step_relation "gives_back view" for view :: "'os \<Rightarrow> shm_view"
  by unfold_locales (rule gives_back_refl, rule gives_back_trans)

lemma gives_back_same:
  assumes "sharedObjectList w' = sharedObjectList w" and "vregions (view (machine w')) = vregions (view (machine w))"
    and "vhandles (view (machine w')) = vhandles (view (machine w))"
  shows "gives_back view w w'"
  using assms held_cong [of w' w] by (simp add: gives_back_def returned_refl)

lemma Union_without: "\<Union> (range g) \<subseteq> \<Union> (range (g(k := {}))) \<union> g k"
proof
  fix x
  assume "x \<in> \<Union> (range g)"
  then obtain l where "x \<in> g l"
    by blast
  then show "x \<in> \<Union> (range (g(k := {}))) \<union> g k"
    by (cases "l = k") auto
qed

lemma Union_cleared: "\<Union> (range (g(k := {}))) \<subseteq> \<Union> (range g)" "g k \<subseteq> \<Union> (range g)"
  by (auto split: if_splits)

lemma held_elsewhere:
  assumes "sharedObjectList w key = Some so" and "sharedObjectList w' = (sharedObjectList w)(key := None)"
  shows "own_regions w \<subseteq> own_regions w' \<union> object_regions so" and "own_handles w \<subseteq> own_handles w' \<union> object_handles so"
    and "own_regions w' \<subseteq> own_regions w" and "own_handles w' \<subseteq> own_handles w"
    and "object_regions so \<subseteq> own_regions w" and "object_handles so \<subseteq> own_handles w"
proof -
  have w': "regions_at w' = (regions_at w)(key := {})" "handles_at w' = (handles_at w)(key := {})"
    by (simp_all add: regions_at_def handles_at_def assms(2) fun_eq_iff)
  have w: "regions_at w key = object_regions so" "handles_at w key = object_handles so"
    by (simp_all add: regions_at_def handles_at_def assms(1))
  show "own_regions w \<subseteq> own_regions w' \<union> object_regions so"
    using Union_without [of "regions_at w" key] unfolding own_regions_def w' w .
  show "own_handles w \<subseteq> own_handles w' \<union> object_handles so"
    using Union_without [of "handles_at w" key] unfolding own_handles_def w' w .
  show "own_regions w' \<subseteq> own_regions w" "object_regions so \<subseteq> own_regions w"
    using Union_cleared [of "regions_at w" key] unfolding own_regions_def w' w by simp_all
  show "own_handles w' \<subseteq> own_handles w" "object_handles so \<subseteq> own_handles w"
    using Union_cleared [of "handles_at w" key] unfolding own_handles_def w' w by simp_all
qed

context shm_os
begin

text \<open>An object taken out of the registry and destroyed.\<close>

lemma gives_back_destroy:
  assumes "sharedObjectList w key = Some so" and "sharedObjectList w' = (sharedObjectList w)(key := None)"
    and "\<And>r. vregions (view (machine w')) r = (if r \<in> object_regions so then None else vregions (view (machine w)) r)"
    and "\<And>h. vhandles (view (machine w')) h = (if h \<in> object_handles so then None else vhandles (view (machine w)) h)"
  shows "gives_back view w w'"
  using held_elsewhere [OF assms(1,2)] unfolding gives_back_def returned_def assms(3,4) by (intro conjI) auto

lemma gives_back_erase: "gives_back view w (erase_object B key w)"
proof (cases "sharedObjectList w key")
  case None
  then show ?thesis
    by (simp add: erase_object_def gives_back_refl)
next
  case (Some so)
  show ?thesis
    by (rule gives_back_destroy [OF Some])
      (auto simp: erase_object_def Some SO_delete_view object_regions_def object_handles_def split: option.split)
qed

lemma gives_back_unmap: "gives_back view w (unmapSharedMemoryInternal B key w)"
proof (cases "sharedObjectList w key")
  case None
  then show ?thesis
    by (simp add: unmap_internal_absent gives_back_refl)
next
  case (Some so)
  show ?thesis
  proof (cases "counter_at w key - 1 \<le> 0")
    case True
    obtain so' m' where un: "SO_unmapSharedMemory B (so, machine w) = (so', m')"
      by fastforce
    have so': "sharedMemoryHandle so' = sharedMemoryHandle so" "mappedRegionHandle so' = None"
      using un by (auto simp: SO_unmapSharedMemory_def freeMappedRegionHandle_def)
    show ?thesis
      by (rule gives_back_destroy [OF Some])
        (use True SO_unmap_view [of so "machine w"] in \<open>auto simp: unmap_internal_run [OF Some] un SO_delete_view so'
          object_regions_def object_handles_def split: option.split\<close>)
  next
    case False
    then show ?thesis
      by (intro gives_back_same) (simp_all add: unmap_internal_run [OF Some])
  qed
qed

lemma gives_back_free: "gives_back view w (freeSharedMemoryInternal B key w)"
proof -
  let ?w1 = "if keyInMap (sharedObjectList w) key
    then (let w0 = erase_object B key w in w0\<lparr>mapCounter := (mapCounter w0)(key := None)\<rparr>) else w"
  have "gives_back view w ?w1"
    using gives_back_trans [OF gives_back_erase [of w key] gives_back_same [of _ "erase_object B key w"]]
    by (simp add: Let_def gives_back_refl)
  moreover have "gives_back view ?w1 (?w1\<lparr>machine := SO_static_freeSharedMemory B key (machine ?w1)\<rparr>)"
    by (rule gives_back_same) (simp_all add: SO_static_freeSharedMemory_def remove_name)
  ultimately show ?thesis
    unfolding freeSharedMemoryInternal_def Let_def by (rule gives_back_trans)
qed

lemma gives_back_finalizer: "gives_back view w (ptrFinalizer B pointer w)"
  unfolding ptrFinalizer_def unmapSharedMemory_def
  by (rule gives_back_trans [OF gives_back_unmap gives_back_same]) simp_all

lemma gives_back_release: "gives_back view w (C_releasePkgData B w)"
  unfolding C_releasePkgData_def releasePkgData_def
  by (rule gives_back_trans [OF gives_back_free gives_back_same]) simp_all

end

section \<open>The end of a session\<close>

definition release_all :: "'os boost \<Rightarrow> (ptr \<times> string) list \<Rightarrow> 'os session \<Rightarrow> 'os session" where
  "release_all B pointers w = C_releasePkgData B (fold (ptrFinalizer B) pointers w)"

lemma finalizer_extptrs: "extptrs (ptrFinalizer B pointer w) = remove1 pointer (extptrs w)"
  by (simp add: ptrFinalizer_def)

lemma finalizers_reachable:
  assumes "session_reachable B w" and "mset pointers \<subseteq># mset (extptrs w)"
  shows "session_reachable B (fold (ptrFinalizer B) pointers w) \<and>
    mset (extptrs (fold (ptrFinalizer B) pointers w)) = mset (extptrs w) - mset pointers"
  using assms
proof (induction pointers arbitrary: w)
  case Nil
  then show ?case by simp
next
  case (Cons p ps)
  have "p \<in> set (extptrs w)"
    using Cons.prems(2) by (metis mset_subset_eqD set_mset_mset list.set_intros(1))
  then have "session_reachable B (ptrFinalizer B p w)"
    by (rule session_reachable.step [OF Cons.prems(1) session_step.own [OF own_step.collected]])
  moreover have "mset ps \<subseteq># mset (extptrs (ptrFinalizer B p w))"
    using Cons.prems(2) by (simp add: finalizer_extptrs insert_subset_eq_iff)
  ultimately show ?case
    using Cons.IH by (simp add: finalizer_extptrs)
qed

text \<open>The registry holds the mappings of the live pointers and of the counter of ids, and no other.\<close>

lemma pinned_region:
  assumes "session_ok w" and "sharedObjectList w key = Some so" and "mappedRegionHandle so = Some r"
  shows "(region_address r, key) \<in> set (session_pins w)"
proof -
  have "so_inv so"
    using registry_okD(2) [OF counted_registry_ok [OF session_counted [OF assms(1)]] assms(2)] .
  then have mapped: "mapped_at w key = Some (region_address r)"
    using assms(2,3) by (auto simp: mapped_at_def so_inv_def)
  then have "0 < counter_at w key"
    using session_counted [OF assms(1)] by (auto simp: counted_def)
  then have "count_list (map snd (session_pins w)) key \<noteq> 0"
    using store.pin_count [of w "session_pins w" key] assms(1) by (simp add: session_ok_def)
  then obtain q where q: "(q, key) \<in> set (session_pins w)"
    by (auto simp: count_list_0_iff)
  then have "mapped_at w key = Some q"
    using assms(1) unfolding session_ok_def store.pinned_def by blast
  then show ?thesis
    using q mapped by simp
qed

lemma held_regions:
  assumes "session_ok w"
  shows "own_regions w = (\<lambda>(p, key). ptr_block p) ` set (session_pins w)"
proof
  show "own_regions w \<subseteq> (\<lambda>(p, key). ptr_block p) ` set (session_pins w)"
  proof
    fix r
    assume "r \<in> own_regions w"
    then obtain key so where "sharedObjectList w key = Some so" "mappedRegionHandle so = Some r"
      by (auto simp: own_regions_def regions_at_def object_regions_def split: option.splits)
    from pinned_region [OF assms this] show "r \<in> (\<lambda>(p, key). ptr_block p) ` set (session_pins w)"
      by (force simp: region_address_def)
  qed
  show "(\<lambda>(p, key). ptr_block p) ` set (session_pins w) \<subseteq> own_regions w"
  proof clarify
    fix p key
    assume "(p, key) \<in> set (session_pins w)"
    then have "mapped_at w key = Some p"
      using assms unfolding session_ok_def store.pinned_def by blast
    then obtain so where so: "sharedObjectList w key = Some so" "shared_ptr so = Some p"
      by (auto simp: mapped_at_def split: option.splits)
    have "so_inv so"
      using registry_okD(2) [OF counted_registry_ok [OF session_counted [OF assms]] so(1)] .
    then have "ptr_block p \<in> regions_at w key"
      using so by (cases "mappedRegionHandle so") (auto simp: so_inv_def regions_at_def object_regions_def region_address_def)
    then show "ptr_block p \<in> own_regions w"
      by (auto simp: own_regions_def)
  qed
qed

lemma live_regions:
  assumes "session_ok w"
  shows "own_regions w = (\<lambda>(p, ident). ptr_block p) ` set (extptrs w) \<union> ptr_block ` set_option (lastId w)"
  unfolding held_regions [OF assms]
  by (force simp: session_pins_def pointer_pins_def split: option.splits)

lemma nothing_pinned:
  assumes "session_ok w" and "extptrs w = []" and "lastId w = None"
  shows "own_regions w = {}"
  using live_regions [OF assms(1)] assms(2,3) by simp

lemma release_all_reachable:
  assumes "session_reachable B w" and "mset pointers = mset (extptrs w)"
  shows "session_reachable B (release_all B pointers w)" and "extptrs (release_all B pointers w) = []"
    and "own_regions (release_all B pointers w) = {}"
proof -
  let ?w = "fold (ptrFinalizer B) pointers w"
  have w: "session_reachable B ?w" "extptrs ?w = []"
    using finalizers_reachable [OF assms(1), of pointers] assms(2) by simp_all
  show reach: "session_reachable B (release_all B pointers w)"
    unfolding release_all_def by (rule session_reachable.step [OF w(1) session_step.own [OF own_step.released]])
  have "extptrs (freeSharedMemoryInternal B key v) = extptrs v" for key and v :: "'a session"
    by (simp add: freeSharedMemoryInternal_def erase_object_def Let_def split: option.split)
  then show ext: "extptrs (release_all B pointers w) = []"
    using w(2) by (simp add: release_all_def C_releasePkgData_def releasePkgData_def)
  show "own_regions (release_all B pointers w) = {}"
    by (rule nothing_pinned [OF session_reachable_ok [OF reach] ext])
      (simp add: release_all_def C_releasePkgData_def releasePkgData_def)
qed

context shm_os
begin

lemma gives_back_all: "gives_back view w (release_all B pointers w)"
proof -
  have "gives_back view v (fold (ptrFinalizer B) pointers v)" for v
  proof (induction pointers arbitrary: v)
    case Nil
    then show ?case by (simp add: gives_back_refl)
  next
    case (Cons p ps)
    then show ?case
      using gives_back_trans [OF gives_back_finalizer [of v p]] by simp
  qed
  then show ?thesis
    unfolding release_all_def by (rule gives_back_trans [OF _ gives_back_release])
qed

end

end
