(* ===== verification/RcppExports.thy ===== *)
theory RcppExports
  imports CInterface
begin

text \<open>
  The entry points of the shared library (\<open>src/RcppExports.cpp\<close>): one wrapper per exported function, which
  converts the arguments of R's \<open>.Call\<close>, calls the function and converts its result, the table of the
  registered routines, and the initialization of the library. The conversions, the scope of R's
  random numbers and R's heap are parameters.
\<close>

section \<open>Rcpp\<close>

text \<open>
  \<open>Rcpp::as\<close>, which throws when the R object does not have the type, \<open>Rcpp::wrap\<close>, and the constructor
  and the destructor of \<open>RNGScope\<close>. On 64-bit Linux \<open>uint64_t\<close> and \<open>size_t\<close> are one type, and
  \<open>R_xlen_t\<close> is \<open>long\<close>. Objects of R that are only converted have the type \<open>'v\<close>.
\<close>

record ('v, 'g) rcpp =
  as_int :: "'v \<Rightarrow> string + int"
  as_bool :: "'v \<Rightarrow> string + bool"
  as_uint64 :: "'v \<Rightarrow> string + u64"
  as_string :: "'v \<Rightarrow> string + string"
  wrap_int :: "int \<Rightarrow> 'v"
  wrap_long :: "int \<Rightarrow> 'v"
  wrap_bool :: "bool \<Rightarrow> 'v"
  wrap_uint64 :: "u64 \<Rightarrow> 'v"
  wrap_string :: "string \<Rightarrow> 'v"
  RNGScope_new :: "'g \<Rightarrow> 'g"
  RNGScope_delete :: "'g \<Rightarrow> 'g"

text \<open>The state of the R process as the entry points see it.\<close>

record ('os, 'r, 'g) process =
  proc_session :: "'os session"
  proc_heap :: 'r
  proc_flags :: print_flags
  proc_rng :: 'g

text \<open>What a call returns to R. \<open>SEXP\<close>s pass through \<open>wrap\<close> as they are.\<close>

datatype 'v sexp_value =
    SEXP_value 'v
  | SEXP_nil
  | SEXP_vector shared_vector
  | SEXP_string shared_string
  | SEXP_regular regular_vector
  | SEXP_regular_string regular_string
  | SEXP_template "(string \<times> slot_value) list"
  | SEXP_pointer ptr
  | SEXP_frame "object_row list"
  | SEXP_address nat

type_synonym ('os, 'r, 'g, 'v) r_call = "(('os, 'r, 'g) process, 'v sexp_value) exec"

definition in_session :: "('os session, 'a) exec \<Rightarrow> (('os, 'r, 'g) process, 'a) exec" where
  "in_session m = (\<lambda>p. case m (proc_session p) of (r, w) \<Rightarrow> (r, p\<lparr>proc_session := w\<rparr>))"

definition in_heap :: "('r, 'a) exec \<Rightarrow> (('os, 'r, 'g) process, 'a) exec" where
  "in_heap m = (\<lambda>p. case m (proc_heap p) of (r, h) \<Rightarrow> (r, p\<lparr>proc_heap := h\<rparr>))"

definition in_flags :: "(print_flags, 'a) exec \<Rightarrow> (('os, 'r, 'g) process, 'a) exec" where
  "in_flags m = (\<lambda>p. case m (proc_flags p) of (r, f) \<Rightarrow> (r, p\<lparr>proc_flags := f\<rparr>))"

text \<open>Functions that read a state, and functions that change it and return nothing.\<close>

definition reads :: "('s \<Rightarrow> 'a) \<Rightarrow> ('s, 'a) exec" where
  "reads f = returns (\<lambda>s. (f s, s))"

definition changes :: "('s \<Rightarrow> 's) \<Rightarrow> ('s, unit) exec" where
  "changes f = returns (\<lambda>s. ((), f s))"

definition result :: "('a \<Rightarrow> 'b) \<Rightarrow> ('s, 'a) exec \<Rightarrow> ('s, 'b) exec" where
  "result g m = andThen m (\<lambda>x. ok (g x))"

text \<open>
  The conversion of one argument. The conversions of a call take place when its arguments are passed;
  C++ leaves their order open, which matters only for the message when several of them fail.
\<close>

definition as_arg :: "string + 'a \<Rightarrow> ('s, 'a) exec" where
  "as_arg c = (case c of Inl what \<Rightarrow> fail (CppError what) | Inr x \<Rightarrow> ok x)"

text \<open>
  \<open>RNGScope\<close> around the body: its destructor runs when the body returns or throws, not when R jumps out
  of it.
\<close>

definition rng_scope :: "('v, 'g) rcpp \<Rightarrow> (('os, 'r, 'g) process, 'a) exec \<Rightarrow> (('os, 'r, 'g) process, 'a) exec" where
  "rng_scope R body = (\<lambda>p.
     case body (p\<lparr>proc_rng := RNGScope_new R (proc_rng p)\<rparr>) of
       (Inr x, p') \<Rightarrow> (Inr x, p'\<lparr>proc_rng := RNGScope_delete R (proc_rng p')\<rparr>)
     | (Inl (CppError what), p') \<Rightarrow> (Inl (CppError what), p'\<lparr>proc_rng := RNGScope_delete R (proc_rng p')\<rparr>)
     | (Inl e, p') \<Rightarrow> (Inl e, p'))"

text \<open>\<open>BEGIN_RCPP ... END_RCPP\<close>: an exception of C++ becomes an error of R.\<close>

definition rcpp_export :: "('v, 'g) rcpp \<Rightarrow> (('os, 'r, 'g) process, 'a) exec \<Rightarrow> (('os, 'r, 'g) process, 'a) exec" where
  "rcpp_export R body = catchCpp (rng_scope R body) (\<lambda>what. fail (RError what))"

section \<open>The wrappers\<close>

definition SharedObject_C_getDataInfoTemplate ::
  "('v, 'g) rcpp \<Rightarrow> ('os, 'r, 'g, 'v) r_call"
where
  "SharedObject_C_getDataInfoTemplate R =
   rcpp_export R (
     ok (SEXP_template C_getDataInfoTemplate))"

definition SharedObject_C_getStringDataInfoTemplate ::
  "('v, 'g) rcpp \<Rightarrow> ('os, 'r, 'g, 'v) r_call"
where
  "SharedObject_C_getStringDataInfoTemplate R =
   rcpp_export R (
     ok (SEXP_template C_getStringDataInfoTemplate))"

definition SharedObject_C_createEmptySharedObject ::
  "('v, 'g) rcpp \<Rightarrow> 'os boost \<Rightarrow> 'v \<Rightarrow> 'v \<Rightarrow> 'v \<Rightarrow> 'v \<Rightarrow> 'v \<Rightarrow> attributes \<Rightarrow> ('os, 'r, 'g, 'v) r_call"
where
  "SharedObject_C_createEmptySharedObject R B typeSEXP lengthSEXP copyOnWriteSEXP sharedSubsetSEXP sharedCopySEXP attribs =
   rcpp_export R (
     andThen (as_arg (as_int R typeSEXP)) (\<lambda>type.
     andThen (as_arg (as_uint64 R lengthSEXP)) (\<lambda>len.
     andThen (as_arg (as_bool R copyOnWriteSEXP)) (\<lambda>copyOnWrite.
     andThen (as_arg (as_bool R sharedSubsetSEXP)) (\<lambda>sharedSubset.
     andThen (as_arg (as_bool R sharedCopySEXP)) (\<lambda>sharedCopy.
     result SEXP_vector (in_session (C_createEmptySharedObject B type len copyOnWrite sharedSubset sharedCopy attribs))))))))"

definition SharedObject_C_createSharedObjectFromSource ::
  "('v, 'g) rcpp \<Rightarrow> 'os boost \<Rightarrow> source_vector \<Rightarrow> 'v \<Rightarrow> 'v \<Rightarrow> 'v \<Rightarrow> attributes \<Rightarrow> ('os, 'r, 'g, 'v) r_call"
where
  "SharedObject_C_createSharedObjectFromSource R B x copyOnWriteSEXP sharedSubsetSEXP sharedCopySEXP attribs =
   rcpp_export R (
     andThen (as_arg (as_bool R copyOnWriteSEXP)) (\<lambda>copyOnWrite.
     andThen (as_arg (as_bool R sharedSubsetSEXP)) (\<lambda>sharedSubset.
     andThen (as_arg (as_bool R sharedCopySEXP)) (\<lambda>sharedCopy.
     result SEXP_vector (in_session (C_createSharedObjectFromSource B x copyOnWrite sharedSubset sharedCopy attribs))))))"

definition SharedObject_C_createSharedStringFromSource ::
  "('v, 'g) rcpp \<Rightarrow> 'os boost \<Rightarrow> charsxp list \<Rightarrow> 'v \<Rightarrow> attributes \<Rightarrow> ('os, 'r, 'g, 'v) r_call"
where
  "SharedObject_C_createSharedStringFromSource R B x copyOnWriteSEXP attribs =
   rcpp_export R (
     andThen (as_arg (as_bool R copyOnWriteSEXP)) (\<lambda>copyOnWrite.
     result SEXP_string (in_session (C_createSharedStringFromSource B x copyOnWrite attribs))))"

definition SharedObject_C_readSharedObject ::
  "('v, 'g) rcpp \<Rightarrow> 'os boost \<Rightarrow> data_info \<Rightarrow> ('os, 'r, 'g, 'v) r_call"
where
  "SharedObject_C_readSharedObject R B dataInfo =
   rcpp_export R (
     result SEXP_vector (in_session (C_readSharedObject B dataInfo)))"

definition SharedObject_C_unshare ::
  "('v, 'g) rcpp \<Rightarrow> 'os boost \<Rightarrow> shared_vector \<Rightarrow> attributes \<Rightarrow> ('os, 'r, 'g, 'v) r_call"
where
  "SharedObject_C_unshare R B x attribs =
   rcpp_export R (
     result SEXP_regular (in_session (C_unshare B x attribs)))"

definition SharedObject_C_unshareString ::
  "('v, 'g) rcpp \<Rightarrow> 'os boost \<Rightarrow> shared_string \<Rightarrow> attributes \<Rightarrow> ('os, 'r, 'g, 'v) r_call"
where
  "SharedObject_C_unshareString R B x attribs =
   rcpp_export R (
     result SEXP_regular_string (in_session (C_unshareString B x attribs)))"

definition SharedObject_C_setSharedObjectOwership ::
  "('v, 'g) rcpp \<Rightarrow> shared_vector \<Rightarrow> 'v \<Rightarrow> ('os, 'r, 'g, 'v) r_call"
where
  "SharedObject_C_setSharedObjectOwership R x ownDataSEXP =
   rcpp_export R (
     andThen (as_arg (as_bool R ownDataSEXP)) (\<lambda>ownData.
     result (\<lambda>_. SEXP_nil) (in_session (C_setSharedObjectOwership x ownData))))"

definition SharedObject_C_getSharedObjectOwership ::
  "('v, 'g) rcpp \<Rightarrow> shared_vector \<Rightarrow> ('os, 'r, 'g, 'v) r_call"
where
  "SharedObject_C_getSharedObjectOwership R x =
   rcpp_export R (
     result (\<lambda>x. SEXP_value (wrap_bool R x)) (in_session (C_getSharedObjectOwership x)))"

definition SharedObject_C_xlength ::
  "('v, 'g) rcpp \<Rightarrow> 'r r_api \<Rightarrow> nat \<Rightarrow> ('os, 'r, 'g, 'v) r_call"
where
  "SharedObject_C_xlength R A x =
   rcpp_export R (
     result (\<lambda>x. SEXP_value (wrap_long R x)) (in_heap (reads (C_xlength A x))))"

definition SharedObject_C_ALTREP ::
  "('v, 'g) rcpp \<Rightarrow> sexp \<Rightarrow> ('os, 'r, 'g, 'v) r_call"
where
  "SharedObject_C_ALTREP R x =
   rcpp_export R (
     ok (SEXP_value (wrap_bool R (C_ALTREP x))))"

definition SharedObject_C_getAltData1 ::
  "('v, 'g) rcpp \<Rightarrow> 'r r_api \<Rightarrow> nat \<Rightarrow> ('os, 'r, 'g, 'v) r_call"
where
  "SharedObject_C_getAltData1 R A x =
   rcpp_export R (
     result SEXP_address (in_heap (reads (C_getAltData1 A x))))"

definition SharedObject_C_getAltData2 ::
  "('v, 'g) rcpp \<Rightarrow> 'r r_api \<Rightarrow> nat \<Rightarrow> ('os, 'r, 'g, 'v) r_call"
where
  "SharedObject_C_getAltData2 R A x =
   rcpp_export R (
     result SEXP_address (in_heap (reads (C_getAltData2 A x))))"

definition SharedObject_C_isShared ::
  "('v, 'g) rcpp \<Rightarrow> sexp \<Rightarrow> ('os, 'r, 'g, 'v) r_call"
where
  "SharedObject_C_isShared R x =
   rcpp_export R (
     ok (SEXP_value (wrap_bool R (C_isShared x))))"

definition SharedObject_C_setAltData1 ::
  "('v, 'g) rcpp \<Rightarrow> 'r r_api \<Rightarrow> nat \<Rightarrow> nat \<Rightarrow> ('os, 'r, 'g, 'v) r_call"
where
  "SharedObject_C_setAltData1 R A x d =
   rcpp_export R (
     result (\<lambda>_. SEXP_nil) (in_heap (changes (C_setAltData1 A x d))))"

definition SharedObject_C_setAltData2 ::
  "('v, 'g) rcpp \<Rightarrow> 'r r_api \<Rightarrow> nat \<Rightarrow> nat \<Rightarrow> ('os, 'r, 'g, 'v) r_call"
where
  "SharedObject_C_setAltData2 R A x d =
   rcpp_export R (
     result (\<lambda>_. SEXP_nil) (in_heap (changes (C_setAltData2 A x d))))"

definition SharedObject_C_getObject ::
  "('v, 'g) rcpp \<Rightarrow> 'r r_api \<Rightarrow> nat \<Rightarrow> ('os, 'r, 'g, 'v) r_call"
where
  "SharedObject_C_getObject R A x =
   rcpp_export R (
     result (\<lambda>x. SEXP_value (wrap_int R x)) (in_heap (reads (C_getObject A x))))"

definition SharedObject_C_setObject ::
  "('v, 'g) rcpp \<Rightarrow> 'r r_api \<Rightarrow> nat \<Rightarrow> 'v \<Rightarrow> ('os, 'r, 'g, 'v) r_call"
where
  "SharedObject_C_setObject R A x iSEXP =
   rcpp_export R (
     andThen (as_arg (as_int R iSEXP)) (\<lambda>i.
     result (\<lambda>_. SEXP_nil) (in_heap (changes (C_setObject A x i)))))"

definition SharedObject_C_ISS4 ::
  "('v, 'g) rcpp \<Rightarrow> 'r r_api \<Rightarrow> nat \<Rightarrow> ('os, 'r, 'g, 'v) r_call"
where
  "SharedObject_C_ISS4 R A x =
   rcpp_export R (
     result (\<lambda>x. SEXP_value (wrap_bool R x)) (in_heap (reads (C_ISS4 A x))))"

definition SharedObject_C_SETS4 ::
  "('v, 'g) rcpp \<Rightarrow> 'r r_api \<Rightarrow> nat \<Rightarrow> ('os, 'r, 'g, 'v) r_call"
where
  "SharedObject_C_SETS4 R A x =
   rcpp_export R (
     result (\<lambda>_. SEXP_nil) (in_heap (changes (C_SETS4 A x))))"

definition SharedObject_C_UNSETS4 ::
  "('v, 'g) rcpp \<Rightarrow> 'r r_api \<Rightarrow> nat \<Rightarrow> ('os, 'r, 'g, 'v) r_call"
where
  "SharedObject_C_UNSETS4 R A x =
   rcpp_export R (
     result (\<lambda>_. SEXP_nil) (in_heap (changes (C_UNSETS4 A x))))"

definition SharedObject_C_isSameObject ::
  "('v, 'g) rcpp \<Rightarrow> nat \<Rightarrow> nat \<Rightarrow> ('os, 'r, 'g, 'v) r_call"
where
  "SharedObject_C_isSameObject R x y =
   rcpp_export R (
     ok (SEXP_value (wrap_bool R (C_isSameObject x y))))"

definition SharedObject_C_getDataTypeId ::
  "('v, 'g) rcpp \<Rightarrow> 'v \<Rightarrow> ('os, 'r, 'g, 'v) r_call"
where
  "SharedObject_C_getDataTypeId R typeSEXP =
   rcpp_export R (
     andThen (as_arg (as_string R typeSEXP)) (\<lambda>type.
     result (\<lambda>x. SEXP_value (wrap_int R x)) (of_sum (C_getDataTypeId type))))"

definition SharedObject_C_initialPkgData ::
  "('v, 'g) rcpp \<Rightarrow> 'os boost \<Rightarrow> ('os, 'r, 'g, 'v) r_call"
where
  "SharedObject_C_initialPkgData R B =
   rcpp_export R (
     result (\<lambda>_. SEXP_nil) (in_session (C_initialPkgData B)))"

definition SharedObject_C_releasePkgData ::
  "('v, 'g) rcpp \<Rightarrow> 'os boost \<Rightarrow> ('os, 'r, 'g, 'v) r_call"
where
  "SharedObject_C_releasePkgData R B =
   rcpp_export R (
     result (\<lambda>_. SEXP_nil) (in_session (changes (C_releasePkgData B))))"

definition SharedObject_C_getLastIndex ::
  "('v, 'g) rcpp \<Rightarrow> 'os boost \<Rightarrow> ('os, 'r, 'g, 'v) r_call"
where
  "SharedObject_C_getLastIndex R B =
   rcpp_export R (
     result (\<lambda>x. SEXP_value (wrap_int R x)) (in_session (C_getLastIndex B)))"

definition SharedObject_C_allocateSharedMemory ::
  "('v, 'g) rcpp \<Rightarrow> 'os boost \<Rightarrow> 'v \<Rightarrow> 'v \<Rightarrow> ('os, 'r, 'g, 'v) r_call"
where
  "SharedObject_C_allocateSharedMemory R B size_in_byteSEXP nameSEXP =
   rcpp_export R (
     andThen (as_arg (as_uint64 R size_in_byteSEXP)) (\<lambda>size_in_byte.
     andThen (as_arg (as_string R nameSEXP)) (\<lambda>name.
     result (\<lambda>x. SEXP_value (wrap_string R x)) (in_session (C_allocateSharedMemory B size_in_byte name)))))"

definition SharedObject_C_mapSharedMemory ::
  "('v, 'g) rcpp \<Rightarrow> 'os boost \<Rightarrow> 'v \<Rightarrow> ('os, 'r, 'g, 'v) r_call"
where
  "SharedObject_C_mapSharedMemory R B idSEXP =
   rcpp_export R (
     andThen (as_arg (as_string R idSEXP)) (\<lambda>ident.
     result SEXP_pointer (in_session (C_mapSharedMemory B ident))))"

definition SharedObject_C_unmapSharedMemory ::
  "('v, 'g) rcpp \<Rightarrow> 'os boost \<Rightarrow> 'v \<Rightarrow> ('os, 'r, 'g, 'v) r_call"
where
  "SharedObject_C_unmapSharedMemory R B idSEXP =
   rcpp_export R (
     andThen (as_arg (as_string R idSEXP)) (\<lambda>ident.
     result (\<lambda>_. SEXP_nil) (in_session (changes (C_unmapSharedMemory B ident)))))"

definition SharedObject_C_freeSharedMemory ::
  "('v, 'g) rcpp \<Rightarrow> 'os boost \<Rightarrow> 'v \<Rightarrow> ('os, 'r, 'g, 'v) r_call"
where
  "SharedObject_C_freeSharedMemory R B idSEXP =
   rcpp_export R (
     andThen (as_arg (as_string R idSEXP)) (\<lambda>ident.
     result (\<lambda>_. SEXP_nil) (in_session (changes (C_freeSharedMemory B ident)))))"

definition SharedObject_C_hasSharedMemory ::
  "('v, 'g) rcpp \<Rightarrow> 'os boost \<Rightarrow> 'v \<Rightarrow> ('os, 'r, 'g, 'v) r_call"
where
  "SharedObject_C_hasSharedMemory R B idSEXP =
   rcpp_export R (
     andThen (as_arg (as_string R idSEXP)) (\<lambda>ident.
     result (\<lambda>x. SEXP_value (wrap_bool R x)) (in_session (C_hasSharedMemory B ident))))"

definition SharedObject_C_getSharedMemorySize ::
  "('v, 'g) rcpp \<Rightarrow> 'os boost \<Rightarrow> 'v \<Rightarrow> ('os, 'r, 'g, 'v) r_call"
where
  "SharedObject_C_getSharedMemorySize R B idSEXP =
   rcpp_export R (
     andThen (as_arg (as_string R idSEXP)) (\<lambda>ident.
     result (\<lambda>x. SEXP_value (wrap_uint64 R x)) (in_session (C_getSharedMemorySize B ident))))"

definition SharedObject_C_getSharedMemoryPath ::
  "('v, 'g) rcpp \<Rightarrow> 'os boost \<Rightarrow> ('os, 'r, 'g, 'v) r_call"
where
  "SharedObject_C_getSharedMemoryPath R B =
   rcpp_export R (
     result (\<lambda>x. SEXP_value (wrap_string R x)) (in_session (reads (C_getSharedMemoryPath B))))"

definition SharedObject_createSharedObjectFromSource ::
  "('v, 'g) rcpp \<Rightarrow> 'os boost \<Rightarrow> source_vector \<Rightarrow> 'v \<Rightarrow> 'v \<Rightarrow> 'v \<Rightarrow> attributes \<Rightarrow> ('os, 'r, 'g, 'v) r_call"
where
  "SharedObject_createSharedObjectFromSource R B x copyOnWriteSEXP sharedSubsetSEXP sharedCopySEXP attribs =
   rcpp_export R (
     andThen (as_arg (as_bool R copyOnWriteSEXP)) (\<lambda>copyOnWrite.
     andThen (as_arg (as_bool R sharedSubsetSEXP)) (\<lambda>sharedSubset.
     andThen (as_arg (as_bool R sharedCopySEXP)) (\<lambda>sharedCopy.
     result SEXP_vector (in_session (createSharedObjectFromSource B x copyOnWrite sharedSubset sharedCopy attribs))))))"

definition SharedObject_createSharedStringFromSource ::
  "('v, 'g) rcpp \<Rightarrow> 'os boost \<Rightarrow> charsxp list \<Rightarrow> 'v \<Rightarrow> attributes \<Rightarrow> ('os, 'r, 'g, 'v) r_call"
where
  "SharedObject_createSharedStringFromSource R B x copyOnWriteSEXP attribs =
   rcpp_export R (
     andThen (as_arg (as_bool R copyOnWriteSEXP)) (\<lambda>copyOnWrite.
     result SEXP_string (in_session (createSharedStringFromSource B x copyOnWrite attribs))))"

definition SharedObject_getSharedObjectList ::
  "('v, 'g) rcpp \<Rightarrow> ('os, 'r, 'g, 'v) r_call"
where
  "SharedObject_getSharedObjectList R =
   rcpp_export R (
     result SEXP_frame (in_session (returns getSharedObjectList)))"

definition SharedObject_C_setSharedMemoryPrint ::
  "('v, 'g) rcpp \<Rightarrow> 'v \<Rightarrow> ('os, 'r, 'g, 'v) r_call"
where
  "SharedObject_C_setSharedMemoryPrint R xSEXP =
   rcpp_export R (
     andThen (as_arg (as_bool R xSEXP)) (\<lambda>x.
     result (\<lambda>_. SEXP_nil) (in_flags (changes (C_setSharedMemoryPrint x)))))"

definition SharedObject_C_setAltrepPrint ::
  "('v, 'g) rcpp \<Rightarrow> 'v \<Rightarrow> ('os, 'r, 'g, 'v) r_call"
where
  "SharedObject_C_setAltrepPrint R xSEXP =
   rcpp_export R (
     andThen (as_arg (as_bool R xSEXP)) (\<lambda>x.
     result (\<lambda>_. SEXP_nil) (in_flags (changes (C_setAltrepPrint x)))))"

definition SharedObject_C_setPackagePrint ::
  "('v, 'g) rcpp \<Rightarrow> 'v \<Rightarrow> ('os, 'r, 'g, 'v) r_call"
where
  "SharedObject_C_setPackagePrint R xSEXP =
   rcpp_export R (
     andThen (as_arg (as_bool R xSEXP)) (\<lambda>x.
     result (\<lambda>_. SEXP_nil) (in_flags (changes (C_setPackagePrint x)))))"

definition SharedObject_getSharedMemoryPath ::
  "('v, 'g) rcpp \<Rightarrow> 'os boost \<Rightarrow> ('os, 'r, 'g, 'v) r_call"
where
  "SharedObject_getSharedMemoryPath R B =
   rcpp_export R (
     result (\<lambda>x. SEXP_value (wrap_string R x)) (in_session (reads (\<lambda>w. getSharedMemoryPath B (machine w)))))"

section \<open>Registered routines\<close>

text \<open>A \<open>.Call\<close> from R: the routine and its arguments.\<close>

datatype 'v dot_call =
    Call_C_getDataInfoTemplate
  | Call_C_getStringDataInfoTemplate
  | Call_C_createEmptySharedObject "'v" "'v" "'v" "'v" "'v" attributes
  | Call_C_createSharedObjectFromSource source_vector "'v" "'v" "'v" attributes
  | Call_C_createSharedStringFromSource "charsxp list" "'v" attributes
  | Call_C_readSharedObject data_info
  | Call_C_unshare shared_vector attributes
  | Call_C_unshareString shared_string attributes
  | Call_C_setSharedObjectOwership shared_vector "'v"
  | Call_C_getSharedObjectOwership shared_vector
  | Call_C_xlength nat
  | Call_C_ALTREP sexp
  | Call_C_getAltData1 nat
  | Call_C_getAltData2 nat
  | Call_C_isShared sexp
  | Call_C_setAltData1 nat nat
  | Call_C_setAltData2 nat nat
  | Call_C_getObject nat
  | Call_C_setObject nat "'v"
  | Call_C_ISS4 nat
  | Call_C_SETS4 nat
  | Call_C_UNSETS4 nat
  | Call_C_isSameObject nat nat
  | Call_C_getDataTypeId "'v"
  | Call_C_initialPkgData
  | Call_C_releasePkgData
  | Call_C_getLastIndex
  | Call_C_allocateSharedMemory "'v" "'v"
  | Call_C_mapSharedMemory "'v"
  | Call_C_unmapSharedMemory "'v"
  | Call_C_freeSharedMemory "'v"
  | Call_C_hasSharedMemory "'v"
  | Call_C_getSharedMemorySize "'v"
  | Call_C_getSharedMemoryPath
  | Call_createSharedObjectFromSource source_vector "'v" "'v" "'v" attributes
  | Call_createSharedStringFromSource "charsxp list" "'v" attributes
  | Call_getSharedObjectList
  | Call_C_setSharedMemoryPrint "'v"
  | Call_C_setAltrepPrint "'v"
  | Call_C_setPackagePrint "'v"
  | Call_getSharedMemoryPath

primrec dot_Call ::
  "('v, 'g) rcpp \<Rightarrow> 'os boost \<Rightarrow> 'r r_api \<Rightarrow> 'v dot_call \<Rightarrow> ('os, 'r, 'g, 'v) r_call"
where
  "dot_Call R B A Call_C_getDataInfoTemplate = SharedObject_C_getDataInfoTemplate R"
| "dot_Call R B A Call_C_getStringDataInfoTemplate = SharedObject_C_getStringDataInfoTemplate R"
| "dot_Call R B A (Call_C_createEmptySharedObject typeSEXP lengthSEXP copyOnWriteSEXP sharedSubsetSEXP sharedCopySEXP attribs) =
     SharedObject_C_createEmptySharedObject R B typeSEXP lengthSEXP copyOnWriteSEXP sharedSubsetSEXP sharedCopySEXP attribs"
| "dot_Call R B A (Call_C_createSharedObjectFromSource x copyOnWriteSEXP sharedSubsetSEXP sharedCopySEXP attribs) =
     SharedObject_C_createSharedObjectFromSource R B x copyOnWriteSEXP sharedSubsetSEXP sharedCopySEXP attribs"
| "dot_Call R B A (Call_C_createSharedStringFromSource x copyOnWriteSEXP attribs) =
     SharedObject_C_createSharedStringFromSource R B x copyOnWriteSEXP attribs"
| "dot_Call R B A (Call_C_readSharedObject dataInfo) = SharedObject_C_readSharedObject R B dataInfo"
| "dot_Call R B A (Call_C_unshare x attribs) = SharedObject_C_unshare R B x attribs"
| "dot_Call R B A (Call_C_unshareString x attribs) = SharedObject_C_unshareString R B x attribs"
| "dot_Call R B A (Call_C_setSharedObjectOwership x ownDataSEXP) =
     SharedObject_C_setSharedObjectOwership R x ownDataSEXP"
| "dot_Call R B A (Call_C_getSharedObjectOwership x) = SharedObject_C_getSharedObjectOwership R x"
| "dot_Call R B A (Call_C_xlength x) = SharedObject_C_xlength R A x"
| "dot_Call R B A (Call_C_ALTREP x) = SharedObject_C_ALTREP R x"
| "dot_Call R B A (Call_C_getAltData1 x) = SharedObject_C_getAltData1 R A x"
| "dot_Call R B A (Call_C_getAltData2 x) = SharedObject_C_getAltData2 R A x"
| "dot_Call R B A (Call_C_isShared x) = SharedObject_C_isShared R x"
| "dot_Call R B A (Call_C_setAltData1 x d) = SharedObject_C_setAltData1 R A x d"
| "dot_Call R B A (Call_C_setAltData2 x d) = SharedObject_C_setAltData2 R A x d"
| "dot_Call R B A (Call_C_getObject x) = SharedObject_C_getObject R A x"
| "dot_Call R B A (Call_C_setObject x iSEXP) = SharedObject_C_setObject R A x iSEXP"
| "dot_Call R B A (Call_C_ISS4 x) = SharedObject_C_ISS4 R A x"
| "dot_Call R B A (Call_C_SETS4 x) = SharedObject_C_SETS4 R A x"
| "dot_Call R B A (Call_C_UNSETS4 x) = SharedObject_C_UNSETS4 R A x"
| "dot_Call R B A (Call_C_isSameObject x y) = SharedObject_C_isSameObject R x y"
| "dot_Call R B A (Call_C_getDataTypeId typeSEXP) = SharedObject_C_getDataTypeId R typeSEXP"
| "dot_Call R B A Call_C_initialPkgData = SharedObject_C_initialPkgData R B"
| "dot_Call R B A Call_C_releasePkgData = SharedObject_C_releasePkgData R B"
| "dot_Call R B A Call_C_getLastIndex = SharedObject_C_getLastIndex R B"
| "dot_Call R B A (Call_C_allocateSharedMemory size_in_byteSEXP nameSEXP) =
     SharedObject_C_allocateSharedMemory R B size_in_byteSEXP nameSEXP"
| "dot_Call R B A (Call_C_mapSharedMemory idSEXP) = SharedObject_C_mapSharedMemory R B idSEXP"
| "dot_Call R B A (Call_C_unmapSharedMemory idSEXP) = SharedObject_C_unmapSharedMemory R B idSEXP"
| "dot_Call R B A (Call_C_freeSharedMemory idSEXP) = SharedObject_C_freeSharedMemory R B idSEXP"
| "dot_Call R B A (Call_C_hasSharedMemory idSEXP) = SharedObject_C_hasSharedMemory R B idSEXP"
| "dot_Call R B A (Call_C_getSharedMemorySize idSEXP) = SharedObject_C_getSharedMemorySize R B idSEXP"
| "dot_Call R B A Call_C_getSharedMemoryPath = SharedObject_C_getSharedMemoryPath R B"
| "dot_Call R B A (Call_createSharedObjectFromSource x copyOnWriteSEXP sharedSubsetSEXP sharedCopySEXP attribs) =
     SharedObject_createSharedObjectFromSource R B x copyOnWriteSEXP sharedSubsetSEXP sharedCopySEXP attribs"
| "dot_Call R B A (Call_createSharedStringFromSource x copyOnWriteSEXP attribs) =
     SharedObject_createSharedStringFromSource R B x copyOnWriteSEXP attribs"
| "dot_Call R B A Call_getSharedObjectList = SharedObject_getSharedObjectList R"
| "dot_Call R B A (Call_C_setSharedMemoryPrint xSEXP) = SharedObject_C_setSharedMemoryPrint R xSEXP"
| "dot_Call R B A (Call_C_setAltrepPrint xSEXP) = SharedObject_C_setAltrepPrint R xSEXP"
| "dot_Call R B A (Call_C_setPackagePrint xSEXP) = SharedObject_C_setPackagePrint R xSEXP"
| "dot_Call R B A Call_getSharedMemoryPath = SharedObject_getSharedMemoryPath R B"

text \<open>The table: the name of a routine and the number of its arguments.\<close>

definition CallEntries :: "(string \<times> nat) list" where
  "CallEntries =
    [(''_SharedObject_C_getDataInfoTemplate'', 0),
     (''_SharedObject_C_getStringDataInfoTemplate'', 0),
     (''_SharedObject_C_createEmptySharedObject'', 6),
     (''_SharedObject_C_createSharedObjectFromSource'', 5),
     (''_SharedObject_C_createSharedStringFromSource'', 3),
     (''_SharedObject_C_readSharedObject'', 1),
     (''_SharedObject_C_unshare'', 2),
     (''_SharedObject_C_unshareString'', 2),
     (''_SharedObject_C_setSharedObjectOwership'', 2),
     (''_SharedObject_C_getSharedObjectOwership'', 1),
     (''_SharedObject_C_xlength'', 1),
     (''_SharedObject_C_ALTREP'', 1),
     (''_SharedObject_C_getAltData1'', 1),
     (''_SharedObject_C_getAltData2'', 1),
     (''_SharedObject_C_isShared'', 1),
     (''_SharedObject_C_setAltData1'', 2),
     (''_SharedObject_C_setAltData2'', 2),
     (''_SharedObject_C_getObject'', 1),
     (''_SharedObject_C_setObject'', 2),
     (''_SharedObject_C_ISS4'', 1),
     (''_SharedObject_C_SETS4'', 1),
     (''_SharedObject_C_UNSETS4'', 1),
     (''_SharedObject_C_isSameObject'', 2),
     (''_SharedObject_C_getDataTypeId'', 1),
     (''_SharedObject_C_initialPkgData'', 0),
     (''_SharedObject_C_releasePkgData'', 0),
     (''_SharedObject_C_getLastIndex'', 0),
     (''_SharedObject_C_allocateSharedMemory'', 2),
     (''_SharedObject_C_mapSharedMemory'', 1),
     (''_SharedObject_C_unmapSharedMemory'', 1),
     (''_SharedObject_C_freeSharedMemory'', 1),
     (''_SharedObject_C_hasSharedMemory'', 1),
     (''_SharedObject_C_getSharedMemorySize'', 1),
     (''_SharedObject_C_getSharedMemoryPath'', 0),
     (''_SharedObject_createSharedObjectFromSource'', 5),
     (''_SharedObject_createSharedStringFromSource'', 3),
     (''_SharedObject_getSharedObjectList'', 0),
     (''_SharedObject_C_setSharedMemoryPrint'', 1),
     (''_SharedObject_C_setAltrepPrint'', 1),
     (''_SharedObject_C_setPackagePrint'', 1),
     (''_SharedObject_getSharedMemoryPath'', 0)]"

primrec registered_as :: "'v dot_call \<Rightarrow> string \<times> nat" where
  "registered_as Call_C_getDataInfoTemplate = (''_SharedObject_C_getDataInfoTemplate'', 0)"
| "registered_as Call_C_getStringDataInfoTemplate = (''_SharedObject_C_getStringDataInfoTemplate'', 0)"
| "registered_as (Call_C_createEmptySharedObject _ _ _ _ _ _) = (''_SharedObject_C_createEmptySharedObject'', 6)"
| "registered_as (Call_C_createSharedObjectFromSource _ _ _ _ _) = (''_SharedObject_C_createSharedObjectFromSource'', 5)"
| "registered_as (Call_C_createSharedStringFromSource _ _ _) = (''_SharedObject_C_createSharedStringFromSource'', 3)"
| "registered_as (Call_C_readSharedObject _) = (''_SharedObject_C_readSharedObject'', 1)"
| "registered_as (Call_C_unshare _ _) = (''_SharedObject_C_unshare'', 2)"
| "registered_as (Call_C_unshareString _ _) = (''_SharedObject_C_unshareString'', 2)"
| "registered_as (Call_C_setSharedObjectOwership _ _) = (''_SharedObject_C_setSharedObjectOwership'', 2)"
| "registered_as (Call_C_getSharedObjectOwership _) = (''_SharedObject_C_getSharedObjectOwership'', 1)"
| "registered_as (Call_C_xlength _) = (''_SharedObject_C_xlength'', 1)"
| "registered_as (Call_C_ALTREP _) = (''_SharedObject_C_ALTREP'', 1)"
| "registered_as (Call_C_getAltData1 _) = (''_SharedObject_C_getAltData1'', 1)"
| "registered_as (Call_C_getAltData2 _) = (''_SharedObject_C_getAltData2'', 1)"
| "registered_as (Call_C_isShared _) = (''_SharedObject_C_isShared'', 1)"
| "registered_as (Call_C_setAltData1 _ _) = (''_SharedObject_C_setAltData1'', 2)"
| "registered_as (Call_C_setAltData2 _ _) = (''_SharedObject_C_setAltData2'', 2)"
| "registered_as (Call_C_getObject _) = (''_SharedObject_C_getObject'', 1)"
| "registered_as (Call_C_setObject _ _) = (''_SharedObject_C_setObject'', 2)"
| "registered_as (Call_C_ISS4 _) = (''_SharedObject_C_ISS4'', 1)"
| "registered_as (Call_C_SETS4 _) = (''_SharedObject_C_SETS4'', 1)"
| "registered_as (Call_C_UNSETS4 _) = (''_SharedObject_C_UNSETS4'', 1)"
| "registered_as (Call_C_isSameObject _ _) = (''_SharedObject_C_isSameObject'', 2)"
| "registered_as (Call_C_getDataTypeId _) = (''_SharedObject_C_getDataTypeId'', 1)"
| "registered_as Call_C_initialPkgData = (''_SharedObject_C_initialPkgData'', 0)"
| "registered_as Call_C_releasePkgData = (''_SharedObject_C_releasePkgData'', 0)"
| "registered_as Call_C_getLastIndex = (''_SharedObject_C_getLastIndex'', 0)"
| "registered_as (Call_C_allocateSharedMemory _ _) = (''_SharedObject_C_allocateSharedMemory'', 2)"
| "registered_as (Call_C_mapSharedMemory _) = (''_SharedObject_C_mapSharedMemory'', 1)"
| "registered_as (Call_C_unmapSharedMemory _) = (''_SharedObject_C_unmapSharedMemory'', 1)"
| "registered_as (Call_C_freeSharedMemory _) = (''_SharedObject_C_freeSharedMemory'', 1)"
| "registered_as (Call_C_hasSharedMemory _) = (''_SharedObject_C_hasSharedMemory'', 1)"
| "registered_as (Call_C_getSharedMemorySize _) = (''_SharedObject_C_getSharedMemorySize'', 1)"
| "registered_as Call_C_getSharedMemoryPath = (''_SharedObject_C_getSharedMemoryPath'', 0)"
| "registered_as (Call_createSharedObjectFromSource _ _ _ _ _) = (''_SharedObject_createSharedObjectFromSource'', 5)"
| "registered_as (Call_createSharedStringFromSource _ _ _) = (''_SharedObject_createSharedStringFromSource'', 3)"
| "registered_as Call_getSharedObjectList = (''_SharedObject_getSharedObjectList'', 0)"
| "registered_as (Call_C_setSharedMemoryPrint _) = (''_SharedObject_C_setSharedMemoryPrint'', 1)"
| "registered_as (Call_C_setAltrepPrint _) = (''_SharedObject_C_setAltrepPrint'', 1)"
| "registered_as (Call_C_setPackagePrint _) = (''_SharedObject_C_setPackagePrint'', 1)"
| "registered_as Call_getSharedMemoryPath = (''_SharedObject_getSharedMemoryPath'', 0)"

text \<open>What the library tells R when it is loaded.\<close>

record dll_info =
  dll_routines :: "(string \<times> nat) list"
  dll_useDynamicSymbols :: bool
  dll_classes :: "alt_class \<rightharpoonup> registration"

definition R_init_SharedObject :: "dll_info \<Rightarrow> dll_info" where
  "R_init_SharedObject dll =
     (let dll1 = dll\<lparr>dll_routines := CallEntries\<rparr>;
          dll2 = dll1\<lparr>dll_useDynamicSymbols := False\<rparr>;
          init = \<lambda>type reg d. d\<lparr>dll_classes := init_class type reg (dll_classes d)\<rparr>;
          dll3 = init REALSXP (ALT_COMMOM_REGISTRATION ''shared_real'') dll2;
          dll4 = init INTSXP (ALT_COMMOM_REGISTRATION ''shared_int'') dll3;
          dll5 = init LGLSXP (ALT_COMMOM_REGISTRATION ''shared_logical'') dll4;
          dll6 = init RAWSXP (ALT_COMMOM_REGISTRATION ''shared_raw'') dll5;
          dll7 = init CPLXSXP (ALT_COMMOM_REGISTRATION ''shared_complex'') dll6
      in init STRSXP (string_registration ''shared_string'') dll7)"

section \<open>Arguments that cannot be converted\<close>

definition fails :: "string + 'a \<Rightarrow> bool" where
  "fails c = (case c of Inl what \<Rightarrow> True | Inr x \<Rightarrow> False)"

primrec bad_argument :: "('v, 'g) rcpp \<Rightarrow> 'v dot_call \<Rightarrow> bool" where
  "bad_argument R Call_C_getDataInfoTemplate \<longleftrightarrow> False"
| "bad_argument R Call_C_getStringDataInfoTemplate \<longleftrightarrow> False"
| "bad_argument R (Call_C_createEmptySharedObject typeSEXP lengthSEXP copyOnWriteSEXP sharedSubsetSEXP sharedCopySEXP _) \<longleftrightarrow>
     fails (as_int R typeSEXP)
     \<or> fails (as_uint64 R lengthSEXP)
     \<or> fails (as_bool R copyOnWriteSEXP)
     \<or> fails (as_bool R sharedSubsetSEXP)
     \<or> fails (as_bool R sharedCopySEXP)"
| "bad_argument R (Call_C_createSharedObjectFromSource _ copyOnWriteSEXP sharedSubsetSEXP sharedCopySEXP _) \<longleftrightarrow>
     fails (as_bool R copyOnWriteSEXP)
     \<or> fails (as_bool R sharedSubsetSEXP)
     \<or> fails (as_bool R sharedCopySEXP)"
| "bad_argument R (Call_C_createSharedStringFromSource _ copyOnWriteSEXP _) \<longleftrightarrow>
     fails (as_bool R copyOnWriteSEXP)"
| "bad_argument R (Call_C_readSharedObject _) \<longleftrightarrow> False"
| "bad_argument R (Call_C_unshare _ _) \<longleftrightarrow> False"
| "bad_argument R (Call_C_unshareString _ _) \<longleftrightarrow> False"
| "bad_argument R (Call_C_setSharedObjectOwership _ ownDataSEXP) \<longleftrightarrow>
     fails (as_bool R ownDataSEXP)"
| "bad_argument R (Call_C_getSharedObjectOwership _) \<longleftrightarrow> False"
| "bad_argument R (Call_C_xlength _) \<longleftrightarrow> False"
| "bad_argument R (Call_C_ALTREP _) \<longleftrightarrow> False"
| "bad_argument R (Call_C_getAltData1 _) \<longleftrightarrow> False"
| "bad_argument R (Call_C_getAltData2 _) \<longleftrightarrow> False"
| "bad_argument R (Call_C_isShared _) \<longleftrightarrow> False"
| "bad_argument R (Call_C_setAltData1 _ _) \<longleftrightarrow> False"
| "bad_argument R (Call_C_setAltData2 _ _) \<longleftrightarrow> False"
| "bad_argument R (Call_C_getObject _) \<longleftrightarrow> False"
| "bad_argument R (Call_C_setObject _ iSEXP) \<longleftrightarrow>
     fails (as_int R iSEXP)"
| "bad_argument R (Call_C_ISS4 _) \<longleftrightarrow> False"
| "bad_argument R (Call_C_SETS4 _) \<longleftrightarrow> False"
| "bad_argument R (Call_C_UNSETS4 _) \<longleftrightarrow> False"
| "bad_argument R (Call_C_isSameObject _ _) \<longleftrightarrow> False"
| "bad_argument R (Call_C_getDataTypeId typeSEXP) \<longleftrightarrow>
     fails (as_string R typeSEXP)"
| "bad_argument R Call_C_initialPkgData \<longleftrightarrow> False"
| "bad_argument R Call_C_releasePkgData \<longleftrightarrow> False"
| "bad_argument R Call_C_getLastIndex \<longleftrightarrow> False"
| "bad_argument R (Call_C_allocateSharedMemory size_in_byteSEXP nameSEXP) \<longleftrightarrow>
     fails (as_uint64 R size_in_byteSEXP)
     \<or> fails (as_string R nameSEXP)"
| "bad_argument R (Call_C_mapSharedMemory idSEXP) \<longleftrightarrow>
     fails (as_string R idSEXP)"
| "bad_argument R (Call_C_unmapSharedMemory idSEXP) \<longleftrightarrow>
     fails (as_string R idSEXP)"
| "bad_argument R (Call_C_freeSharedMemory idSEXP) \<longleftrightarrow>
     fails (as_string R idSEXP)"
| "bad_argument R (Call_C_hasSharedMemory idSEXP) \<longleftrightarrow>
     fails (as_string R idSEXP)"
| "bad_argument R (Call_C_getSharedMemorySize idSEXP) \<longleftrightarrow>
     fails (as_string R idSEXP)"
| "bad_argument R Call_C_getSharedMemoryPath \<longleftrightarrow> False"
| "bad_argument R (Call_createSharedObjectFromSource _ copyOnWriteSEXP sharedSubsetSEXP sharedCopySEXP _) \<longleftrightarrow>
     fails (as_bool R copyOnWriteSEXP)
     \<or> fails (as_bool R sharedSubsetSEXP)
     \<or> fails (as_bool R sharedCopySEXP)"
| "bad_argument R (Call_createSharedStringFromSource _ copyOnWriteSEXP _) \<longleftrightarrow>
     fails (as_bool R copyOnWriteSEXP)"
| "bad_argument R Call_getSharedObjectList \<longleftrightarrow> False"
| "bad_argument R (Call_C_setSharedMemoryPrint xSEXP) \<longleftrightarrow>
     fails (as_bool R xSEXP)"
| "bad_argument R (Call_C_setAltrepPrint xSEXP) \<longleftrightarrow>
     fails (as_bool R xSEXP)"
| "bad_argument R (Call_C_setPackagePrint xSEXP) \<longleftrightarrow>
     fails (as_bool R xSEXP)"
| "bad_argument R Call_getSharedMemoryPath \<longleftrightarrow> False"

text \<open>The calls by which R code takes over the counting of references.\<close>

definition by_hand :: "'v dot_call \<Rightarrow> bool" where
  "by_hand c = (case c of Call_C_mapSharedMemory _ \<Rightarrow> True | Call_C_unmapSharedMemory _ \<Rightarrow> True
     | Call_C_freeSharedMemory _ \<Rightarrow> True | _ \<Rightarrow> False)"

end
