(* ===== verification/RcppCalls.thy ===== *)
theory RcppCalls
  imports RcppExports Session
begin

text \<open>
  The calls of R through the registered routines: how they end, that they are steps of the session, and
  that nothing happens when an argument cannot be converted. For every wrapper the proof follows its
  structure, with the rules in \<open>body_intros\<close> and \<open>step_intros\<close>.
\<close>

section \<open>How a wrapper ends\<close>

definition closed_scope :: "('v, 'g) rcpp \<Rightarrow> 'g \<Rightarrow> 'g" where
  "closed_scope R g = RNGScope_delete R (RNGScope_new R g)"

lemma rcpp_export_run:
  "rcpp_export R body p =
     (case body (p\<lparr>proc_rng := RNGScope_new R (proc_rng p)\<rparr>) of
        (Inr x, p') \<Rightarrow> (Inr x, p'\<lparr>proc_rng := RNGScope_delete R (proc_rng p')\<rparr>)
      | (Inl (CppError what), p') \<Rightarrow> (Inl (RError what), p'\<lparr>proc_rng := RNGScope_delete R (proc_rng p')\<rparr>)
      | (Inl e, p') \<Rightarrow> (Inl e, p'))"
  by (auto simp: rcpp_export_def rng_scope_def catchCpp_run fail_run split: prod.splits sum.splits so_error.splits)

definition same_rng :: "('os, 'r, 'g) process \<Rightarrow> ('os, 'r, 'g) process \<Rightarrow> bool" where
  "same_rng p p' \<longleftrightarrow> proc_rng p' = proc_rng p"

interpretation same_rng: step_relation same_rng
  by unfold_locales (simp_all add: same_rng_def)

named_theorems body_intros \<open>bodies of wrappers keep the random numbers\<close>

declare same_rng.composed [body_intros]

lemma same_rng_session [body_intros]: "preserves same_rng (in_session m)"
  by (rule preservesI) (auto simp: in_session_def same_rng_def split: prod.splits)

lemma same_rng_heap [body_intros]: "preserves same_rng (in_heap m)"
  by (rule preservesI) (auto simp: in_heap_def same_rng_def split: prod.splits)

lemma same_rng_flags [body_intros]: "preserves same_rng (in_flags m)"
  by (rule preservesI) (auto simp: in_flags_def same_rng_def split: prod.splits)

lemma same_rng_arg [body_intros]: "preserves same_rng (as_arg c)"
  by (cases c) (simp_all add: as_arg_def same_rng.composed)

lemma same_rng_result [body_intros]: "preserves same_rng m \<Longrightarrow> preserves same_rng (result g m)"
  unfolding result_def by (intro body_intros)

definition ends :: "('v, 'g) rcpp \<Rightarrow> (('os, 'r, 'g) process, 'a) exec \<Rightarrow> bool" where
  "ends R m \<longleftrightarrow> (\<forall>p r p'. m p = (r, p') \<longrightarrow>
     (\<forall>what. r \<noteq> Inl (CppError what)) \<and>
     (case r of Inr x \<Rightarrow> proc_rng p' = closed_scope R (proc_rng p)
      | Inl e \<Rightarrow> proc_rng p' \<in> {closed_scope R (proc_rng p), RNGScope_new R (proc_rng p)}))"

lemma export_ends: "preserves same_rng body \<Longrightarrow> ends R (rcpp_export R body)"
  unfolding ends_def
proof (intro allI impI)
  fix p r p'
  assume body: "preserves same_rng body" and run: "rcpp_export R body p = (r, p')"
  let ?q = "p\<lparr>proc_rng := RNGScope_new R (proc_rng p)\<rparr>"
  obtain r1 p1 where m: "body ?q = (r1, p1)"
    by fastforce
  have "proc_rng p1 = RNGScope_new R (proc_rng p)"
    using preservesD [OF body m] by (simp add: same_rng_def)
  then show "(\<forall>what. r \<noteq> Inl (CppError what)) \<and>
     (case r of Inr x \<Rightarrow> proc_rng p' = closed_scope R (proc_rng p)
      | Inl e \<Rightarrow> proc_rng p' \<in> {closed_scope R (proc_rng p), RNGScope_new R (proc_rng p)})"
    using run m by (auto simp: rcpp_export_run closed_scope_def split: sum.splits so_error.splits)
qed

text \<open>The wrapper of each routine, by name.\<close>

lemmas wrappers =
  SharedObject_C_getDataInfoTemplate_def SharedObject_C_getStringDataInfoTemplate_def
  SharedObject_C_createEmptySharedObject_def SharedObject_C_createSharedObjectFromSource_def
  SharedObject_C_createSharedStringFromSource_def SharedObject_C_readSharedObject_def SharedObject_C_unshare_def
  SharedObject_C_unshareString_def SharedObject_C_setSharedObjectOwership_def
  SharedObject_C_getSharedObjectOwership_def SharedObject_C_xlength_def SharedObject_C_ALTREP_def
  SharedObject_C_getAltData1_def SharedObject_C_getAltData2_def SharedObject_C_isShared_def
  SharedObject_C_setAltData1_def SharedObject_C_setAltData2_def SharedObject_C_getObject_def
  SharedObject_C_setObject_def SharedObject_C_ISS4_def SharedObject_C_SETS4_def SharedObject_C_UNSETS4_def
  SharedObject_C_isSameObject_def SharedObject_C_getDataTypeId_def SharedObject_C_initialPkgData_def
  SharedObject_C_releasePkgData_def SharedObject_C_getLastIndex_def SharedObject_C_allocateSharedMemory_def
  SharedObject_C_mapSharedMemory_def SharedObject_C_unmapSharedMemory_def SharedObject_C_freeSharedMemory_def
  SharedObject_C_hasSharedMemory_def SharedObject_C_getSharedMemorySize_def
  SharedObject_C_getSharedMemoryPath_def SharedObject_createSharedObjectFromSource_def
  SharedObject_createSharedStringFromSource_def SharedObject_getSharedObjectList_def
  SharedObject_C_setSharedMemoryPrint_def SharedObject_C_setAltrepPrint_def SharedObject_C_setPackagePrint_def
  SharedObject_getSharedMemoryPath_def

lemma dot_Call_ends: "ends R (dot_Call R B A c)"
  by (cases c; simp only: dot_Call.simps wrappers; rule export_ends; intro body_intros)

section \<open>Calls as steps of the session\<close>

definition session_steps :: "'os boost \<Rightarrow> (('os, 'r, 'g) process, 'a) exec \<Rightarrow> bool" where
  "session_steps B m \<longleftrightarrow> (\<forall>p r p'. m p = (r, p') \<longrightarrow> defined r \<longrightarrow>
     proc_session p' = proc_session p \<or> own_step B (proc_session p) (proc_session p'))"

named_theorems step_intros \<open>calls that are steps of the session\<close>

lemma steps_export: "session_steps B m \<Longrightarrow> session_steps B (rcpp_export R m)"
  unfolding session_steps_def
proof (intro allI impI)
  fix p r p'
  assume m: "\<forall>p r p'. m p = (r, p') \<longrightarrow> defined r \<longrightarrow>
      proc_session p' = proc_session p \<or> own_step B (proc_session p) (proc_session p')"
    and run: "rcpp_export R m p = (r, p')" and "defined r"
  let ?q = "p\<lparr>proc_rng := RNGScope_new R (proc_rng p)\<rparr>"
  obtain r1 p1 where body: "m ?q = (r1, p1)"
    by fastforce
  have "defined r1 \<and> proc_session p' = proc_session p1"
    using run body \<open>defined r\<close> by (auto simp: rcpp_export_run split: sum.splits so_error.splits)
  then show "proc_session p' = proc_session p \<or> own_step B (proc_session p) (proc_session p')"
    using m body by fastforce
qed

definition same_session :: "('os, 'r, 'g) process \<Rightarrow> ('os, 'r, 'g) process \<Rightarrow> bool" where
  "same_session p p' \<longleftrightarrow> proc_session p' = proc_session p"

lemma steps_same: "preserves same_session m \<Longrightarrow> session_steps B m"
  by (auto simp: session_steps_def preserves_def same_session_def)

interpretation same_session: step_relation same_session
  by unfold_locales (simp_all add: same_session_def)

lemma same_session_heap: "preserves same_session (in_heap m)"
  by (rule preservesI) (auto simp: in_heap_def same_session_def split: prod.splits)

lemma same_session_flags: "preserves same_session (in_flags m)"
  by (rule preservesI) (auto simp: in_flags_def same_session_def split: prod.splits)

lemma same_session_reads: "preserves same_session (in_session (reads f))"
  by (rule preservesI) (auto simp: in_session_def reads_def returns_run same_session_def)

lemma same_session_result: "preserves same_session m \<Longrightarrow> preserves same_session (result g m)"
  unfolding result_def by (intro same_session.composed)

lemmas same_sessions = same_session.preserves_ok same_session.preserves_of_sum same_session_heap same_session_flags
  same_session_reads

lemmas steps_unchanged [step_intros] = same_session.preserves_ok [THEN steps_same]
  same_sessions [THEN same_session_result, THEN steps_same]

lemma steps_arg [step_intros]: "(\<And>x. session_steps B (f x)) \<Longrightarrow> session_steps B (andThen (as_arg c) f)"
  by (cases c) (auto simp: session_steps_def as_arg_def andThen_run fail_run ok_run)

text \<open>A call on the session with the effect of a request.\<close>

lemma steps_own:
  assumes "\<And>w r w'. m w = (r, w') \<Longrightarrow> defined r \<Longrightarrow> own_step B w w'"
  shows "session_steps B (result g (in_session m))"
  unfolding session_steps_def
proof (intro allI impI)
  fix p r p'
  assume run: "result g (in_session m) p = (r, p')" and "defined r"
  obtain r1 w1 where m: "m (proc_session p) = (r1, w1)"
    by fastforce
  have "proc_session p' = w1 \<and> defined r1"
    using run m \<open>defined r\<close> by (cases r1) (auto simp: result_def in_session_def andThen_run ok_run defined_def)
  then show "proc_session p' = proc_session p \<or> own_step B (proc_session p) (proc_session p')"
    using assms [OF m] by simp
qed

lemma steps_request:
  assumes "serve B req = ignore m"
  shows "session_steps B (result g (in_session m))"
proof (rule steps_own)
  fix w r w'
  assume run: "m w = (r, w')" and "defined r"
  have "serve B req w = (map_sum id (\<lambda>_. ()) r, w')"
    using run by (cases r) (simp_all add: assms ignore_def ok_run)
  moreover have "defined (map_sum id (\<lambda>_. ()) r)"
    using \<open>defined r\<close> by (cases r) (simp_all add: defined_def)
  ultimately show "own_step B w w'"
    by (rule own_step.served)
qed

lemma steps_request_unit: "serve B req = m \<Longrightarrow> session_steps B (result g (in_session m))"
  by (rule steps_own) (auto intro: own_step.served)

lemma steps_release [step_intros]: "session_steps B (result g (in_session (changes (C_releasePkgData B))))"
  by (rule steps_own) (auto simp: changes_def returns_run intro: own_step.released)

lemmas steps_requests [step_intros] =
  serve.simps(1-9,11-13,15-21,23,24) [THEN steps_request] serve.simps(10,14,22) [THEN steps_request_unit]

lemmas steps_requests_direct [step_intros] =
  serve.simps(2) [unfolded C_createSharedObjectFromSource_def, THEN steps_request]
  serve.simps(3) [unfolded C_createSharedStringFromSource_def, THEN steps_request]

lemma dot_Call_steps: "\<not> by_hand c \<Longrightarrow> session_steps B (dot_Call R B A c)"
  by (cases c; simp only: dot_Call.simps wrappers by_hand_def dot_call.case simp_thms; rule steps_export; intro step_intros)

section \<open>Arguments that cannot be converted\<close>

definition rejects :: "('s, 'a) exec \<Rightarrow> bool" where
  "rejects m \<longleftrightarrow> (\<forall>s. \<exists>what. m s = (Inl (CppError what), s))"

lemma rejects_here: "fails c \<Longrightarrow> rejects (andThen (as_arg c) f)"
  by (cases c) (auto simp: rejects_def fails_def as_arg_def andThen_run fail_run)

lemma rejects_later: "(\<And>x. rejects (f x)) \<Longrightarrow> rejects (andThen (as_arg c) f)"
  by (cases c) (auto simp: rejects_def as_arg_def andThen_run fail_run ok_run)

lemma rejects_export:
  assumes "rejects m"
  shows "\<exists>what. rcpp_export R m p = (Inl (RError what), p\<lparr>proc_rng := closed_scope R (proc_rng p)\<rparr>)"
proof -
  obtain what where "m (p\<lparr>proc_rng := RNGScope_new R (proc_rng p)\<rparr>) =
      (Inl (CppError what), p\<lparr>proc_rng := RNGScope_new R (proc_rng p)\<rparr>)"
    using assms by (auto simp: rejects_def)
  then show ?thesis
    by (simp add: rcpp_export_run closed_scope_def)
qed

lemma dot_Call_rejects:
  "bad_argument R c \<Longrightarrow> \<exists>what. dot_Call R B A c p = (Inl (RError what), p\<lparr>proc_rng := closed_scope R (proc_rng p)\<rparr>)"
  by (cases c; simp only: dot_Call.simps wrappers bad_argument.simps; rule rejects_export; (elim disjE)?;
      ((rule rejects_here, assumption) | rule rejects_later)+)

section \<open>The table and the initialization\<close>

text \<open>Every wrapper is registered under its name with the number of its arguments, and nothing else is.\<close>

lemma registered_routines: "range (registered_as :: 'v dot_call \<Rightarrow> string \<times> nat) = set CallEntries"
proof
  have "registered_as c \<in> set CallEntries" for c :: "'v dot_call"
    by (cases c) (simp_all only: registered_as.simps CallEntries_def list.set insert_iff simp_thms)
  then show "range (registered_as :: 'v dot_call \<Rightarrow> string \<times> nat) \<subseteq> set CallEntries"
    by blast
next
  show "set CallEntries \<subseteq> range (registered_as :: 'v dot_call \<Rightarrow> string \<times> nat)"
    unfolding CallEntries_def list.set insert_subset
    by (intro conjI empty_subsetI; rule range_eqI; rule registered_as.simps [symmetric])
qed

lemma initialized:
  "dll_routines (R_init_SharedObject dll) = CallEntries" "\<not> dll_useDynamicSymbols (R_init_SharedObject dll)"
  "dll_classes (R_init_SharedObject dll) =
     (init_class STRSXP (string_registration ''shared_string'') \<circ>
      init_class CPLXSXP (ALT_COMMOM_REGISTRATION ''shared_complex'') \<circ>
      init_class RAWSXP (ALT_COMMOM_REGISTRATION ''shared_raw'') \<circ>
      init_class LGLSXP (ALT_COMMOM_REGISTRATION ''shared_logical'') \<circ>
      init_class INTSXP (ALT_COMMOM_REGISTRATION ''shared_int'') \<circ>
      init_class REALSXP (ALT_COMMOM_REGISTRATION ''shared_real'')) (dll_classes dll)"
  by (simp_all add: R_init_SharedObject_def Let_def)

text \<open>After the initialization every class of the package is registered under its methods.\<close>

lemma classes_registered: "dll_classes (R_init_SharedObject (dll\<lparr>dll_classes := Map.empty\<rparr>)) = registered_classes"
  unfolding initialized registered_classes_def
  by (rule ext, rename_tac cls, case_tac cls)
    (simp_all add: init_class_def getAltClass_def sexp_types)

text \<open>The functions of \<open>altrep.cpp\<close> that are exported under their own names are those of \<open>C_interface.cpp\<close>.\<close>

lemma exported_twice:
  "dot_Call R B A (Call_createSharedObjectFromSource x a b c d) = dot_Call R B A (Call_C_createSharedObjectFromSource x a b c d)"
  "dot_Call R B A (Call_createSharedStringFromSource s a d) = dot_Call R B A (Call_C_createSharedStringFromSource s a d)"
  "dot_Call R B A Call_getSharedMemoryPath = dot_Call R B A Call_C_getSharedMemoryPath"
  by (simp_all only: dot_Call.simps wrappers C_createSharedObjectFromSource_def C_createSharedStringFromSource_def
      C_getSharedMemoryPath_def [abs_def])

end
