(* ===== verification/RcppProps.thy ===== *)
theory RcppProps
  imports RcppCalls Example
begin

text \<open>
  Properties of the calls of R through the registered routines. The witnesses run them on the reference
  machine, with a small model of R's scalars for the conversions.
\<close>

section \<open>Scalars of R\<close>

datatype r_scalar = R_lgl bool | R_int int | R_dbl u64 | R_chr string

definition plain_rcpp :: "(r_scalar, nat) rcpp" where
  "plain_rcpp =
     \<lparr>as_int = (\<lambda>v. case v of R_int i \<Rightarrow> Inr i | _ \<Rightarrow> Inl ''Expecting a single value''),
      as_bool = (\<lambda>v. case v of R_lgl b \<Rightarrow> Inr b | _ \<Rightarrow> Inl ''Expecting a single value''),
      as_uint64 = (\<lambda>v. case v of R_dbl d \<Rightarrow> Inr d | _ \<Rightarrow> Inl ''Expecting a single value''),
      as_string = (\<lambda>v. case v of R_chr s \<Rightarrow> Inr s | _ \<Rightarrow> Inl ''Expecting a single string value''),
      wrap_int = R_int, wrap_long = (\<lambda>n. R_dbl (of_int n)), wrap_bool = R_lgl, wrap_uint64 = R_dbl, wrap_string = R_chr,
      RNGScope_new = Suc, RNGScope_delete = (\<lambda>n. n - 1)\<rparr>"

definition plain_api :: "(nat \<Rightarrow> int) r_api" where
  "plain_api =
     \<lparr>XLENGTH = (\<lambda>x h. 0), R_altrep_data1 = (\<lambda>x h. 0), R_altrep_data2 = (\<lambda>x h. 0),
      R_set_altrep_data1 = (\<lambda>x d h. h), R_set_altrep_data2 = (\<lambda>x d h. h),
      OBJECT = (\<lambda>x h. h x), SET_OBJECT = (\<lambda>x i h. h(x := i)),
      IS_S4_OBJECT = (\<lambda>x h. h x \<noteq> 0), SET_S4_OBJECT = (\<lambda>x h. h(x := 1)), UNSET_S4_OBJECT = (\<lambda>x h. h(x := 0))\<rparr>"

definition plain_process :: "'os session \<Rightarrow> ('os, nat \<Rightarrow> int, nat) process" where
  "plain_process w = \<lparr>proc_session = w, proc_heap = (\<lambda>x. 0), proc_flags = print_flags_init, proc_rng = 0\<rparr>"

definition demo_call :: "r_scalar dot_call" where
  "demo_call = Call_C_createSharedObjectFromSource (demo_source True) (R_lgl True) (R_lgl False) (R_lgl False) R_NilValue"

lemma demo_call_run:
  "dot_Call plain_rcpp posix_boost plain_api demo_call (plain_process demo1) = (Inr (SEXP_vector demo_vector), plain_process demo2)"
  using demo2_create
  by (simp add: demo_call_def SharedObject_C_createSharedObjectFromSource_def rcpp_export_run as_arg_def result_def
      in_session_def plain_process_def plain_rcpp_def C_createSharedObjectFromSource_def andThen_run ok_run)

section \<open>Properties\<close>

text \<open>
  C17. A call from R is a step of the session or leaves it as it is: whatever routine R code calls, with
  whatever arguments and outcome, a reachable session stays reachable, so that the properties of reachable
  sessions hold after any sequence of calls. Only the three calls that manage mappings by hand
  are excepted, and undefined behaviour.
\<close>

theorem calls_are_steps:
  assumes "session_reachable B (proc_session p)" and "\<not> by_hand c" and "dot_Call R B A c p = (r, p')" and "defined r"
  shows "(proc_session p' = proc_session p \<or> own_step B (proc_session p) (proc_session p')) \<and>
    session_reachable B (proc_session p')"
proof -
  have "proc_session p' = proc_session p \<or> own_step B (proc_session p) (proc_session p')"
    using dot_Call_steps [OF assms(2), of B R A] assms(3,4) by (auto simp: session_steps_def)
  then show ?thesis
    using assms(1) by (auto intro: session_reachable.step session_step.own)
qed

theorem calls_are_steps_witness: "session_reachable posix_boost demo2"
proof -
  have "\<not> by_hand demo_call"
    by (simp add: by_hand_def demo_call_def)
  then show ?thesis
    using calls_are_steps [OF _ _ demo_call_run] demo1_reachable by (simp add: plain_process_def defined_def)
qed

text \<open>
  C20. How a call ends: unless its behaviour is undefined (or its search for an id were cut off, which C8 excludes while the counter is mapped), with a
  value or an error of R, and never with a C++ exception; after a value the scope of R's random numbers is closed
  again; and when an argument cannot be converted the call is an error of R and nothing else happens.
\<close>

theorem call_ends:
  assumes "dot_Call R B A c p = (r, p')"
  shows "(defined r \<and> r \<noteq> Inl OutOfFuel \<longrightarrow> (\<exists>x. r = Inr x) \<or> (\<exists>msg. r = Inl (RError msg))) \<and> (\<forall>what. r \<noteq> Inl (CppError what)) \<and>
    (\<forall>x. r = Inr x \<longrightarrow> proc_rng p' = RNGScope_delete R (RNGScope_new R (proc_rng p))) \<and>
    (bad_argument R c \<longrightarrow> (\<exists>what. r = Inl (RError what)) \<and>
       p' = p\<lparr>proc_rng := RNGScope_delete R (RNGScope_new R (proc_rng p))\<rparr>)"
proof -
  have ends: "(\<forall>what. r \<noteq> Inl (CppError what)) \<and> (\<forall>x. r = Inr x \<longrightarrow> proc_rng p' = closed_scope R (proc_rng p))"
    using dot_Call_ends [of R B A c, unfolded ends_def, rule_format, OF assms] by (cases r) simp_all
  have "bad_argument R c \<Longrightarrow> \<exists>what. (r, p') = (Inl (RError what), p\<lparr>proc_rng := closed_scope R (proc_rng p)\<rparr>)"
    using dot_Call_rejects [of R c B A p] unfolding assms .
  moreover have "defined r \<and> r \<noteq> Inl OutOfFuel \<longrightarrow> (\<exists>x. r = Inr x) \<or> (\<exists>msg. r = Inl (RError msg))"
    using ends by (cases r; cases "projl r") (auto simp: defined_def)
  ultimately show ?thesis
    using ends unfolding closed_scope_def by blast
qed

theorem call_ends_witness:
  "\<exists>what. dot_Call plain_rcpp posix_boost plain_api (Call_C_hasSharedMemory (R_lgl True)) (plain_process demo1) =
     (Inl (RError what), plain_process demo1)"
proof -
  have bad: "bad_argument plain_rcpp (Call_C_hasSharedMemory (R_lgl True))"
    by (simp add: fails_def plain_rcpp_def)
  obtain r p' where run: "dot_Call plain_rcpp posix_boost plain_api (Call_C_hasSharedMemory (R_lgl True)) (plain_process demo1) = (r, p')"
    by (rule prod.exhaust)
  have "(plain_process demo1)\<lparr>proc_rng := RNGScope_delete plain_rcpp (RNGScope_new plain_rcpp (proc_rng (plain_process demo1)))\<rparr> =
      plain_process demo1"
    by (simp add: plain_process_def plain_rcpp_def)
  then show ?thesis
    using call_ends [OF run] bad unfolding run by auto
qed

text \<open>
  An error of R that the code raises itself jumps over the destructor of \<open>RNGScope\<close>: the scope stays
  open.
\<close>

theorem jump_leaves_scope:
  assumes "as_string R t = Inr s" and "C_getDataTypeId s = Inl (RError msg)"
  shows "dot_Call R B A (Call_C_getDataTypeId t) p = (Inl (RError msg), p\<lparr>proc_rng := RNGScope_new R (proc_rng p)\<rparr>)"
  using assms
  by (simp add: SharedObject_C_getDataTypeId_def rcpp_export_run as_arg_def result_def of_sum_run andThen_run ok_run)

end
