(* ===== verification/Spec2Isabelle.thy ===== *)
theory Spec2Isabelle
  imports ProcessProps ProcessLock VectorProps StringProps RegistryProps LockProps IdProps Release RcppProps
begin

text \<open>
  A verification library for the C++ part of the R package SharedObject. The package keeps R vectors
  in POSIX shared memory: an ALTREP object of R refers to a segment by an id, several R processes map
  the same segment, and the finalizers of the external pointers release it.

  \<^bold>\<open>Parts of the program and their theories.\<close>

  \<^item> \<open>BoostShm\<close>: what the code uses of boost::interprocess and the operating system (shared memory
    objects, mapped regions, named semaphores, statvfs, signals), as the record \<open>boost\<close> of operations
    on an abstract machine. They are parameters of every definition. The locales \<open>shm_os\<close> (what POSIX
    documents of successful and failed calls) and \<open>shm_os_live\<close> (a call whose preconditions hold
    succeeds) are the only assumptions; they speak through \<open>shm_view\<close>: names, objects, handles and
    mappings. \<open>PosixShm\<close> is a reference machine that satisfies them; only witnesses run on it.
  \<^item> \<open>Utils\<close>, \<open>CopyData\<close>: src/src/utils.cpp (sizes, paths, errors, the protect guard, \<open>copyData\<close>).
  \<^item> \<open>SharedObjectClass\<close>: src/src/sharedObjectClass.cpp, one segment with its handle and mapping.
  \<^item> \<open>SharedMemory\<close>: the registry of src/src/sharedMemory.cpp, \<open>sharedObjectList\<close> and \<open>mapCounter\<close>. Its
    contract is the locale \<open>mapping_store\<close> of \<open>MappingStore\<close>, interpreted in \<open>SharedMemory\<close> on
    \<open>mapSharedMemoryInternal\<close> and \<open>unmapSharedMemoryInternal\<close>; \<open>Session\<close> extends it with
    \<open>freeSharedMemoryInternal\<close> (\<open>mapping_store_free\<close>).
  \<^item> \<open>PkgData\<close>: the rest of sharedMemory.cpp: the counter of ids that lies in shared memory itself,
    \<open>getNextId\<close>, \<open>initialPkgData\<close> and the process lock.
  \<^item> \<open>NumericAltrep\<close>: the parts of src/src/altrep.cpp on vectors and
    src/src/numericAltrepOperations.cpp. \<open>SharedString\<close>: the parts on strings and
    src/src/stringAltrepOperations.cpp.
  \<^item> \<open>CInterface\<close>: src/src/altrepRegistration.cpp, src/src/altrepMacro.h, the functions of
    src/src/C_interface.cpp that R calls, inspection and print flags.
  \<^item> \<open>RcppExports\<close>: src/src/RcppExports.cpp, the entry points of the shared library. Each wrapper converts
    the arguments of R's \<open>.Call\<close> (conversions are parameters, the record \<open>rcpp\<close>), calls the function inside a scope of
    R's random numbers, turns C++ exceptions into errors of R and converts the result. \<open>dot_Call\<close> is the
    call of any of them on the state of the R process.

  \<^bold>\<open>How the parts work together.\<close> A call is a function from a state to a result and a state (\<open>exec\<close>
  in \<open>Prelude\<close>): an object with the machine, the registry (\<open>world\<close>) or the whole session
  (\<open>session\<close>, which adds the external pointers with a finalizer and the lists inside shared strings).
  A C++ exception is \<open>CppError\<close>, R's long jump \<open>RError\<close>, undefined behaviour \<open>Undefined\<close>. \<open>Session\<close>
  makes the requests of R code, the finalizers, \<open>releasePkgData\<close> and arbitrary changes of the machine by
  other processes the steps of a transition system. \<open>Processes\<close> puts any number of sessions on one
  machine: a process starts, takes a step of its session, or ends.

  \<^bold>\<open>What the lemmas show.\<close>

  \<^item> \<open>Lifecycle\<close> and \<open>Session\<close>: the invariant that the live pointers and the package data are exactly the
    references the registry counts; every request keeps it unless its behaviour is undefined (the calls
    that manage mappings by hand are not among the requests, see below). It gives
    the properties C1, C2, C6 and C7. The locale \<open>step_relation\<close> of \<open>Lifecycle\<close> carries a relation
    between the states before and after through the control structures of the code.
  \<^item> \<open>Isolation\<close>: the relation \<open>isolated\<close> of every request, finalizer and release: a process gets only
    fresh handles and mappings and leaves those of others alone. \<open>Processes\<close>: the invariant of the
    processes on one machine, for C3 and C4 in \<open>ProcessProps\<close>. \<open>Release\<close>: the relation
    \<open>gives_back\<close> of the calls that end a session, for C5, and the mappings the registry holds
    (\<open>live_regions\<close>), for C2.
  \<^item> \<open>SegmentMemory\<close>, \<open>VectorMemory\<close>, \<open>StringMemory\<close>, \<open>PkgMemory\<close>: what the calls do in terms of the bytes a
    vector shows (\<open>vector_bytes\<close>) and the strings a shared string stands for (\<open>string_shows\<close>), the
    abstract values of the objects. They give the properties in \<open>VectorProps\<close> and \<open>StringProps\<close>.
  \<^item> \<open>VectorTypes\<close>: typing rules for the calls on vectors. \<open>ObjectMachine\<close>: the contract of one
    shared memory object as a state machine, which \<open>SharedObjectClass\<close> refines.
  \<^item> \<open>RcppCalls\<close>: the calls of R through \<open>dot_Call\<close> are steps of the session, for C17 and C20 in
    \<open>RcppProps\<close>: what holds of reachable sessions holds after any sequence of calls.
  \<^item> \<open>RegistryFacts\<close>: failures and queries, and \<open>ManualMemory\<close>: the life of a segment that R code
    allocates, maps, unmaps and frees by hand, for \<open>RegistryProps\<close>.
  \<^item> \<open>ProcessLock\<close>: the interleaving of several processes in the process lock, with the locale
    \<open>named_semaphores\<close> for the semaphores, for \<open>LockProps\<close>.
  \<^item> \<open>IdRace\<close>: the interleaving of several processes in \<open>getNextId\<close>, access by access to the shared
    counter: the steps of one process (\<open>search_step\<close>), which alone are \<open>getNextId\<close>, and their interleaving
    (\<open>id_step\<close>). \<open>SetupRace\<close>: their set-up of the counter, with the lock around it; the steps of one process
    alone are \<open>initialPkgData\<close>. \<open>IdProps\<close>: the ids are different once the counter is set up, but not
    during the set-up, and two searches may not end.
  \<^item> \<open>Example\<close>: a run on the reference machine, for the witnesses.

  \<^bold>\<open>Bounds.\<close> \<open>getNextId_loop\<close> has \<open>2 ^ 64\<close> units of fuel, one for each value of the counter; C8 shows that they
  are never used up. Sizes and ids are 64-bit words with wrap-around, indices of subsets 32-bit
  integers whose product overflows (C23). The build is that of 64-bit Linux.

  \<^bold>\<open>Not modelled.\<close> The Windows branches. The debug prints inside the functions (the print functions
  themselves are in \<open>CInterface\<close>). R's check of the types of the objects that the wrappers pass on without a conversion:
  they have the type the function expects. The order in which the arguments of a call are converted, which C++
  leaves open. \<open>mapCounter\<close> is an integer and not an
  \<open>int\<close>; sizes pass through doubles in \<open>getSharedMemorySize\<close> and in the data information, which are exact for vectors of R
  (\<open>getObjectSize_double\<close> in \<open>Utils\<close>), and are words here. The logarithms of \<open>createSharedStringFromSource\<close> are those of the real
  numbers. The cached vector of a shared string is a value; R code that writes through a pointer to it is
  not followed. A call is atomic with respect to other processes, except in \<open>ProcessLock\<close>,
  \<open>IdRace\<close> and \<open>SetupRace\<close>. R code that calls \<open>C_mapSharedMemory\<close>, \<open>C_unmapSharedMemory\<close> or \<open>C_freeSharedMemory\<close>
  by hand takes over the counting of references: these calls are defined, C36 shows what
  their whole cycle does and C34 what an early unmapping leads to, but they are not among the requests of a session:
  unmapping or freeing an id that has live pointers leaves them dangling, and mapping it adds a reference without a
  pointer. What C1 to C7 say of sessions and processes is said of R code that leaves mappings to the package. The
  mappings those properties speak of are the registry's (\<open>own_regions\<close>); the temporary mapping of
  \<open>validate_shared_memory\<close> is not among them. The R functions under src/R are not C++.
\<close>

section \<open>Sessions\<close>

text \<open>
  C1. In every reachable state of a session, whatever requests R code has made, whatever the garbage collector
  and other processes have done, each live external pointer of a shared object still is the address its
  segment is mapped at, and the registry's counter is the number of live pointers of that id. Only
  the three calls that manage mappings by hand (\<open>C_mapSharedMemory\<close>, \<open>C_unmapSharedMemory\<close>,
  \<open>C_freeSharedMemory\<close>) are excepted, and undefined behaviour: they are no steps of a session.
\<close>

theorem live_pointer_valid:
  assumes "session_reachable B w" and "(p, ident) \<in> set (extptrs w)"
  shows "mapped_at w (getKey ident) = Some p \<and>
    counter_at w (getKey ident) = int (count_list (map snd (extptrs w)) ident)"
  using session_mapped session_counter session_reachable_ok [OF assms(1)] assms(2) by blast

theorem live_pointer_valid_witness:
  "mapped_at demo3 (getKey ''1'') = Some (Ptr 1 0) \<and> counter_at demo3 (getKey ''1'') = 2"
  using live_pointer_valid [OF demo3_reachable, of "Ptr 1 0" "''1''"] by (simp add: demo3_extptrs)

text \<open>
  C2. The registry keeps no mapping longer than it is used: in a reachable session (mappings not managed by hand, as in C1)
  an id without a live external pointer has no mapping in the registry and its counter is 0, and the
  mappings the registry holds are those of the live pointers and of the counter of ids, and no other.
  (The mapping that a validation interrupted by \<open>SIGBUS\<close> leaves on the machine never was in the registry:
  \<open>validate_leaks\<close>.)
\<close>

theorem dead_id_unmapped:
  assumes "session_reachable B w" and "ident \<notin> snd ` set (extptrs w)"
  shows "mapped_at w (getKey ident) = None \<and> counter_at w (getKey ident) = 0 \<and>
    own_regions w = (\<lambda>(p, ident). ptr_block p) ` set (extptrs w) \<union> ptr_block ` set_option (lastId w)"
proof -
  have ok: "session_ok w"
    using assms(1) by (rule session_reachable_ok)
  have "count_list (map snd (extptrs w)) ident = 0"
    using assms(2) by (simp add: count_list_0_iff)
  then have "counter_at w (getKey ident) = 0"
    using session_counter [OF ok] by simp
  then show ?thesis
    using session_counted [OF ok] live_regions [OF ok] by (auto simp: counted_def dest!: spec [of _ "getKey ident"])
qed

theorem dead_id_unmapped_witness: "mapped_at demo2 (getKey ''7'') = None"
  using dead_id_unmapped [OF demo2_reachable, of "''7''"] by (simp add: demo2_extptrs)

text \<open>
  C6. The finalizer of the last live pointer of an id closes the mapping and the handle of the
  segment, takes it out of the registry, unlinks its name if and only if the process owns the data,
  and changes nothing else in the shared memory.
\<close>

theorem last_finalizer_releases:
  assumes "shm_os B view" and "session_reachable B w" and "(p, ident) \<in> set (extptrs w)"
    and "count_list (map snd (extptrs w)) ident = 1" and "sharedObjectList w (getKey ident) = Some so"
  shows "\<exists>h r. sharedMemoryHandle so = Some h \<and> mappedRegionHandle so = Some r \<and> p = region_address r \<and>
    sharedObjectList (ptrFinalizer B (p, ident) w) = (sharedObjectList w)(getKey ident := None) \<and>
    view (machine (ptrFinalizer B (p, ident) w)) = (view (machine w))\<lparr>
      vnames := (if ownData so then (vnames (view (machine w)))(getKey ident := None) else vnames (view (machine w))),
      vhandles := (vhandles (view (machine w)))(h := None), vregions := (vregions (view (machine w)))(r := None)\<rparr>"
proof -
  have ok: "session_ok w"
    using assms(2) by (rule session_reachable_ok)
  note reg = counted_registry_ok [OF session_counted [OF ok]]
  have "counter_at w (getKey ident) = 1"
    using session_counter [OF ok] assms(4) by simp
  note last = shm_os.unmap_last [OF assms(1,5) this reg]
  have "shared_ptr so = Some p"
    using session_mapped [OF ok assms(3)] assms(5) by (simp add: mapped_at_def)
  then obtain h r where "sharedMemoryHandle so = Some h" "mappedRegionHandle so = Some r" "p = region_address r"
    using registry_okD(2) [OF reg assms(5)] by (cases "mappedRegionHandle so") (auto simp: so_inv_def)
  then show ?thesis
    using last by (simp add: ptrFinalizer_def unmapSharedMemory_def)
qed

theorem last_finalizer_releases_witness:
  "\<exists>so. sharedObjectList demo2 (getKey ''1'') = Some so \<and> ownData so \<and>
     vnames (posix_view (machine (ptrFinalizer posix_boost (Ptr 1 0, ''1'') demo2))) (getKey ''1'') = None"
proof -
  obtain so where so: "sharedObjectList demo2 (getKey ''1'') = Some so"
    using demo2_mapped by (auto simp: mapped_at_def split: option.splits)
  have "(case sharedObjectList demo2 (getKey ''1'') of None \<Rightarrow> False | Some so \<Rightarrow> ownData so)"
    by code_simp
  then have "ownData so"
    using so by simp
  then show ?thesis
    using last_finalizer_releases [OF posix_shm_os demo2_reachable, of "Ptr 1 0" "''1''" so] so
    by (auto simp: demo2_extptrs simp del: posix_view_simps)
qed

text \<open>
  C7. Any other finalizer only decrements the counter: the machine and the registry stay as they
  are, and the segment stays mapped at the same address.
\<close>

theorem other_finalizer_keeps:
  assumes "session_reachable B w" and "(p, ident) \<in> set (extptrs w)"
    and "1 < count_list (map snd (extptrs w)) ident"
  shows "machine (ptrFinalizer B (p, ident) w) = machine w \<and>
    sharedObjectList (ptrFinalizer B (p, ident) w) = sharedObjectList w \<and>
    mapped_at (ptrFinalizer B (p, ident) w) (getKey ident) = Some p \<and>
    counter_at (ptrFinalizer B (p, ident) w) (getKey ident) = counter_at w (getKey ident) - 1"
proof -
  have ok: "session_ok w"
    using assms(1) by (rule session_reachable_ok)
  have m: "mapped_at w (getKey ident) = Some p"
    by (rule session_mapped [OF ok assms(2)])
  then obtain so where so: "sharedObjectList w (getKey ident) = Some so"
    by (auto simp: mapped_at_def split: option.splits)
  have "1 < counter_at w (getKey ident)"
    using session_counter [OF ok] assms(3) by simp
  then show ?thesis
    using m by (simp add: ptrFinalizer_def unmapSharedMemory_def unmap_internal_run [OF so] counter_at_def mapped_at_def)
qed

theorem other_finalizer_keeps_witness:
  "machine (ptrFinalizer posix_boost (Ptr 1 0, ''1'') demo3) = machine demo3"
  using other_finalizer_keeps [OF demo3_reachable, of "Ptr 1 0" "''1''"] by (simp add: demo3_extptrs)

text \<open>
  C5. Everything the registry holds is given back: from every reachable state (mappings not managed by hand, as in C1), when
  the garbage collector has run the finalizers of all external pointers, in any order, and the package is unloaded,
  the registry holds no mapping any more, exactly the mappings it held are gone from the machine, and each handle it
  held is closed or still in the registry. A mapping the
  registry did not hold stays, also the one a validation leaves behind after \<open>SIGBUS\<close> (\<open>validate_leaks\<close>).
\<close>

theorem release_everything:
  assumes "shm_os B view" and "session_reachable B w" and "mset pointers = mset (extptrs w)"
  shows "session_reachable B (release_all B pointers w) \<and> extptrs (release_all B pointers w) = [] \<and>
    own_regions (release_all B pointers w) = {} \<and>
    vregions (view (machine (release_all B pointers w))) =
      (\<lambda>r. if r \<in> own_regions w then None else vregions (view (machine w)) r) \<and>
    (\<forall>h \<in> own_handles w. h \<in> own_handles (release_all B pointers w) \<or>
      vhandles (view (machine (release_all B pointers w))) h = None)"
  using release_all_reachable [OF assms(2,3)] shm_os.gives_back_all [OF assms(1), of w pointers]
  by (simp add: gives_back_def returned_all) (simp add: returned_def)

theorem release_everything_witness:
  "vregions (posix_view (machine (release_all posix_boost [(Ptr 1 0, ''1''), (Ptr 1 0, ''1'')] demo3))) 1 = None"
proof -
  have "1 \<in> own_regions demo3"
    using live_region(2) [OF session_reachable_ok [OF demo3_reachable], of "Ptr 1 0" "''1''"] by (simp add: demo3_extptrs)
  moreover have "mset [(Ptr 1 0, ''1''), (Ptr 1 0, ''1'')] = mset (extptrs demo3)"
    by (simp add: demo3_extptrs)
  ultimately show ?thesis
    using release_everything [OF posix_shm_os demo3_reachable] by (simp del: posix_view_simps)
qed

text \<open>
  C29. \<open>getSharedObjectList\<close> tells the truth: it lists each object of the registry once, in the order of the names, the
  counter of a row is the number of live external pointers of that id, and the row says mapped if and
  only if there is one. Listing changes no mapping and no counter.
\<close>

theorem list_reports:
  assumes "session_reachable B w" and "getSharedObjectList w = (rows, w')"
  shows "sorted (map row_name rows) \<and> distinct (map row_name rows) \<and> set (map row_name rows) = dom (sharedObjectList w) \<and>
    (\<forall>row \<in> set rows. \<forall>ident. row_name row = getKey ident \<longrightarrow>
       row_sharedMemoryCounter row = int (count_list (map snd (extptrs w)) ident) \<and>
       (row_mappedRegionHandle row \<longleftrightarrow> ident \<in> snd ` set (extptrs w))) \<and>
    mapped_at w' = mapped_at w \<and> counter_at w' = counter_at w"
proof -
  have ok: "session_ok w"
    using assms(1) by (rule session_reachable_ok)
  note counted = session_counted [OF ok]
  let ?keys = "sorted_list_of_set (dom (sharedObjectList w))"
  have rows: "rows = map (row_at w) ?keys" and w': "w' = enter_counters (set ?keys) w"
    using assms(2) by (simp_all add: getSharedObjectList_run Let_def)
  have "row_sharedMemoryCounter row = int (count_list (map snd (extptrs w)) ident) \<and>
      (row_mappedRegionHandle row \<longleftrightarrow> ident \<in> snd ` set (extptrs w))"
    if "row \<in> set rows" and "row_name row = getKey ident" for row ident
  proof -
    have row: "row = row_at w (getKey ident)"
      using that rows by auto
    have "row_sharedMemoryCounter row = counter_at w (getKey ident)"
      by (simp add: row)
    moreover have "row_mappedRegionHandle row \<longleftrightarrow> mapped_at w (getKey ident) \<noteq> None"
      using row_at_mapped [OF counted_registry_ok [OF counted]] by (simp add: row)
    ultimately show ?thesis
      using session_counter [OF ok, of ident] counted count_list_0_iff [of "map snd (extptrs w)" ident]
      by (auto simp: counted_def)
  qed
  moreover have "finite (dom (sharedObjectList w))"
    using counted_registry_ok [OF counted] by (simp add: registry_ok_def)
  ultimately show ?thesis
    by (simp add: rows w' comp_def)
qed

theorem list_reports_witness:
  "\<exists>row. row \<in> set (fst (getSharedObjectList demo3)) \<and> row_name row = getKey ''1'' \<and> row_sharedMemoryCounter row = 2 \<and>
     row_mappedRegionHandle row"
proof -
  note report = list_reports [OF demo3_reachable, of "fst (getSharedObjectList demo3)" "snd (getSharedObjectList demo3)"]
  have "getKey ''1'' \<in> dom (sharedObjectList demo3)"
    using session_mapped [OF session_reachable_ok [OF demo3_reachable], of "Ptr 1 0" "''1''"]
    by (auto simp: demo3_extptrs mapped_at_def split: option.splits)
  then have "getKey ''1'' \<in> row_name ` set (fst (getSharedObjectList demo3))"
    using report by auto
  then obtain row where "row \<in> set (fst (getSharedObjectList demo3))" "row_name row = getKey ''1''"
    by auto
  then show ?thesis
    using report by (auto simp: demo3_extptrs)
qed

section \<open>Ids\<close>

text \<open>
  C8. \<open>getNextId\<close> always comes to an end. From counter value \<open>start\<close> it returns the first number
  after \<open>start\<close> (modulo \<open>2 ^ 64\<close>) whose segment does not exist, and leaves the counter there; it
  throws if and only if all \<open>2 ^ 64\<close> numbers are taken. Nothing but the counter is written.
\<close>

theorem getNextId_spec:
  assumes "shm_os_live B view" and "counter_is view w start"
  shows "\<exists>w' k. counter_moved view w w' \<and> counter_is view w' (start + of_nat k) \<and> 0 < k \<and> k \<le> 2 ^ 64 \<and>
    (\<forall>l. 0 < l \<and> l < k \<longrightarrow> id_used view w (start + of_nat l)) \<and>
    getNextId B w = (if id_used view w (start + of_nat k) then Inl (CppError no_key_message)
       else Inr (to_string (unat (start + of_nat k))), w') \<and>
    (id_used view w (start + of_nat k) \<longrightarrow> k = 2 ^ 64)"
  using assms by (rule shm_os_live.getNextId_run)

theorem getNextId_spec_witness:
  "\<exists>w' k. counter_is posix_view w' (0 + of_nat k) \<and> 0 < k \<and>
    getNextId posix_boost demo1 = (if id_used posix_view demo1 (0 + of_nat k) then Inl (CppError no_key_message)
       else Inr (to_string (unat (0 + of_nat k :: u64))), w')"
  using getNextId_spec [OF posix_live demo1_ok(3)] by blast

end
